(* ===== verification/Prelude.thy ===== *)
theory Prelude
  imports Main "HOL-Library.Multiset"
begin

text \<open>
  Shared material of the development: the collections of simplification facts, the names
  of the types used everywhere, and the lemmas on keyed tables (lists of rows with a
  primary key) and on pages of sorted lists that the storage layer and its clients use.
\<close>

named_theorems go_consts \<open>definitions of the source's string and number constants\<close>
named_theorems go_std \<open>evaluation of the modelled standard-library functions\<close>
named_theorems table_simps \<open>facts about keyed tables\<close>

text \<open>
  Go strings and byte slices are sequences of bytes. Both are \<open>string\<close> here (a list of
  8-bit characters), so that the conversions \<open>[]byte(s)\<close> and \<open>string(b)\<close> of the source
  are the identity. A Go \<open>time.Time\<close> is its number of nanoseconds since the epoch.
\<close>

type_synonym bytes = string
type_synonym go_time = int

subsection \<open>Options\<close>

lemma map_option_eq_Some_iff:
  "map_option f x = Some y \<longleftrightarrow> (\<exists>z. x = Some z \<and> y = f z)"
  by (cases x) auto

lemma option_bind_if [simp]:
  "Option.bind (if c then Some x else None) f = (if c then f x else None)"
  by simp

subsection \<open>Keyed tables\<close>

definition lookup_by :: "('r \<Rightarrow> 'k) \<Rightarrow> 'k \<Rightarrow> 'r list \<Rightarrow> 'r option" where
  "lookup_by key k rs = find (\<lambda>r. key r = k) rs"

definition has_key :: "('r \<Rightarrow> 'k) \<Rightarrow> 'k \<Rightarrow> 'r list \<Rightarrow> bool" where
  "has_key key k rs = list_ex (\<lambda>r. key r = k) rs"

definition update_by :: "('r \<Rightarrow> 'k) \<Rightarrow> 'k \<Rightarrow> ('r \<Rightarrow> 'r) \<Rightarrow> 'r list \<Rightarrow> 'r list" where
  "update_by key k f rs = map (\<lambda>r. if key r = k then f r else r) rs"

definition keys_unique :: "('r \<Rightarrow> 'k) \<Rightarrow> 'r list \<Rightarrow> bool" where
  "keys_unique key rs = distinct (map key rs)"

lemma lookup_by_Nil [simp, table_simps]: "lookup_by key k [] = None"
  by (simp add: lookup_by_def)

lemma lookup_by_Cons [table_simps]:
  "lookup_by key k (r # rs) = (if key r = k then Some r else lookup_by key k rs)"
  by (simp add: lookup_by_def)

lemma has_key_Nil [simp, table_simps]: "\<not> has_key key k []"
  by (simp add: has_key_def)

lemma has_key_Cons [table_simps]: "has_key key k (r # rs) \<longleftrightarrow> key r = k \<or> has_key key k rs"
  by (simp add: has_key_def)

lemma has_key_iff: "has_key key k rs \<longleftrightarrow> (\<exists>r \<in> set rs. key r = k)"
  by (simp add: has_key_def list_ex_iff)

lemma has_key_append [table_simps]:
  "has_key key k (rs @ ss) \<longleftrightarrow> has_key key k rs \<or> has_key key k ss"
  by (simp add: has_key_def)

lemma lookup_by_None [table_simps]: "lookup_by key k rs = None \<longleftrightarrow> \<not> has_key key k rs"
  by (auto simp: lookup_by_def has_key_iff find_None_iff)

lemma lookup_by_SomeD: "lookup_by key k rs = Some r \<Longrightarrow> r \<in> set rs \<and> key r = k"
  by (induction rs) (auto simp: lookup_by_Cons split: if_splits)

lemma has_key_lookup: "has_key key k rs \<Longrightarrow> \<exists>r. lookup_by key k rs = Some r \<and> key r = k"
  by (metis lookup_by_None lookup_by_SomeD not_None_eq)

lemma lookup_by_append [table_simps]:
  "lookup_by key k (rs @ ss) =
     (case lookup_by key k rs of None \<Rightarrow> lookup_by key k ss | Some r \<Rightarrow> Some r)"
  by (induction rs) (auto simp: lookup_by_Cons)

lemma lookup_by_snoc_fresh:
  "\<not> has_key key (key r) rs \<Longrightarrow>
     lookup_by key k (rs @ [r]) = (if k = key r then Some r else lookup_by key k rs)"
  by (induction rs) (auto simp: lookup_by_Cons has_key_Cons)

lemma lookup_by_unique:
  "keys_unique key rs \<Longrightarrow> r \<in> set rs \<Longrightarrow> lookup_by key (key r) rs = Some r"
  by (induction rs) (auto simp: lookup_by_Cons keys_unique_def rev_image_eqI)

lemma lookup_by_iff:
  "keys_unique key rs \<Longrightarrow> lookup_by key k rs = Some r \<longleftrightarrow> r \<in> set rs \<and> key r = k"
  using lookup_by_unique [of key rs r] lookup_by_SomeD [of key k rs r] by auto

lemma update_by_Nil [simp, table_simps]: "update_by key k f [] = []"
  by (simp add: update_by_def)

lemma update_by_Cons [table_simps]:
  "update_by key k f (r # rs) = (if key r = k then f r else r) # update_by key k f rs"
  by (simp add: update_by_def)

lemma update_by_absent: "\<not> has_key key k rs \<Longrightarrow> update_by key k f rs = rs"
  by (induction rs) (auto simp: update_by_Cons has_key_Cons)

lemma keys_update_by:
  assumes "\<And>r. key (f r) = key r"
  shows "map key (update_by key k f rs) = map key rs"
  by (induction rs) (auto simp: update_by_Cons assms)

lemma has_key_update_by:
  assumes "\<And>r. key (f r) = key r"
  shows "has_key key k' (update_by key k f rs) \<longleftrightarrow> has_key key k' rs"
  by (induction rs) (auto simp: update_by_Cons has_key_Cons assms)

lemma lookup_update_by:
  assumes "\<And>r. key (f r) = key r"
  shows "lookup_by key k' (update_by key k f rs) =
    (if k' = k then map_option f (lookup_by key k' rs) else lookup_by key k' rs)"
  by (induction rs) (auto simp: update_by_Cons lookup_by_Cons assms)

lemma keys_unique_Nil [simp]: "keys_unique key []"
  by (simp add: keys_unique_def)

lemma keys_unique_append_fresh:
  "keys_unique key rs \<Longrightarrow> \<not> has_key key (key r) rs \<Longrightarrow> keys_unique key (rs @ [r])"
  by (auto simp: keys_unique_def has_key_iff)

lemma keys_unique_update_by:
  assumes "\<And>r. key (f r) = key r" and "keys_unique key rs"
  shows "keys_unique key (update_by key k f rs)"
  using assms by (simp add: keys_unique_def keys_update_by)

lemma list_all_update_by:
  assumes "\<And>r. P r \<Longrightarrow> key r = k \<Longrightarrow> P (f r)" and "list_all P rs"
  shows "list_all P (update_by key k f rs)"
  using assms by (auto simp: update_by_def list_all_iff)

text \<open>Insert a row or overwrite the row with the same key: SQL's upsert.\<close>

definition upsert_by :: "('r \<Rightarrow> 'k) \<Rightarrow> ('r \<Rightarrow> 'r) \<Rightarrow> 'r \<Rightarrow> 'r list \<Rightarrow> 'r list" where
  "upsert_by key upd r rs =
     (if has_key key (key r) rs then update_by key (key r) upd rs else rs @ [r])"

lemma keys_unique_upsert_by:
  assumes "\<And>r. key (upd r) = key r" and "keys_unique key rs"
  shows "keys_unique key (upsert_by key upd r rs)"
  using assms by (simp add: upsert_by_def keys_unique_update_by keys_unique_append_fresh)

lemma list_all_upsert_by:
  assumes "\<And>r. P r \<Longrightarrow> P (upd r)" and "P r" and "list_all P rs"
  shows "list_all P (upsert_by key upd r rs)"
  using assms by (simp add: upsert_by_def list_all_update_by)

lemma has_key_upsert_by:
  assumes "\<And>r. key (upd r) = key r"
  shows "has_key key k (upsert_by key upd r rs) \<longleftrightarrow> k = key r \<or> has_key key k rs"
  using assms by (auto simp: upsert_by_def has_key_update_by has_key_append has_key_Cons)

lemma lookup_upsert_by:
  assumes "\<And>r. key (upd r) = key r"
  shows "lookup_by key k (upsert_by key upd r rs) =
    (if k = key r
     then Some (case lookup_by key k rs of None \<Rightarrow> r | Some old \<Rightarrow> upd old)
     else lookup_by key k rs)"
proof (cases "has_key key (key r) rs")
  case True
  then obtain old where "lookup_by key (key r) rs = Some old"
    using has_key_lookup by metis
  with True assms show ?thesis by (simp add: upsert_by_def lookup_update_by)
next
  case False
  then have "lookup_by key (key r) rs = None" by (simp add: lookup_by_None)
  with False show ?thesis
    by (auto simp: upsert_by_def lookup_by_append lookup_by_Cons split: option.split)
qed

text \<open>Remove the rows of a key.\<close>

definition delete_by :: "('r \<Rightarrow> 'k) \<Rightarrow> 'k \<Rightarrow> 'r list \<Rightarrow> 'r list" where
  "delete_by key k rs = filter (\<lambda>r. key r \<noteq> k) rs"

lemma lookup_delete_by:
  "lookup_by key k' (delete_by key k rs) = (if k' = k then None else lookup_by key k' rs)"
  by (induction rs) (auto simp: lookup_by_Cons delete_by_def)

text \<open>Association lists are keyed tables of pairs.\<close>

lemma map_of_lookup_by: "map_of xs k = map_option snd (lookup_by fst k xs)"
  by (induction xs) (auto simp: lookup_by_Cons)

lemma map_of_upsert:
  "map_of (upsert_by fst (\<lambda>old. (fst old, v)) (k, v) xs) = (map_of xs)(k \<mapsto> v)"
  by (auto simp: map_of_lookup_by lookup_upsert_by fun_eq_iff split: option.split)

subsection \<open>Row order and pages\<close>

text \<open>
  A query with \<open>ORDER BY\<close> leaves the order of equal rows open. The order in which the
  database scans the table is an arbitrary function; an answer that is no permutation of
  the table is not a scan and is replaced by the table itself.
\<close>

definition scan_rows :: "('r list \<Rightarrow> 'r list) \<Rightarrow> 'r list \<Rightarrow> 'r list" where
  "scan_rows f rs = (if mset (f rs) = mset rs then f rs else rs)"

lemma mset_scan_rows [simp]: "mset (scan_rows f rs) = mset rs"
  by (simp add: scan_rows_def)

lemma set_scan_rows [simp]: "set (scan_rows f rs) = set rs"
  by (metis mset_scan_rows set_mset_mset)

lemma length_scan_rows [simp]: "length (scan_rows f rs) = length rs"
  by (metis mset_scan_rows size_mset)

definition page :: "nat \<Rightarrow> nat \<Rightarrow> 'r list \<Rightarrow> 'r list" where
  "page limit offset rs = take limit (drop offset rs)"

lemma length_page_le: "length (page limit offset rs) \<le> limit"
  by (simp add: page_def)

lemma set_page_subset: "set (page limit offset rs) \<subseteq> set rs"
  unfolding page_def using set_take_subset set_drop_subset by (rule subset_trans)

lemma sorted_wrt_page: "sorted_wrt P rs \<Longrightarrow> sorted_wrt P (page limit offset rs)"
  by (simp add: page_def sorted_wrt_take sorted_wrt_drop)

lemma page_all: "length rs \<le> limit \<Longrightarrow> page limit 0 rs = rs"
  by (simp add: page_def)

lemma pages_append: "page m o' rs @ page n (o' + m) rs = page (m + n) o' rs"
  by (simp add: page_def take_add add.commute)

subsection \<open>Lists whose positions differ\<close>

text \<open>No two positions of a list have the same value under \<open>f\<close>.\<close>

definition apart :: "('a \<Rightarrow> 'b option) \<Rightarrow> 'a list \<Rightarrow> bool" where
  "apart f xs \<longleftrightarrow>
     (\<forall>i j n. i < length xs \<longrightarrow> j < length xs \<longrightarrow> f (xs ! i) = Some n \<longrightarrow> f (xs ! j) = Some n \<longrightarrow> i = j)"

lemma apart_Nil [simp]: "apart f []"
  by (simp add: apart_def)

lemma apartD: "apart f xs \<Longrightarrow> i < length xs \<Longrightarrow> j < length xs \<Longrightarrow> f (xs ! i) = Some n \<Longrightarrow> f (xs ! j) = Some n \<Longrightarrow> i = j"
  by (simp add: apart_def)

lemma apart_snoc:
  assumes "apart f xs" and "f x = None"
  shows "apart f (xs @ [x])"
  unfolding apart_def
proof (intro allI impI)
  fix i j n
  assume "i < length (xs @ [x])" "j < length (xs @ [x])" "f ((xs @ [x]) ! i) = Some n" "f ((xs @ [x]) ! j) = Some n"
  moreover from this assms(2) have "i \<noteq> length xs" "j \<noteq> length xs" by auto
  ultimately show "i = j" using apartD [OF assms(1)] by (simp add: nth_append)
qed

lemma apart_update:
  assumes "apart f xs" and "\<And>j n. j < length xs \<Longrightarrow> j \<noteq> k \<Longrightarrow> f y = Some n \<Longrightarrow> f (xs ! j) \<noteq> Some n"
  shows "apart f (xs[k := y])"
  unfolding apart_def
proof (intro allI impI)
  fix i j n
  assume ij: "i < length (xs[k := y])" "j < length (xs[k := y])" "f (xs[k := y] ! i) = Some n" "f (xs[k := y] ! j) = Some n"
  show "i = j"
  proof (cases "i = k \<or> j = k")
    case True
    with ij assms(2) show ?thesis by (cases "i = k"; cases "j = k") auto
  next
    case False
    with ij apartD [OF assms(1)] show ?thesis by simp
  qed
qed

end
