(* ===== verification/Go_Std.thy ===== *)
theory Go_Std
  imports Prelude "HOL-Library.Sublist" "HOL-Library.Word"
begin

text \<open>
  The part of Go's standard library that the source calls, on byte strings: trimming,
  splitting, case folding, searching, numbers in decimal and hexadecimal, quoting.
  Machine integers: Go's \<open>int\<close> and \<open>int64\<close> have 64 bits on the platforms the binary is
  built for; where a value can leave its range the conversion is written out.
\<close>

subsection \<open>Prefixes, substrings, splitting\<close>

fun HasPrefix :: "string \<Rightarrow> string \<Rightarrow> bool" where
  "HasPrefix s [] = True"
| "HasPrefix [] (p # ps) = False"
| "HasPrefix (c # s) (p # ps) = (c = p \<and> HasPrefix s ps)"

lemma HasPrefix_iff: "HasPrefix s p \<longleftrightarrow> (\<exists>t. s = p @ t)"
  by (induction s p rule: HasPrefix.induct) auto

lemma HasPrefix_take: "HasPrefix s p \<longleftrightarrow> take (length p) s = p"
  by (induction s p rule: HasPrefix.induct) auto

definition HasSuffix :: "string \<Rightarrow> string \<Rightarrow> bool" where
  "HasSuffix s p = HasPrefix (rev s) (rev p)"

fun Contains :: "string \<Rightarrow> string \<Rightarrow> bool" where
  "Contains [] sub = HasPrefix [] sub"
| "Contains (c # s) sub = (HasPrefix (c # s) sub \<or> Contains s sub)"

lemma Contains_iff: "Contains s sub \<longleftrightarrow> (\<exists>a b. s = a @ sub @ b)"
proof (induction s)
  case Nil
  then show ?case by (auto simp: HasPrefix_iff)
next
  case (Cons c s)
  have "(\<exists>a b. c # s = a @ sub @ b) \<longleftrightarrow>
      (\<exists>b. c # s = sub @ b) \<or> (\<exists>a b. s = a @ sub @ b)"
    by (metis append_Cons append_Nil list.exhaust list.inject)
  with Cons show ?case by (simp add: HasPrefix_iff)
qed

lemma Contains_append: "Contains s sub \<Longrightarrow> Contains (a @ s @ b) sub"
  by (metis Contains_iff append.assoc)

text \<open>
  \<open>strings.IndexAny(s, chars)\<close> for a set of ASCII bytes, and the two halves around the
  first hit: \<open>None\<close> for the index \<open>-1\<close>.
\<close>

fun IndexAny :: "string \<Rightarrow> string \<Rightarrow> nat option" where
  "IndexAny [] cs = None"
| "IndexAny (c # s) cs = (if c \<in> set cs then Some 0 else map_option Suc (IndexAny s cs))"

lemma IndexAny_None: "IndexAny s cs = None \<longleftrightarrow> set s \<inter> set cs = {}"
  by (induction s) auto

lemma IndexAny_SomeD:
  "IndexAny s cs = Some i \<Longrightarrow> i < length s \<and> s ! i \<in> set cs \<and> set (take i s) \<inter> set cs = {}"
proof (induction s arbitrary: i)
  case Nil
  then show ?case by simp
next
  case (Cons c s)
  show ?case
  proof (cases "c \<in> set cs")
    case True
    with Cons.prems show ?thesis by simp
  next
    case False
    with Cons.prems obtain j where "IndexAny s cs = Some j" and "i = Suc j" by auto
    with Cons.IH [of j] False show ?thesis by auto
  qed
qed

text \<open>\<open>strings.SplitN(s, sep, 2)\<close> for a one-byte separator.\<close>

definition SplitN2 :: "string \<Rightarrow> char \<Rightarrow> string list" where
  "SplitN2 s sep =
     (case IndexAny s [sep] of
        None \<Rightarrow> [s]
      | Some i \<Rightarrow> [take i s, drop (Suc i) s])"

lemma SplitN2_two:
  assumes "SplitN2 s sep = [a, b]"
  shows "s = a @ sep # b \<and> sep \<notin> set a"
proof -
  from assms obtain i where i: "IndexAny s [sep] = Some i"
    and ab: "a = take i s" "b = drop (Suc i) s"
    by (auto simp: SplitN2_def split: option.splits)
  from IndexAny_SomeD [OF i] have "i < length s" and "s ! i = sep" and "sep \<notin> set (take i s)"
    by auto
  then show ?thesis using id_take_nth_drop [of i s] ab by simp
qed

lemma SplitN2_append: "sep \<notin> set a \<Longrightarrow> SplitN2 (a @ sep # b) sep = [a, b]"
proof -
  assume a: "sep \<notin> set a"
  then have "IndexAny (a @ sep # b) [sep] = Some (length a)"
    by (induction a) auto
  then show ?thesis by (simp add: SplitN2_def)
qed

text \<open>\<open>subtle.ConstantTimeCompare(a, b) == 1\<close>: equal lengths and equal bytes.\<close>

definition ConstantTimeEq :: "bytes \<Rightarrow> bytes \<Rightarrow> bool" where
  "ConstantTimeEq a b \<longleftrightarrow> length a = length b \<and> list_all2 (=) a b"

lemma ConstantTimeEq_iff [simp]: "ConstantTimeEq a b \<longleftrightarrow> a = b"
  by (auto simp: ConstantTimeEq_def list.rel_eq)

text \<open>\<open>strings.Split\<close> on a one-byte separator: the segments of a path.\<close>

fun split_on :: "char \<Rightarrow> string \<Rightarrow> string list" where
  "split_on sep [] = [[]]"
| "split_on sep (c # s) =
     (if c = sep then [] # split_on sep s
      else (case split_on sep s of [] \<Rightarrow> [[c]] | w # ws \<Rightarrow> (c # w) # ws))"

subsection \<open>Letter case\<close>

text \<open>
  Case conversion is applied by the source to a word that it compares with ASCII
  constants only. No character outside ASCII has a lower-case form made of the letters
  of those constants, so bytes outside ASCII can stay as they are: such a word equals no
  constant before and after.
\<close>

definition lower_char :: "char \<Rightarrow> char" where
  "lower_char c =
     (if 65 \<le> (of_char c :: nat) \<and> (of_char c :: nat) \<le> 90
      then char_of ((of_char c :: nat) + 32) else c)"

definition ToLower :: "string \<Rightarrow> string" where
  "ToLower s = map lower_char s"

text \<open>\<open>strings.EqualFold\<close> against a constant without the letters k and s.\<close>

definition EqualFold :: "string \<Rightarrow> string \<Rightarrow> bool" where
  "EqualFold s t = (ToLower s = ToLower t)"

lemma EqualFold_refl [simp]: "EqualFold s s"
  by (simp add: EqualFold_def)

lemma ToLower_Nil_iff [simp]: "ToLower s = [] \<longleftrightarrow> s = []"
  by (simp add: ToLower_def)

lemma lower_char_idem [simp]: "lower_char (lower_char c) = lower_char c"
proof (cases "65 \<le> (of_char c :: nat) \<and> (of_char c :: nat) \<le> 90")
  case True
  then have "(of_char (char_of ((of_char c :: nat) + 32) :: char) :: nat) = of_char c + 32"
    by (simp add: of_char_of)
  with True show ?thesis by (simp add: lower_char_def)
next
  case False
  then show ?thesis by (auto simp: lower_char_def)
qed

lemma ToLower_idem [simp]: "ToLower (ToLower s) = ToLower s"
  by (simp add: ToLower_def)

subsection \<open>White space\<close>

text \<open>
  The encodings of the code points for which \<open>unicode.IsSpace\<close> holds: tab to carriage
  return, space, U+0085, U+00A0, U+1680, U+2000 to U+200A, U+2028, U+2029, U+202F,
  U+205F, U+3000. A string that starts (ends) with one of these byte sequences starts
  (ends) with that code point, whatever follows (precedes).
\<close>

definition byte_string :: "nat list \<Rightarrow> string" where
  "byte_string ns = map char_of ns"

definition white_space :: "string list" where
  "white_space =
     map (\<lambda>n. byte_string [n]) [9, 10, 11, 12, 13, 32]
     @ [byte_string [194, 133], byte_string [194, 160], byte_string [225, 154, 128]]
     @ map (\<lambda>n. byte_string [226, 128, n]) ([128..<139] @ [168, 169, 175])
     @ [byte_string [226, 129, 159], byte_string [227, 128, 128]]"

function strip_front :: "string list \<Rightarrow> string \<Rightarrow> string" where
  "strip_front ws s =
     (case find (\<lambda>w. w \<noteq> [] \<and> HasPrefix s w) ws of
        None \<Rightarrow> s
      | Some w \<Rightarrow> strip_front ws (drop (length w) s))"
  by pat_completeness auto
termination
proof (relation "measure (length \<circ> snd)")
  show "wf (measure (length \<circ> (snd :: string list \<times> string \<Rightarrow> string)))" by simp
next
  fix ws :: "string list" and s w :: string
  assume f: "find (\<lambda>w. w \<noteq> [] \<and> HasPrefix s w) ws = Some w"
  then have "w \<noteq> []" and "HasPrefix s w"
    by (auto simp: find_Some_iff)
  then obtain t where "s = w @ t" and "0 < length w" by (auto simp: HasPrefix_iff)
  then show "((ws, drop (length w) s), (ws, s)) \<in> measure (length \<circ> snd)"
    by (simp add: comp_def)
qed

declare strip_front.simps [simp del]

text \<open>\<open>strings.TrimSpace\<close>: both ends, the left one first.\<close>

definition TrimLeft :: "string \<Rightarrow> string" where
  "TrimLeft s = strip_front white_space s"

definition TrimRight :: "string \<Rightarrow> string" where
  "TrimRight s = rev (strip_front (map rev white_space) (rev s))"

definition TrimSpace :: "string \<Rightarrow> string" where
  "TrimSpace s = TrimRight (TrimLeft s)"

lemma strip_front_suffix: "\<exists>p. s = p @ strip_front ws s"
proof (induction ws s rule: strip_front.induct)
  case (1 ws s)
  show ?case
  proof (cases "find (\<lambda>w. w \<noteq> [] \<and> HasPrefix s w) ws")
    case None
    then show ?thesis by (simp add: strip_front.simps [of ws s])
  next
    case (Some w)
    then have "HasPrefix s w" by (auto simp: find_Some_iff)
    then have s: "s = w @ drop (length w) s" by (auto simp: HasPrefix_iff)
    from "1.IH" [OF Some] obtain p
      where "drop (length w) s = p @ strip_front ws (drop (length w) s)" by blast
    with Some s have "s = (w @ p) @ strip_front ws s"
      by (simp add: strip_front.simps [of ws s])
    then show ?thesis by blast
  qed
qed

lemma strip_front_no_prefix:
  "w \<in> set ws \<Longrightarrow> w \<noteq> [] \<Longrightarrow> \<not> HasPrefix (strip_front ws s) w"
proof (induction ws s rule: strip_front.induct)
  case (1 ws s)
  show ?case
  proof (cases "find (\<lambda>w. w \<noteq> [] \<and> HasPrefix s w) ws")
    case None
    then have "strip_front ws s = s" by (simp add: strip_front.simps [of ws s])
    moreover from None "1.prems" have "\<not> HasPrefix s w" by (auto simp: find_None_iff)
    ultimately show ?thesis by simp
  next
    case (Some v)
    with "1.IH" [OF Some "1.prems"] show ?thesis by (simp add: strip_front.simps [of ws s])
  qed
qed

lemma strip_front_id:
  "(\<And>w. w \<in> set ws \<Longrightarrow> w \<noteq> [] \<Longrightarrow> \<not> HasPrefix s w) \<Longrightarrow> strip_front ws s = s"
  by (subst strip_front.simps) (auto simp: find_None_iff split: option.split dest!: find_Some_iff [THEN iffD1])

lemma strip_front_idem [simp]: "strip_front ws (strip_front ws s) = strip_front ws s"
  by (rule strip_front_id) (rule strip_front_no_prefix)

lemma TrimRight_prefix: "\<exists>t. s = TrimRight s @ t"
proof -
  obtain p where "rev s = p @ strip_front (map rev white_space) (rev s)"
    using strip_front_suffix by blast
  then have "s = TrimRight s @ rev p"
    unfolding TrimRight_def by (metis rev_append rev_rev_ident)
  then show ?thesis by blast
qed

lemma TrimLeft_TrimRight:
  assumes "TrimLeft s = s"
  shows "TrimLeft (TrimRight s) = TrimRight s"
  unfolding TrimLeft_def
proof (rule strip_front_id)
  fix w assume w: "w \<in> set white_space" "w \<noteq> []"
  from assms have "\<not> HasPrefix s w"
    using strip_front_no_prefix [OF w, of s] by (simp add: TrimLeft_def)
  then show "\<not> HasPrefix (TrimRight s) w"
    using TrimRight_prefix [of s] by (metis HasPrefix_iff append.assoc)
qed

lemma TrimLeft_idem [simp]: "TrimLeft (TrimLeft s) = TrimLeft s"
  by (simp add: TrimLeft_def)

lemma TrimRight_idem [simp]: "TrimRight (TrimRight s) = TrimRight s"
  by (simp add: TrimRight_def)

lemma TrimLeft_TrimSpace [simp]: "TrimLeft (TrimSpace s) = TrimSpace s"
  unfolding TrimSpace_def by (rule TrimLeft_TrimRight) simp

lemma TrimSpace_idem [simp]: "TrimSpace (TrimSpace s) = TrimSpace s"
  using TrimLeft_TrimSpace [of s] by (simp add: TrimSpace_def)

lemma TrimSpace_infix: "\<exists>a b. s = a @ TrimSpace s @ b"
proof -
  obtain a where a: "s = a @ TrimLeft s" using strip_front_suffix by (auto simp: TrimLeft_def)
  obtain b where b: "TrimLeft s = TrimRight (TrimLeft s) @ b" using TrimRight_prefix by blast
  from a b have "s = a @ TrimSpace s @ b" by (metis TrimSpace_def)
  then show ?thesis by blast
qed

lemma TrimSpace_Nil [simp]: "TrimSpace [] = []"
  using TrimSpace_infix [of "[]"] by simp

text \<open>A text that begins and ends with a printable ASCII character is trimmed already.\<close>

definition plain_char :: "char \<Rightarrow> bool" where
  "plain_char c \<longleftrightarrow> 33 \<le> (of_char c :: nat) \<and> (of_char c :: nat) \<le> 126"

lemma strip_front_plain: "list_all (\<lambda>w. w \<noteq> [] \<and> hd w \<noteq> c) ws \<Longrightarrow> strip_front ws (c # s) = c # s"
proof -
  assume a: "list_all (\<lambda>w. w \<noteq> [] \<and> hd w \<noteq> c) ws"
  have "find (\<lambda>w. w \<noteq> [] \<and> HasPrefix (c # s) w) ws = None"
    using a by (induction ws) (auto simp: HasPrefix_iff neq_Nil_conv)
  then show ?thesis by (subst strip_front.simps) simp
qed

lemma plain_char_byte: "plain_char c \<Longrightarrow> n < 256 \<Longrightarrow> n < 33 \<or> 126 < n \<Longrightarrow> char_of (n :: nat) \<noteq> c"
  by (auto simp: plain_char_def)

lemma white_space_plain:
  assumes "plain_char c"
  shows "list_all (\<lambda>w. w \<noteq> [] \<and> hd w \<noteq> c) white_space"
    and "list_all (\<lambda>w. w \<noteq> [] \<and> hd w \<noteq> c) (map rev white_space)"
  using plain_char_byte [OF assms]
  by (simp_all add: white_space_def byte_string_def upt_rec)

lemma TrimSpace_plain:
  assumes "plain_char (hd s)" and "plain_char (last s)" and "s \<noteq> []"
  shows "TrimSpace s = s"
proof -
  from assms(3) obtain c t where s: "s = c # t" by (cases s) auto
  from assms(3) obtain d u where r: "rev s = d # u" by (cases "rev s") auto
  from r have "last s = d" by (metis hd_rev list.sel(1))
  then have "strip_front (map rev white_space) (rev s) = rev s"
    using assms(2) by (simp add: r strip_front_plain white_space_plain)
  moreover have "strip_front white_space s = s"
    using assms(1) by (simp add: s strip_front_plain white_space_plain)
  ultimately show ?thesis by (simp add: TrimSpace_def TrimLeft_def TrimRight_def)
qed

subsection \<open>Numbers in decimal\<close>

definition digit_char :: "nat \<Rightarrow> char" where
  "digit_char d = char_of (48 + d)"

definition digit_val :: "char \<Rightarrow> nat option" where
  "digit_val c =
     (let n = of_char c in if 48 \<le> n \<and> n \<le> 57 then Some (n - 48) else None)"

lemma digit_val_char: "d < 10 \<Longrightarrow> digit_val (digit_char d) = Some d"
  by (simp add: digit_val_def digit_char_def of_char_of Let_def)

text \<open>The value of a non-empty string of digits, most significant first.\<close>

fun digits_val :: "nat \<Rightarrow> string \<Rightarrow> nat option" where
  "digits_val acc [] = Some acc"
| "digits_val acc (c # cs) =
     (case digit_val c of None \<Rightarrow> None | Some d \<Rightarrow> digits_val (10 * acc + d) cs)"

lemma digits_val_snoc:
  "digits_val acc (cs @ [c]) =
     (case digits_val acc cs of None \<Rightarrow> None
      | Some n \<Rightarrow> (case digit_val c of None \<Rightarrow> None | Some d \<Rightarrow> Some (10 * n + d)))"
  by (induction cs arbitrary: acc) (auto split: option.split)

definition int64_min :: int where "int64_min = - (2 ^ 63)"
definition int64_max :: int where "int64_max = 2 ^ 63 - 1"

lemmas int64_bounds = int64_min_def int64_max_def

definition in_int64 :: "int \<Rightarrow> bool" where
  "in_int64 i \<longleftrightarrow> int64_min \<le> i \<and> i \<le> int64_max"

text \<open>
  \<open>strconv.ParseInt(s, 10, 64)\<close>, which is also \<open>strconv.Atoi\<close> where \<open>int\<close> has 64 bits:
  an optional sign, at least one digit, nothing else, and a value in range.
\<close>

definition parse_digits :: "string \<Rightarrow> nat option" where
  "parse_digits s = (if s = [] then None else digits_val 0 s)"

definition parse_signed :: "string \<Rightarrow> int option" where
  "parse_signed s =
     (case s of
        [] \<Rightarrow> None
      | c # cs \<Rightarrow>
          if c = CHR ''-'' then map_option (\<lambda>n. - int n) (parse_digits cs)
          else if c = CHR ''+'' then map_option int (parse_digits cs)
          else map_option int (parse_digits s))"

definition ParseInt :: "string \<Rightarrow> int option" where
  "ParseInt s =
     (case parse_signed s of
        None \<Rightarrow> None
      | Some i \<Rightarrow> if in_int64 i then Some i else None)"

definition Atoi :: "string \<Rightarrow> int option" where
  "Atoi s = ParseInt s"

lemma ParseInt_range: "ParseInt s = Some i \<Longrightarrow> in_int64 i"
  by (auto simp: ParseInt_def split: option.splits if_splits)

text \<open>\<open>strconv.Itoa\<close> and the verb \<open>%d\<close>.\<close>

fun nat_dec :: "nat \<Rightarrow> string" where
  "nat_dec n = (if n < 10 then [digit_char n] else nat_dec (n div 10) @ [digit_char (n mod 10)])"

declare nat_dec.simps [simp del]

definition Itoa :: "int \<Rightarrow> string" where
  "Itoa i = (if i < 0 then CHR ''-'' # nat_dec (nat (- i)) else nat_dec (nat i))"

lemma nat_dec_nonempty [simp]: "nat_dec n \<noteq> []"
  by (subst nat_dec.simps) simp

lemma digits_val_nat_dec: "digits_val 0 (nat_dec n) = Some n"
proof (induction n rule: nat_dec.induct)
  case (1 n)
  show ?case
  proof (cases "n < 10")
    case True
    then show ?thesis by (simp add: nat_dec.simps [of n] digit_val_char)
  next
    case False
    with 1 show ?thesis
      by (simp add: nat_dec.simps [of n] digits_val_snoc digit_val_char)
  qed
qed

lemma parse_digits_nat_dec: "parse_digits (nat_dec n) = Some n"
  by (simp add: parse_digits_def digits_val_nat_dec)

lemma nat_dec_hd: "\<exists>d cs. d < 10 \<and> nat_dec n = digit_char d # cs"
proof (induction n rule: nat_dec.induct)
  case (1 n)
  show ?case
  proof (cases "n < 10")
    case True
    then show ?thesis by (auto simp: nat_dec.simps [of n])
  next
    case False
    with 1 obtain d cs where "d < 10" and "nat_dec (n div 10) = digit_char d # cs" by blast
    with False show ?thesis by (auto simp: nat_dec.simps [of n])
  qed
qed

lemma digit_char_not_sign:
  assumes "d < 10"
  shows "digit_char d \<noteq> CHR ''-''" and "digit_char d \<noteq> CHR ''+''"
proof -
  have "digit_val CHR ''-'' = None" and "digit_val CHR ''+'' = None"
    by (simp_all add: digit_val_def Let_def)
  with digit_val_char [OF assms] show "digit_char d \<noteq> CHR ''-''" and "digit_char d \<noteq> CHR ''+''"
    by auto
qed

lemma parse_signed_Itoa: "parse_signed (Itoa i) = Some i"
proof (cases "i < 0")
  case True
  then show ?thesis by (simp add: Itoa_def parse_signed_def parse_digits_nat_dec)
next
  case False
  obtain d cs where d: "d < 10" and cs: "nat_dec (nat i) = digit_char d # cs"
    using nat_dec_hd by blast
  from False d cs parse_digits_nat_dec [of "nat i"] show ?thesis
    by (simp add: Itoa_def parse_signed_def digit_char_not_sign)
qed

lemma ParseInt_Itoa: "in_int64 i \<Longrightarrow> ParseInt (Itoa i) = Some i"
  by (simp add: ParseInt_def parse_signed_Itoa)

lemma Itoa_inject: "Itoa i = Itoa j \<longleftrightarrow> i = j"
  by (metis parse_signed_Itoa option.inject)

subsection \<open>Hexadecimal\<close>

definition hex_digit :: "nat \<Rightarrow> char" where
  "hex_digit d = (if d < 10 then char_of (48 + d) else char_of (87 + d))"

definition hex_byte :: "char \<Rightarrow> string" where
  "hex_byte c = [hex_digit (of_char c div 16), hex_digit (of_char c mod 16)]"

text \<open>\<open>hex.EncodeToString\<close>.\<close>

definition EncodeToString :: "bytes \<Rightarrow> string" where
  "EncodeToString bs = concat (map hex_byte bs)"

lemma length_EncodeToString [simp]: "length (EncodeToString bs) = 2 * length bs"
  by (induction bs) (auto simp: EncodeToString_def hex_byte_def)

lemma hex_digit_code:
  "n < 16 \<Longrightarrow> (of_char (hex_digit n) :: nat) = (if n < 10 then 48 + n else 87 + n)"
  by (simp add: hex_digit_def of_char_of)

lemma hex_digit_inj:
  assumes "d < 16" and "e < 16" and "hex_digit d = hex_digit e"
  shows "d = e"
proof -
  from assms(3) have "(of_char (hex_digit d) :: nat) = of_char (hex_digit e)" by simp
  then have "(if d < 10 then 48 + d else 87 + d) = (if e < 10 then 48 + e else 87 + e)"
    by (simp only: hex_digit_code [OF assms(1)] hex_digit_code [OF assms(2)])
  then show ?thesis by (auto split: if_splits)
qed

lemma of_char_lt: "(of_char c :: nat) < 256"
  using of_char_mod_256 [of c, where ?'a = nat] by (metis mod_less_divisor zero_less_numeral)

lemma hex_byte_inj: "hex_byte c = hex_byte d \<longleftrightarrow> c = d"
proof
  assume h: "hex_byte c = hex_byte d"
  have *: "(of_char x :: nat) div 16 < 16" for x
    by (rule less_mult_imp_div_less) (use of_char_lt [of x] in linarith)
  from h have "(of_char c :: nat) div 16 = of_char d div 16"
    and "(of_char c :: nat) mod 16 = of_char d mod 16"
    using * by (auto simp: hex_byte_def intro: hex_digit_inj)
  then have "(of_char c :: nat) = of_char d" by (metis div_mult_mod_eq)
  then show "c = d" by simp
qed simp

lemma EncodeToString_Cons: "EncodeToString (b # bs) = hex_byte b @ EncodeToString bs"
  by (simp add: EncodeToString_def)

lemma EncodeToString_inj: "EncodeToString bs = EncodeToString cs \<longleftrightarrow> bs = cs"
proof (induction bs arbitrary: cs)
  case Nil
  then show ?case by (cases cs) (auto simp: EncodeToString_def hex_byte_def)
next
  case (Cons b bs)
  show ?case
  proof (cases cs)
    case Nil
    then show ?thesis by (simp add: EncodeToString_def hex_byte_def)
  next
    case (Cons c cs')
    have "length (hex_byte b) = length (hex_byte c)" by (simp add: hex_byte_def)
    with Cons Cons.IH [of cs'] show ?thesis
      by (simp add: EncodeToString_Cons hex_byte_inj)
  qed
qed

subsection \<open>Quoting: the verb \<open>%q\<close>\<close>

text \<open>
  ASCII control characters are escaped; bytes outside ASCII are copied, which is what
  \<open>strconv.Quote\<close> does with the encoding of a printable code point.
\<close>

definition bslash :: char where "bslash = char_of (92::nat)"
definition dquote :: char where "dquote = char_of (34::nat)"

definition quote_char :: "char \<Rightarrow> string" where
  "quote_char c =
     (let n = of_char c :: nat in
      if c = dquote \<or> c = bslash then [bslash, c]
      else if n = 7 then bslash # ''a''
      else if n = 8 then bslash # ''b''
      else if n = 9 then bslash # ''t''
      else if n = 10 then bslash # ''n''
      else if n = 11 then bslash # ''v''
      else if n = 12 then bslash # ''f''
      else if n = 13 then bslash # ''r''
      else if n < 32 \<or> n = 127 then bslash # CHR ''x'' # hex_byte c
      else [c])"

definition quote :: "string \<Rightarrow> string" where
  "quote s = dquote # concat (map quote_char s) @ [dquote]"

subsection \<open>Paths\<close>

text \<open>\<open>filepath.Ext\<close>: from the last dot of the last path element.\<close>

definition path_Ext :: "string \<Rightarrow> string" where
  "path_Ext s =
     (let r = takeWhile (\<lambda>c. c \<noteq> CHR ''/'') (rev s)
      in if CHR ''.'' \<in> set r then CHR ''.'' # rev (takeWhile (\<lambda>c. c \<noteq> CHR ''.'') r) else [])"

fun join_with :: "string \<Rightarrow> string list \<Rightarrow> string" where
  "join_with sep [] = []"
| "join_with sep [w] = w"
| "join_with sep (w # ws) = w @ sep @ join_with sep ws"

definition clean_step :: "bool \<Rightarrow> string list \<Rightarrow> string \<Rightarrow> string list" where
  "clean_step rooted acc seg =
     (if seg = [] \<or> seg = ''.'' then acc
      else if seg = ''..'' then
        (case acc of
           [] \<Rightarrow> if rooted then [] else [''..'']
         | a # as \<Rightarrow> if a = ''..'' then ''..'' # acc else as)
      else seg # acc)"

text \<open>\<open>path.Clean\<close> (and \<open>filepath.Clean\<close> on Unix).\<close>

definition path_Clean :: "string \<Rightarrow> string" where
  "path_Clean p =
     (let rooted = HasPrefix p ''/'';
          r = join_with ''/'' (rev (foldl (clean_step rooted) [] (split_on CHR ''/'' p)))
      in if rooted then CHR ''/'' # r else if r = [] then ''.'' else r)"

text \<open>\<open>filepath.Join(dir, name)\<close>: empty elements are ignored.\<close>

definition path_Join :: "string \<Rightarrow> string \<Rightarrow> string" where
  "path_Join dir name =
     (if dir \<noteq> [] then path_Clean (dir @ ''/'' @ name)
      else if name \<noteq> [] then path_Clean name
      else [])"

end
