(* ===== verification/Go_Float.thy ===== *)
theory Go_Float
  imports Go_Std "HOL-Library.Log_Nat"
begin

text \<open>
  Go's \<open>float64\<close> where the source computes with it: the conversion of an integer and the
  quotient of two such values, both rounded to the nearest number with a 53-bit
  significand, ties to even. The values that occur are zero or between $2^{-63}$ and
  $2^{63}$ in size, so neither overflow nor subnormal numbers arise and a finite
  \<open>float64\<close> is the rational number it denotes.
\<close>

definition round_even :: "rat \<Rightarrow> int" where
  "round_even q =
     (let f = \<lfloor>q\<rfloor>; d = q - of_int f
      in if d < 1 / 2 then f
         else if 1 / 2 < d then f + 1
         else if even f then f else f + 1)"

lemma round_even_cases: "round_even q = \<lfloor>q\<rfloor> \<or> round_even q = \<lfloor>q\<rfloor> + 1"
  by (simp add: round_even_def Let_def)

lemma round_even_of_int [simp]: "round_even (of_int n) = n"
  by (simp add: round_even_def)

lemma round_even_mono:
  assumes "q \<le> r"
  shows "round_even q \<le> round_even r"
proof (cases "\<lfloor>q\<rfloor> = \<lfloor>r\<rfloor>")
  case True
  with assms show ?thesis by (auto simp: round_even_def Let_def)
next
  case False
  with floor_mono [OF assms] have "\<lfloor>q\<rfloor> + 1 \<le> \<lfloor>r\<rfloor>" by linarith
  with round_even_cases [of q] round_even_cases [of r] show ?thesis by linarith
qed

text \<open>The exponent of the leading bit of a positive rational.\<close>

definition ilog2 :: "rat \<Rightarrow> int" where
  "ilog2 q =
     (let (n, d) = quotient_of q; k = bitlen n - bitlen d
      in if 2 powi k \<le> q then k else k - 1)"

lemma bitlen_rat_bounds:
  assumes "0 < (n::int)"
  shows "2 powi (bitlen n - 1) \<le> (of_int n :: rat)" and "(of_int n :: rat) < 2 powi bitlen n"
proof -
  have b: "2 ^ nat (bitlen n - 1) \<le> n \<and> n < 2 ^ nat (bitlen n)"
    using bitlen_bounds [OF assms] .
  have pos: "1 \<le> bitlen n"
    using assms bitlen_nonneg [of n] bitlen_eq_zero_iff [of n] by linarith
  from b have "(of_int (2 ^ nat (bitlen n - 1)) :: rat) \<le> of_int n"
    and "(of_int n :: rat) < of_int (2 ^ nat (bitlen n))"
    by (auto simp only: of_int_le_iff of_int_less_iff)
  with pos show "2 powi (bitlen n - 1) \<le> (of_int n :: rat)" and "(of_int n :: rat) < 2 powi bitlen n"
    by (simp_all add: power_int_def)
qed

lemma powi_split: "(2::rat) powi (a + b) = 2 powi a * 2 powi b"
  by (simp add: power_int_add)

lemma powi_pos [simp]: "(0::rat) < 2 powi k"
  by simp

lemma powi_mono: "a \<le> b \<Longrightarrow> (2::rat) powi a \<le> 2 powi b"
  by (rule power_int_increasing) simp_all

lemma powi_less_imp: "(2::rat) powi a < 2 powi b \<Longrightarrow> a < b"
  by (meson leI not_less powi_mono)

lemma ilog2_bounds:
  assumes "0 < q"
  shows "2 powi ilog2 q \<le> q" and "q < 2 powi (ilog2 q + 1)"
proof -
  obtain n d where nd: "quotient_of q = (n, d)" by (cases "quotient_of q")
  then have d: "0 < d" and q: "q = of_int n / of_int d"
    by (auto intro: quotient_of_denom_pos quotient_of_div)
  with assms have n: "0 < n" by (simp add: zero_less_divide_iff)
  let ?k = "bitlen n - bitlen d"
  have up: "q < 2 powi (?k + 1)"
  proof -
    have "q < 2 powi bitlen n / of_int d"
      unfolding q using bitlen_rat_bounds(2) [OF n] d by (simp add: divide_strict_right_mono)
    also have "\<dots> \<le> 2 powi bitlen n / 2 powi (bitlen d - 1)"
      using bitlen_rat_bounds(1) [OF d] by (intro divide_left_mono) (simp_all add: d)
    also have "\<dots> = 2 powi (?k + 1)" by (simp add: power_int_diff power_int_add)
    finally show ?thesis .
  qed
  have lo: "2 powi (?k - 1) \<le> q"
  proof -
    have "2 powi (?k - 1) = (2::rat) powi (bitlen n - 1) / 2 powi bitlen d"
      by (simp add: power_int_diff power_int_add)
    also have "\<dots> \<le> of_int n / 2 powi bitlen d"
      using bitlen_rat_bounds(1) [OF n] by (simp add: divide_right_mono)
    also have "\<dots> \<le> q"
      unfolding q using bitlen_rat_bounds(2) [OF d] n d
      by (intro divide_left_mono) (simp_all add: less_imp_le)
    finally show ?thesis .
  qed
  from up lo show "2 powi ilog2 q \<le> q" and "q < 2 powi (ilog2 q + 1)"
    by (auto simp: ilog2_def nd Let_def)
qed

lemma ilog2_mono:
  assumes "0 < q" and "q \<le> r"
  shows "ilog2 q \<le> ilog2 r"
proof -
  from assms have "0 < r" by simp
  from ilog2_bounds(1) [OF assms(1)] assms(2) ilog2_bounds(2) [OF this]
  have "(2::rat) powi ilog2 q < 2 powi (ilog2 r + 1)" by linarith
  from powi_less_imp [OF this] show ?thesis by simp
qed

text \<open>Rounding a positive rational to 53 significant bits, then any rational.\<close>

definition round_pos :: "rat \<Rightarrow> rat" where
  "round_pos q = (let e = ilog2 q - 52 in of_int (round_even (q / 2 powi e)) * 2 powi e)"

definition round64 :: "rat \<Rightarrow> rat" where
  "round64 q = (if q = 0 then 0 else if q < 0 then - round_pos (- q) else round_pos q)"

lemma scaled_bounds:
  assumes "0 < q"
  shows "2 ^ 52 \<le> q / 2 powi (ilog2 q - 52)" and "q / 2 powi (ilog2 q - 52) < 2 ^ 53"
proof -
  have "(2::rat) ^ 52 * 2 powi (ilog2 q - 52) = 2 powi ilog2 q"
    by (simp add: power_int_diff)
  with ilog2_bounds(1) [OF assms] show "2 ^ 52 \<le> q / 2 powi (ilog2 q - 52)"
    by (simp add: pos_le_divide_eq)
  have "(2::rat) ^ 53 * 2 powi (ilog2 q - 52) = 2 powi (ilog2 q + 1)"
    by (simp add: power_int_diff power_int_add)
  with ilog2_bounds(2) [OF assms] show "q / 2 powi (ilog2 q - 52) < 2 ^ 53"
    by (simp add: pos_divide_less_eq)
qed

lemma round_even_between:
  assumes "of_int a \<le> q" and "q \<le> of_int b"
  shows "a \<le> round_even q \<and> round_even q \<le> b"
  using round_even_mono [OF assms(1)] round_even_mono [OF assms(2)] by simp

lemma round_pos_bounds:
  assumes "0 < q"
  shows "2 powi ilog2 q \<le> round_pos q" and "round_pos q \<le> 2 powi (ilog2 q + 1)"
proof -
  let ?e = "ilog2 q - 52"
  let ?m = "round_even (q / 2 powi ?e)"
  have "2 ^ 52 \<le> ?m \<and> ?m \<le> 2 ^ 53"
    using scaled_bounds [OF assms] by (intro round_even_between) simp_all
  then have m: "of_int (2 ^ 52) \<le> (of_int ?m :: rat)" "(of_int ?m :: rat) \<le> of_int (2 ^ 53)"
    by (simp_all only: of_int_le_iff)
  have "2 powi ilog2 q = of_int (2 ^ 52) * (2::rat) powi ?e"
    by (simp add: power_int_diff)
  also have "\<dots> \<le> of_int ?m * 2 powi ?e"
    by (rule mult_right_mono [OF m(1)]) simp
  finally show "2 powi ilog2 q \<le> round_pos q" by (simp only: round_pos_def Let_def)
  have "of_int ?m * 2 powi ?e \<le> of_int (2 ^ 53) * (2::rat) powi ?e"
    by (rule mult_right_mono [OF m(2)]) simp
  also have "\<dots> = 2 powi (ilog2 q + 1)"
    by (simp add: power_int_diff power_int_add)
  finally show "round_pos q \<le> 2 powi (ilog2 q + 1)" by (simp only: round_pos_def Let_def)
qed

lemma round_pos_mono:
  assumes "0 < q" and "q \<le> r"
  shows "round_pos q \<le> round_pos r"
proof (cases "ilog2 q = ilog2 r")
  case True
  from assms(2) have "q / 2 powi (ilog2 r - 52) \<le> r / 2 powi (ilog2 r - 52)"
    by (simp add: divide_right_mono)
  then have "(of_int (round_even (q / 2 powi (ilog2 r - 52))) :: rat)
      \<le> of_int (round_even (r / 2 powi (ilog2 r - 52)))"
    by (simp add: round_even_mono)
  with True show ?thesis by (simp add: round_pos_def Let_def mult_right_mono)
next
  case False
  with ilog2_mono [OF assms] have "ilog2 q + 1 \<le> ilog2 r" by simp
  then have "(2::rat) powi (ilog2 q + 1) \<le> 2 powi ilog2 r" by (rule powi_mono)
  with round_pos_bounds(2) [OF assms(1)] round_pos_bounds(1) [of r] assms show ?thesis by linarith
qed

lemma round_pos_pos: "0 < q \<Longrightarrow> 0 < round_pos q"
  using round_pos_bounds(1) [of q] powi_pos [of "ilog2 q"] by linarith

lemma round64_0 [simp]: "round64 0 = 0"
  by (simp add: round64_def)

lemma round64_pos: "0 < q \<Longrightarrow> 0 < round64 q"
  by (simp add: round64_def round_pos_pos)

lemma round64_nonneg: "0 \<le> q \<Longrightarrow> 0 \<le> round64 q"
  using round64_pos [of q] by (cases "q = 0") auto

lemma round64_minus [simp]: "round64 (- q) = - round64 q"
  by (simp add: round64_def)

lemma round64_mono: "q \<le> r \<Longrightarrow> round64 q \<le> round64 r"
proof -
  assume qr: "q \<le> r"
  consider "0 < q" | "q \<le> 0" "0 \<le> r" | "r < 0" using qr by linarith
  then show ?thesis
  proof cases
    case 1
    with qr show ?thesis by (simp add: round64_def round_pos_mono)
  next
    case 2
    then have "round64 q \<le> 0" using round64_nonneg [of "- q"] by simp
    also have "0 \<le> round64 r" using 2 by (simp add: round64_nonneg)
    finally show ?thesis .
  next
    case 3
    with qr have "round_pos (- r) \<le> round_pos (- q)" by (intro round_pos_mono) auto
    with 3 qr show ?thesis by (simp add: round64_def)
  qed
qed

text \<open>Integers of at most 53 bits are represented exactly.\<close>

lemma round_pos_of_int:
  assumes "0 < m" and "m < 2 ^ 53"
  shows "round_pos (of_int m) = of_int m"
proof -
  let ?e = "ilog2 (of_int m) - 52"
  have "(2::rat) powi ilog2 (of_int m) \<le> of_int m"
    using assms(1) by (intro ilog2_bounds) simp
  also have "(of_int m :: rat) < of_int (2 ^ 53)"
    using assms(2) by (simp only: of_int_less_iff)
  also have "\<dots> = 2 powi 53" by simp
  finally have "ilog2 (of_int m) < 53" by (rule powi_less_imp)
  then have "?e = - int (nat (- ?e))" by simp
  then obtain k where k: "?e = - int k" by blast
  have "of_int m / (2::rat) powi (- int k) = of_int (m * 2 ^ k)"
    by (simp add: power_int_minus divide_inverse)
  then have "round_even (of_int m / 2 powi ?e) = m * 2 ^ k"
    unfolding k by (simp only: round_even_of_int)
  then have "round_pos (of_int m) = of_int (m * 2 ^ k) * 2 powi (- int k)"
    unfolding round_pos_def Let_def k by simp
  also have "\<dots> = of_int m" by (simp add: power_int_minus)
  finally show ?thesis .
qed

lemma round64_of_int:
  assumes "\<bar>m\<bar> < 2 ^ 53"
  shows "round64 (of_int m) = of_int m"
proof -
  consider "m = 0" | "0 < m" | "m < 0" by linarith
  then show ?thesis
  proof cases
    case 3
    with assms round_pos_of_int [of "- m"] show ?thesis by (simp add: round64_def)
  qed (use assms round_pos_of_int [of m] in \<open>simp_all add: round64_def\<close>)
qed

text \<open>
  \<open>float64(i)\<close>, and the quotient of two values.
\<close>

definition float64 :: "int \<Rightarrow> rat" where
  "float64 i = round64 (of_int i)"

definition fdiv :: "rat \<Rightarrow> rat \<Rightarrow> rat" where
  "fdiv x y = round64 (x / y)"

lemma float64_exact: "\<bar>i\<bar> < 2 ^ 53 \<Longrightarrow> float64 i = of_int i"
  by (simp add: float64_def round64_of_int)

lemma float64_mono: "i \<le> j \<Longrightarrow> float64 i \<le> float64 j"
  by (simp add: float64_def round64_mono)

lemma fdiv_mono: "x / y \<le> x' / y' \<Longrightarrow> fdiv x y \<le> fdiv x' y'"
  by (simp add: fdiv_def round64_mono)

lemma fdiv_nonneg: "0 \<le> x \<Longrightarrow> 0 < y \<Longrightarrow> 0 \<le> fdiv x y"
  by (simp add: fdiv_def round64_nonneg)

subsection \<open>Decimal output\<close>

text \<open>
  \<open>strconv.FormatFloat(x, 'f', -1, 64)\<close>: the shortest decimal digits that read back as
  the same number, without an exponent. A normal number needs at most 17 digits, and its
  decimal exponent is at least $-308$, so the two searches end within their bounds.
\<close>

datatype float64 = Fin rat | NegZero | PosInf | NegInf | NaN

fun exponent10 :: "nat \<Rightarrow> rat \<Rightarrow> int" where
  "exponent10 0 q = 0"
| "exponent10 (Suc f) q =
     (if 1 \<le> q then int (length (nat_dec (nat \<lfloor>q\<rfloor>))) - 1 else exponent10 f (q * 10) - 1)"

definition decimal_value :: "int \<times> int \<Rightarrow> rat" where
  "decimal_value d = of_int (fst d) * 10 powi (snd d)"

text \<open>The two candidates of \<open>n\<close> digits around a number, the nearer first.\<close>

definition candidates :: "rat \<Rightarrow> nat \<Rightarrow> (int \<times> int) list" where
  "candidates q n =
     (let e = exponent10 400 q + 1 - int n; s = q / 10 powi e; m = round_even s;
          m' = (if of_int m \<le> s then m + 1 else m - 1)
      in [(m, e), (m', e)])"

definition shortest_by :: "(rat \<Rightarrow> rat) \<Rightarrow> rat \<Rightarrow> (int \<times> int) option" where
  "shortest_by rnd q =
     find (\<lambda>d. rnd (decimal_value d) = q) (concat (map (candidates q) [1..<18]))"

definition shortest_decimal :: "rat \<Rightarrow> (int \<times> int) option" where
  "shortest_decimal = shortest_by round64"

definition fixed_point :: "int \<times> int \<Rightarrow> string" where
  "fixed_point d =
     (let s = nat_dec (nat (fst d)); e = snd d in
      if 0 \<le> e then s @ replicate (nat e) CHR ''0''
      else let f = nat (- e); l = length s in
        if f < l then take (l - f) s @ ''.'' @ drop (l - f) s
        else ''0.'' @ replicate (f - l) CHR ''0'' @ s)"

definition format_pos :: "rat \<Rightarrow> string" where
  "format_pos q = (case shortest_decimal q of None \<Rightarrow> [] | Some d \<Rightarrow> fixed_point d)"

fun FormatFloat :: "float64 \<Rightarrow> string" where
  "FormatFloat (Fin q) =
     (if q = 0 then ''0'' else if q < 0 then CHR ''-'' # format_pos (- q) else format_pos q)"
| "FormatFloat NegZero = ''-0''"
| "FormatFloat PosInf = ''+Inf''"
| "FormatFloat NegInf = ''-Inf''"
| "FormatFloat NaN = ''NaN''"

lemma shortest_decimal_reads_back:
  "shortest_decimal q = Some d \<Longrightarrow> round64 (decimal_value d) = q"
  by (auto simp: shortest_decimal_def shortest_by_def find_Some_iff)

end
