(* ===== verification/Host.thy ===== *)
theory Host
  imports Go_Std
begin

text \<open>
  What every component of the binary shares: error values and their text, and the
  resources of the process (environment variables, the clock, the random source).
\<close>

subsection \<open>Errors\<close>

text \<open>
  The sentinel errors of package runtime. A Go error is either one of the constructors
  below or foreign (\<open>NewError\<close>, known by its text); \<open>Errorf a e b\<close> is what
  \<open>fmt.Errorf("a%wb", e)\<close> builds: a text around a wrapped error.
\<close>

datatype sentinel =
  ErrRuntimeUnavailable | ErrTaskTimeout | ErrPolicyBlocked | ErrRuntimeNotFound

datatype error =
  NewError string
| Sentinel sentinel
| PolicyDeniedError string
| PgError string string
| DeadlineExceeded
| Canceled
| Errorf string error string

fun sentinel_text :: "sentinel \<Rightarrow> string" where
  "sentinel_text ErrRuntimeUnavailable = ''runtime: backend unavailable''"
| "sentinel_text ErrTaskTimeout = ''runtime: task exceeded deadline''"
| "sentinel_text ErrPolicyBlocked = ''runtime: task blocked by policy''"
| "sentinel_text ErrRuntimeNotFound = ''runtime: unknown runtime name''"

text \<open>The method \<open>Error()\<close>. A \<open>PgError\<close> holds the SQLSTATE code and the message.\<close>

fun Error_text :: "error \<Rightarrow> string" where
  "Error_text (NewError s) = s"
| "Error_text (Sentinel s) = sentinel_text s"
| "Error_text (PolicyDeniedError r) = ''blocked by policy rule: '' @ r"
| "Error_text (PgError code msg) = ''ERROR: '' @ msg @ '' (SQLSTATE '' @ code @ '')''"
| "Error_text DeadlineExceeded = ''context deadline exceeded''"
| "Error_text Canceled = ''context canceled''"
| "Error_text (Errorf a e b) = a @ Error_text e @ b"

text \<open>\<open>errors.Is\<close>: the error itself or one it wraps.\<close>

fun errors_Is :: "error \<Rightarrow> error \<Rightarrow> bool" where
  "errors_Is (Errorf a e b) target = (Errorf a e b = target \<or> errors_Is e target)"
| "errors_Is e target = (e = target)"

text \<open>
  A failing round trip to a server either never reached it or was lost on the way back, in
  which case the call has taken effect although the caller sees an error.
\<close>

datatype fault = LostBefore error | LostAfter error

text \<open>
  A function that returns a value and an error is a sum; one that returns only an error
  is an \<open>error option\<close>, \<open>None\<close> for nil.
\<close>

type_synonym 'a result = "error + 'a"

fun result_ok :: "'a result \<Rightarrow> bool" where
  "result_ok (Inl e) = False"
| "result_ok (Inr x) = True"

lemma result_ok_iff: "result_ok r \<longleftrightarrow> (\<exists>x. r = Inr x)"
  by (cases r) auto

subsection \<open>The process\<close>

text \<open>
  \<open>h_env\<close> is \<open>os.Getenv\<close> (an unset variable reads as the empty string). The clock and
  the random source are streams, read from a position that only grows, so that one run
  is one choice of streams. \<open>h_access\<close> is the request log: method, path, status, duration.
\<close>

record host =
  h_env :: "string \<Rightarrow> string"
  h_clock :: "nat \<Rightarrow> go_time"
  h_ticks :: nat
  h_rand :: "nat \<Rightarrow> char"
  h_rand_pos :: nat
  h_access :: "(string \<times> string \<times> int \<times> int) list"

definition Getenv :: "host \<Rightarrow> string \<Rightarrow> string" where
  "Getenv h k = h_env h k"

definition envOr :: "host \<Rightarrow> string \<Rightarrow> string \<Rightarrow> string" where
  "envOr h k fallback = (let v = Getenv h k in if v \<noteq> [] then v else fallback)"

definition Now :: "host \<Rightarrow> go_time \<times> host" where
  "Now h = (h_clock h (h_ticks h), h\<lparr>h_ticks := Suc (h_ticks h)\<rparr>)"

definition rand_bytes :: "host \<Rightarrow> nat \<Rightarrow> bytes" where
  "rand_bytes h n = map (h_rand h) [h_rand_pos h..<h_rand_pos h + n]"

text \<open>
  \<open>crypto/rand.Read\<close> into a fresh buffer of \<open>n\<close> bytes: the buffer afterwards, and the error.
  In the Go of \<open>go.mod\<close> (1.26) the error is always nil: a random source that fails ends
  the process.
\<close>

definition rand_Read :: "nat \<Rightarrow> host \<Rightarrow> (bytes \<times> error option) \<times> host" where
  "rand_Read n h =
     ((rand_bytes h n, None), h\<lparr>h_rand_pos := h_rand_pos h + n\<rparr>)"

lemma length_rand_bytes [simp]: "length (rand_bytes h n) = n"
  by (simp add: rand_bytes_def)

lemma length_rand_Read: "rand_Read n h = ((bs, err), h') \<Longrightarrow> length bs = n"
  by (auto simp: rand_Read_def)

lemma rand_Read_ok:
  "rand_Read n h = ((bs, err), h') \<Longrightarrow>
     err = None \<and> bs = rand_bytes h n \<and> h' = h\<lparr>h_rand_pos := h_rand_pos h + n\<rparr>"
  by (auto simp: rand_Read_def)

text \<open>Two draws of the same length are equal only if the stream repeats itself there.\<close>

lemma rand_bytes_eq_iff:
  "rand_bytes h n = rand_bytes h' n \<longleftrightarrow>
     (\<forall>i < n. h_rand h (h_rand_pos h + i) = h_rand h' (h_rand_pos h' + i))"
  by (simp add: list_eq_iff_nth_eq rand_bytes_def)

subsection \<open>The world\<close>

text \<open>
  The state every operation of the binary runs on. Its extensions add the database and
  what the runtimes drive; \<open>with_host\<close> runs an operation of the process on it.
\<close>

record world =
  w_host :: host

definition with_host :: "(host \<Rightarrow> 'a \<times> host) \<Rightarrow> 'x world_scheme \<Rightarrow> 'a \<times> 'x world_scheme" where
  "with_host f w = (let (x, h) = f (w_host w) in (x, w\<lparr>w_host := h\<rparr>))"

lemma with_host_pair:
  "with_host f w = (x, w') \<longleftrightarrow> (\<exists>h. f (w_host w) = (x, h) \<and> w' = w\<lparr>w_host := h\<rparr>)"
  by (auto simp: with_host_def split: prod.splits)

text \<open>\<open>generateID\<close> of \<open>internal/api/router.go\<close>: 12 random bytes in hex; the error is dropped.\<close>

definition generateID :: "string \<Rightarrow> 'x world_scheme \<Rightarrow> string \<times> 'x world_scheme" where
  "generateID pre w =
     (let ((b, _), w1) = with_host (rand_Read 12) w
      in (pre @ ''-'' @ EncodeToString b, w1))"

lemma generateID_length:
  "generateID pre w = (i, w') \<Longrightarrow> length i = length pre + 25"
  by (auto simp: generateID_def with_host_def length_EncodeToString
      dest!: length_rand_Read split: prod.splits)

lemma generateID_inj:
  assumes "generateID pre w1 = (i, w1')" and "generateID pre w2 = (i, w2')"
  shows "\<exists>b e1 e2 h1 h2. rand_Read 12 (w_host w1) = ((b, e1), h1) \<and>
    rand_Read 12 (w_host w2) = ((b, e2), h2)"
  using assms by (auto simp: generateID_def with_host_def EncodeToString_inj split: prod.splits)

text \<open>A host with an empty environment, for concrete runs.\<close>

definition ex_host :: host where
  "ex_host =
     \<lparr>h_env = (\<lambda>k. []), h_clock = (\<lambda>n. int n), h_ticks = 0, h_rand = (\<lambda>n. char_of n),
      h_rand_pos = 0, h_access = []\<rparr>"

end
