(* ===== verification/Domain.thy ===== *)
theory Domain
  imports Host
begin

text \<open>
  The domain types of \<open>internal/storage/store.go\<close>, with the source's field names under a
  prefix per struct. A Go slice or map that can be nil is an option: \<open>None\<close> is nil. A
  JSON object (\<open>map[string]any\<close>) is a list of its members.
\<close>

datatype json =
  JNull
| JBool bool
| JNumber string
| JString string
| JArray "json list"
| JObject "(string \<times> json) list"

type_synonym json_map = "(string \<times> json) list option"

definition slice :: "'a list option \<Rightarrow> 'a list" where
  "slice xs = (case xs of None \<Rightarrow> [] | Some ys \<Rightarrow> ys)"

lemma slice_simps [simp]: "slice None = []" "slice (Some ys) = ys"
  by (simp_all add: slice_def)

record param =
  p_Name :: string
  p_Type :: string
  p_Required :: bool
  p_Description :: string

record skill =
  sk_Name :: string
  sk_Version :: string
  sk_Description :: string
  sk_Entrypoint :: string
  sk_Parameters :: "param list option"
  sk_RequiredTools :: "string list option"
  sk_RequiredModels :: "string list option"
  sk_SourceFile :: string
  sk_LoadedAt :: go_time

text \<open>Task states and event types are strings in the source, with these constants.\<close>

definition TaskStatePending :: string where [go_consts]: "TaskStatePending = ''pending''"
definition TaskStateRunning :: string where [go_consts]: "TaskStateRunning = ''running''"
definition TaskStateCompleted :: string where [go_consts]: "TaskStateCompleted = ''completed''"
definition TaskStateFailed :: string where [go_consts]: "TaskStateFailed = ''failed''"
definition TaskStateTimeout :: string where [go_consts]: "TaskStateTimeout = ''timeout''"

record policy_context =
  pc_User :: string
  pc_Team :: string
  pc_ModelAllowed :: "string list option"

record task =
  t_ID :: string
  t_SkillName :: string
  t_Parameters :: json_map
  t_PolicyContext :: policy_context
  t_Runtime :: string
  t_State :: string
  t_CreatedAt :: go_time
  t_UpdatedAt :: go_time
  t_DeadlineSecs :: int

record task_filter =
  tf_State :: "string option"
  tf_Limit :: int
  tf_Offset :: int

definition EventTaskStarted :: string where [go_consts]: "EventTaskStarted = ''task.started''"
definition EventTaskLLMCall :: string where [go_consts]: "EventTaskLLMCall = ''task.llm_call''"
definition EventTaskToolCall :: string where [go_consts]: "EventTaskToolCall = ''task.tool_call''"
definition EventTaskPolicyBlocked :: string where
  [go_consts]: "EventTaskPolicyBlocked = ''task.policy_blocked''"
definition EventTaskCompleted :: string where [go_consts]: "EventTaskCompleted = ''task.completed''"
definition EventTaskFailed :: string where [go_consts]: "EventTaskFailed = ''task.failed''"
definition EventTaskTimeout :: string where [go_consts]: "EventTaskTimeout = ''task.timeout''"

record event =
  e_ID :: string
  e_TaskID :: string
  e_Type :: string
  e_Payload :: json_map
  e_CreatedAt :: go_time

record event_filter =
  ef_TaskID :: "string option"
  ef_EventType :: "string option"
  ef_Since :: "go_time option"
  ef_Limit :: int
  ef_Offset :: int

subsection \<open>The states a task can be in\<close>

definition task_states :: "string list" where
  "task_states =
     [TaskStatePending, TaskStateRunning, TaskStateCompleted, TaskStateFailed, TaskStateTimeout]"

definition event_types :: "string list" where
  "event_types =
     [EventTaskStarted, EventTaskLLMCall, EventTaskToolCall, EventTaskPolicyBlocked,
      EventTaskCompleted, EventTaskFailed, EventTaskTimeout]"

definition terminal_state :: "string \<Rightarrow> bool" where
  "terminal_state s \<longleftrightarrow> s \<in> set [TaskStateCompleted, TaskStateFailed, TaskStateTimeout]"

lemma task_states_distinct: "distinct task_states"
  by (simp add: task_states_def go_consts)

lemma terminal_task_states: "terminal_state s \<Longrightarrow> s \<in> set task_states"
  by (auto simp: terminal_state_def task_states_def)

subsection \<open>The interface Store\<close>

text \<open>
  A value of the interface \<open>storage.Store\<close> is a record of its methods over the state
  \<open>'w\<close> they read and write. A lookup without error and without row is \<open>Inr None\<close> (the
  source's \<open>nil, nil\<close>).
\<close>

record 'w store =
  UpsertSkill :: "skill \<Rightarrow> 'w \<Rightarrow> error option \<times> 'w"
  GetSkill :: "string \<Rightarrow> 'w \<Rightarrow> skill option result \<times> 'w"
  ListSkills :: "'w \<Rightarrow> skill list option result \<times> 'w"
  CreateTask :: "task \<Rightarrow> 'w \<Rightarrow> error option \<times> 'w"
  GetTask :: "string \<Rightarrow> 'w \<Rightarrow> task option result \<times> 'w"
  ListTasks :: "task_filter \<Rightarrow> 'w \<Rightarrow> task list option result \<times> 'w"
  UpdateTaskState :: "string \<Rightarrow> string \<Rightarrow> 'w \<Rightarrow> error option \<times> 'w"
  AppendEvent :: "event \<Rightarrow> 'w \<Rightarrow> error option \<times> 'w"
  ListEvents :: "event_filter \<Rightarrow> 'w \<Rightarrow> event list option result \<times> 'w"
  StoreAgentToken :: "string \<Rightarrow> bytes \<Rightarrow> 'w \<Rightarrow> error option \<times> 'w"
  VerifyAgentToken :: "string \<Rightarrow> bytes \<Rightarrow> 'w \<Rightarrow> bool result \<times> 'w"
  RevokeAgentToken :: "string \<Rightarrow> 'w \<Rightarrow> error option \<times> 'w"
  Ping :: "'w \<Rightarrow> error option \<times> 'w"
  Migrate :: "'w \<Rightarrow> error option \<times> 'w"
  Close :: "'w \<Rightarrow> error option \<times> 'w"

end
