(* ===== verification/Store_Contract.thy ===== *)
theory Store_Contract
  imports Domain
begin

text \<open>
  What the clients of \<open>storage.Store\<close> rely on. The abstract store is four finite maps; each
  writing method has an abstract effect, a relation between the maps before and after.
  The contract: a call that reports success has had its effect; a call that reports an
  error has either had it (the answer was lost) or changed nothing; reads change nothing.
\<close>

record abs_store =
  as_skills :: "string \<Rightarrow> skill option"
  as_tasks :: "string \<Rightarrow> task option"
  as_events :: "string \<Rightarrow> event option"
  as_tokens :: "string \<Rightarrow> (bytes \<times> bool) option"

text \<open>The abstract effects. Dates are the database's own.\<close>

definition same_skill :: "skill \<Rightarrow> skill \<Rightarrow> bool" where
  "same_skill a b \<longleftrightarrow>
     (\<exists>l. a\<lparr>sk_RequiredTools := Some (slice (sk_RequiredTools a)),
           sk_RequiredModels := Some (slice (sk_RequiredModels a)), sk_LoadedAt := l\<rparr> = b)"

definition skill_upserted :: "skill \<Rightarrow> abs_store \<Rightarrow> abs_store \<Rightarrow> bool" where
  "skill_upserted sk a a' \<longleftrightarrow>
     (\<exists>sk'. same_skill sk sk' \<and> a' = a\<lparr>as_skills := (as_skills a)(sk_Name sk \<mapsto> sk')\<rparr>)"

definition task_created :: "task \<Rightarrow> abs_store \<Rightarrow> abs_store \<Rightarrow> bool" where
  "task_created t a a' \<longleftrightarrow>
     as_tasks a (t_ID t) = None \<and> as_skills a (t_SkillName t) \<noteq> None \<and>
     t_State t \<in> set task_states \<and>
     (\<exists>c u. a' = a\<lparr>as_tasks := (as_tasks a)(t_ID t \<mapsto> t\<lparr>t_CreatedAt := c, t_UpdatedAt := u\<rparr>)\<rparr>)"

definition state_updated :: "string \<Rightarrow> string \<Rightarrow> abs_store \<Rightarrow> abs_store \<Rightarrow> bool" where
  "state_updated i s a a' \<longleftrightarrow>
     s \<in> set task_states \<and>
     (\<exists>t u. as_tasks a i = Some t \<and>
        a' = a\<lparr>as_tasks := (as_tasks a)(i \<mapsto> t\<lparr>t_State := s, t_UpdatedAt := u\<rparr>)\<rparr>)"

definition event_appended :: "event \<Rightarrow> abs_store \<Rightarrow> abs_store \<Rightarrow> bool" where
  "event_appended e a a' \<longleftrightarrow>
     as_events a (e_ID e) = None \<and> as_tasks a (e_TaskID e) \<noteq> None \<and>
     e_Type e \<in> set event_types \<and>
     (\<exists>c. a' = a\<lparr>as_events := (as_events a)(e_ID e \<mapsto> e\<lparr>e_CreatedAt := c\<rparr>)\<rparr>)"

definition token_stored :: "string \<Rightarrow> bytes \<Rightarrow> abs_store \<Rightarrow> abs_store \<Rightarrow> bool" where
  "token_stored i h a a' \<longleftrightarrow>
     as_tasks a i \<noteq> None \<and> a' = a\<lparr>as_tokens := (as_tokens a)(i \<mapsto> (h, False))\<rparr>"

definition token_revoked :: "string \<Rightarrow> abs_store \<Rightarrow> abs_store \<Rightarrow> bool" where
  "token_revoked i a a' \<longleftrightarrow>
     a' = a\<lparr>as_tokens := (case as_tokens a i of
                           None \<Rightarrow> as_tokens a
                         | Some (h, r) \<Rightarrow> (as_tokens a)(i \<mapsto> (h, True)))\<rparr>"

definition token_valid :: "abs_store \<Rightarrow> string \<Rightarrow> bytes \<Rightarrow> bool" where
  "token_valid a i h \<longleftrightarrow> as_tokens a i = Some (h, False)"

text \<open>Success means the effect; an error means the effect or nothing.\<close>

definition wrote :: "error option \<Rightarrow> ('a \<Rightarrow> 'a \<Rightarrow> bool) \<Rightarrow> 'a \<Rightarrow> 'a \<Rightarrow> bool" where
  "wrote err R a a' \<longleftrightarrow> R a a' \<or> (err \<noteq> None \<and> a' = a)"

lemma wrote_None [simp]: "wrote None R a a' \<longleftrightarrow> R a a'"
  by (simp add: wrote_def)

lemma wroteI: "R a a' \<Longrightarrow> wrote err R a a'"
  by (simp add: wrote_def)

lemma wroteE:
  assumes "wrote err R a a'"
  obtains "R a a'" | e where "err = Some e" and "a' = a"
  using assms by (auto simp: wrote_def)

text \<open>
  A listing: all the rows of the table that pass the filter, each once, newest first. A page of
  it starts at the offset and has at most so many rows.
\<close>

definition newest_first ::
  "(string \<Rightarrow> 'r option) \<Rightarrow> ('r \<Rightarrow> string) \<Rightarrow> ('r \<Rightarrow> go_time) \<Rightarrow> ('r \<Rightarrow> bool) \<Rightarrow> 'r list \<Rightarrow> bool" where
  "newest_first tbl key date P rs \<longleftrightarrow>
     (\<forall>r. r \<in> set rs \<longleftrightarrow> tbl (key r) = Some r \<and> P r) \<and> distinct (map key rs) \<and>
     sorted_wrt (\<lambda>x y. date y \<le> date x) rs"

definition page_of ::
  "(string \<Rightarrow> 'r option) \<Rightarrow> ('r \<Rightarrow> string) \<Rightarrow> ('r \<Rightarrow> go_time) \<Rightarrow> ('r \<Rightarrow> bool) \<Rightarrow> int \<Rightarrow> int \<Rightarrow> 'r list \<Rightarrow> bool" where
  "page_of tbl key date P limit offset rs \<longleftrightarrow>
     (\<exists>all. newest_first tbl key date P all \<and> rs = page (nat limit) (nat offset) all)"

lemma page_of_row:
  "page_of tbl key date P limit offset rs \<Longrightarrow> r \<in> set rs \<Longrightarrow> tbl (key r) = Some r \<and> P r"
  using set_page_subset by (fastforce simp: page_of_def newest_first_def)

lemma page_of_length: "page_of tbl key date P limit offset rs \<Longrightarrow> length rs \<le> nat limit"
  by (auto simp: page_of_def length_page_le)

text \<open>A first page with room left has everything.\<close>

lemma page_of_all:
  assumes "page_of tbl key date P limit 0 rs" and "length rs < nat limit" and "tbl (key r) = Some r" and "P r"
  shows "r \<in> set rs"
proof -
  from assms(1) obtain all where all: "newest_first tbl key date P all" and rs: "rs = take (nat limit) all"
    by (auto simp: page_of_def page_def)
  from assms(2) rs have "rs = all" by simp
  with all assms(3,4) show ?thesis by (simp add: newest_first_def)
qed

subsection \<open>The interface\<close>

locale store_contract =
  fixes st :: "'w store"
    and view :: "'w \<Rightarrow> abs_store"
    and wf :: "'w \<Rightarrow> bool"
  assumes upsert_skill:
      "wf w \<Longrightarrow> UpsertSkill st sk w = (err, w') \<Longrightarrow>
         wf w' \<and> wrote err (skill_upserted sk) (view w) (view w')"
    and get_skill:
      "wf w \<Longrightarrow> GetSkill st n w = (r, w') \<Longrightarrow>
         wf w' \<and> view w' = view w \<and> (result_ok r \<longrightarrow> r = Inr (as_skills (view w) n))"
    and create_task:
      "wf w \<Longrightarrow> CreateTask st t w = (err, w') \<Longrightarrow>
         wf w' \<and> wrote err (task_created t) (view w) (view w')"
    and get_task:
      "wf w \<Longrightarrow> GetTask st i w = (rt, w') \<Longrightarrow>
         wf w' \<and> view w' = view w \<and> (result_ok rt \<longrightarrow> rt = Inr (as_tasks (view w) i))"
    and list_tasks:
      "wf w \<Longrightarrow> ListTasks st f w = (ts, w') \<Longrightarrow>
         wf w' \<and> view w' = view w \<and>
         (\<forall>l. ts = Inr l \<longrightarrow>
            page_of (as_tasks (view w)) t_ID t_CreatedAt
              (\<lambda>t. case tf_State f of None \<Rightarrow> True | Some s \<Rightarrow> t_State t = s)
              (if tf_Limit f \<le> 0 then 50 else tf_Limit f) (tf_Offset f) (slice l))"
    and update_state:
      "wf w \<Longrightarrow> UpdateTaskState st i s w = (err, w') \<Longrightarrow>
         wf w' \<and> wrote err (state_updated i s) (view w) (view w')"
    and append_event:
      "wf w \<Longrightarrow> AppendEvent st e w = (err, w') \<Longrightarrow>
         wf w' \<and> wrote err (event_appended e) (view w) (view w')"
    and store_token:
      "wf w \<Longrightarrow> StoreAgentToken st i h w = (err, w') \<Longrightarrow>
         wf w' \<and> wrote err (token_stored i h) (view w) (view w')"
    and verify_token:
      "wf w \<Longrightarrow> VerifyAgentToken st i h w = (ok, w') \<Longrightarrow>
         wf w' \<and> view w' = view w \<and> (result_ok ok \<longrightarrow> ok = Inr (token_valid (view w) i h))"
    and revoke_token:
      "wf w \<Longrightarrow> RevokeAgentToken st i w = (err, w') \<Longrightarrow>
         wf w' \<and> wrote err (token_revoked i) (view w) (view w')"
    and list_skills:
      "wf w \<Longrightarrow> ListSkills st w = (sks, w') \<Longrightarrow>
         wf w' \<and> view w' = view w \<and>
         (\<forall>l. sks = Inr l \<longrightarrow> set (slice l) = ran (as_skills (view w)) \<and> distinct (map sk_Name (slice l)))"
    and list_events:
      "wf w \<Longrightarrow> ListEvents st ef w = (es, w') \<Longrightarrow>
         wf w' \<and> view w' = view w \<and>
         (\<forall>l. es = Inr l \<longrightarrow>
            (\<exists>since. page_of (as_events (view w)) e_ID e_CreatedAt
              (\<lambda>e. (case ef_TaskID ef of None \<Rightarrow> True | Some i \<Rightarrow> e_TaskID e = i) \<and>
                   (case ef_EventType ef of None \<Rightarrow> True | Some ty \<Rightarrow> e_Type e = ty) \<and>
                   (ef_Since ef \<noteq> None \<longrightarrow> since \<le> e_CreatedAt e))
              (if ef_Limit ef \<le> 0 then 500 else ef_Limit ef) (ef_Offset ef) (slice l)))"
    and ping: "wf w \<Longrightarrow> Ping st w = (err, w') \<Longrightarrow> wf w' \<and> view w' = view w"
begin

text \<open>Laws of one call after another.\<close>

lemma get_after_create:
  assumes "wf w" and "CreateTask st t w = (None, w1)" and "GetTask st (t_ID t) w1 = (Inr r, w2)"
  shows "\<exists>c u. r = Some (t\<lparr>t_CreatedAt := c, t_UpdatedAt := u\<rparr>)"
proof -
  from create_task [OF assms(1,2)] have w1: "wf w1" and c: "task_created t (view w) (view w1)"
    by auto
  from get_task [OF w1 assms(3)] have "r = as_tasks (view w1) (t_ID t)" by simp
  moreover from c obtain c u
    where "as_tasks (view w1) (t_ID t) = Some (t\<lparr>t_CreatedAt := c, t_UpdatedAt := u\<rparr>)"
    by (auto simp: task_created_def)
  ultimately show ?thesis by blast
qed

lemma get_after_update:
  assumes "wf w" and "UpdateTaskState st i s w = (None, w1)" and "GetTask st i w1 = (Inr r, w2)"
  shows "\<exists>t. r = Some t \<and> t_State t = s"
proof -
  from update_state [OF assms(1,2)] have w1: "wf w1" and c: "state_updated i s (view w) (view w1)"
    by auto
  from get_task [OF w1 assms(3)] have "r = as_tasks (view w1) i" by simp
  with c show ?thesis by (auto simp: state_updated_def)
qed

lemma verify_after_store:
  assumes "wf w" and "StoreAgentToken st i h w = (None, w1)"
    and "VerifyAgentToken st i h' w1 = (Inr b, w2)"
  shows "b \<longleftrightarrow> h' = h"
proof -
  from store_token [OF assms(1,2)] have w1: "wf w1" and c: "token_stored i h (view w) (view w1)"
    by auto
  from verify_token [OF w1 assms(3)] have "b = token_valid (view w1) i h'" by simp
  with c show ?thesis by (auto simp: token_stored_def token_valid_def)
qed

lemma verify_after_revoke:
  assumes "wf w" and "RevokeAgentToken st i w = (None, w1)"
    and "VerifyAgentToken st i h w1 = (Inr b, w2)"
  shows "\<not> b"
proof -
  from revoke_token [OF assms(1,2)] have w1: "wf w1" and c: "token_revoked i (view w) (view w1)"
    by auto
  from verify_token [OF w1 assms(3)] have "b = token_valid (view w1) i h" by simp
  with c show ?thesis
    by (auto simp: token_revoked_def token_valid_def split: option.splits prod.splits)
qed

end

subsection \<open>A store that answers\<close>

text \<open>
  While the database is up (\<open>up\<close>) a call fails only for a reason that lies in its
  arguments and the tables.
\<close>

locale live_store = store_contract st view wf
  for st :: "'w store" and view :: "'w \<Rightarrow> abs_store" and wf :: "'w \<Rightarrow> bool" +
  fixes up :: "'w \<Rightarrow> bool"
  assumes live_get_skill: "up w \<Longrightarrow> GetSkill st n w = (r, w') \<Longrightarrow> up w' \<and> result_ok r"
    and live_get_task: "up w \<Longrightarrow> GetTask st i w = (rt, w') \<Longrightarrow> up w' \<and> result_ok rt"
    and live_create: "up w \<Longrightarrow> CreateTask st t w = (err, w') \<Longrightarrow> up w'"
    and live_create_err: "up w \<Longrightarrow> CreateTask st t w = (Some x, w') \<Longrightarrow> view w' = view w"
    and live_update:
      "up w \<Longrightarrow> UpdateTaskState st i s w = (err, w') \<Longrightarrow>
         up w' \<and> (as_tasks (view w) i \<noteq> None \<longrightarrow> s \<in> set task_states \<longrightarrow> err = None)"
    and live_append: "up w \<Longrightarrow> AppendEvent st e w = (err, w') \<Longrightarrow> up w'"
    and live_append_err: "up w \<Longrightarrow> AppendEvent st e w = (Some x, w') \<Longrightarrow> view w' = view w"
    and live_token:
      "up w \<Longrightarrow> StoreAgentToken st i h w = (err, w') \<Longrightarrow>
         up w' \<and> (as_tasks (view w) i \<noteq> None \<longrightarrow> err = None)"
    and live_verify: "up w \<Longrightarrow> VerifyAgentToken st i h w = (ok, w') \<Longrightarrow> up w' \<and> result_ok ok"
    and live_revoke: "up w \<Longrightarrow> RevokeAgentToken st i w = (err, w') \<Longrightarrow> up w' \<and> err = None"
    and live_list_skills: "up w \<Longrightarrow> ListSkills st w = (sks, w') \<Longrightarrow> up w'"
    and live_list_tasks: "up w \<Longrightarrow> ListTasks st f w = (ts, w') \<Longrightarrow> up w'"
    and live_list_events: "up w \<Longrightarrow> ListEvents st ef w = (es, w') \<Longrightarrow> up w'"
    and live_ping: "up w \<Longrightarrow> Ping st w = (err, w') \<Longrightarrow> up w' \<and> err = None"
    and live_upsert:
      "up w \<Longrightarrow> UpsertSkill st sk w = (err, w') \<Longrightarrow>
         up w' \<and> (sk_Parameters sk \<noteq> None \<longrightarrow> sk_RequiredTools sk \<noteq> None \<longrightarrow> sk_RequiredModels sk \<noteq> None \<longrightarrow> err = None)"

subsection \<open>What no call touches\<close>

text \<open>
  A part of the state that no call changes can be added to the invariant. \<open>Migrate\<close> and
  \<open>Close\<close> are left out: no client calls them after the start.
\<close>

definition store_keeps :: "'w store \<Rightarrow> ('w \<Rightarrow> 'a) \<Rightarrow> bool" where
  "store_keeps st f \<longleftrightarrow>
     (\<forall>sk w. f (snd (UpsertSkill st sk w)) = f w) \<and>
     (\<forall>n w. f (snd (GetSkill st n w)) = f w) \<and>
     (\<forall>w. f (snd (ListSkills st w)) = f w) \<and>
     (\<forall>t w. f (snd (CreateTask st t w)) = f w) \<and>
     (\<forall>i w. f (snd (GetTask st i w)) = f w) \<and>
     (\<forall>tf w. f (snd (ListTasks st tf w)) = f w) \<and>
     (\<forall>i s w. f (snd (UpdateTaskState st i s w)) = f w) \<and>
     (\<forall>e w. f (snd (AppendEvent st e w)) = f w) \<and>
     (\<forall>ef w. f (snd (ListEvents st ef w)) = f w) \<and>
     (\<forall>i h w. f (snd (StoreAgentToken st i h w)) = f w) \<and>
     (\<forall>i h w. f (snd (VerifyAgentToken st i h w)) = f w) \<and>
     (\<forall>i w. f (snd (RevokeAgentToken st i w)) = f w) \<and>
     (\<forall>w. f (snd (Ping st w)) = f w)"

lemma store_keepsD:
  assumes "store_keeps st f"
  shows "UpsertSkill st sk w = (e1, w') \<Longrightarrow> f w' = f w" "GetSkill st n w = (e2, w') \<Longrightarrow> f w' = f w"
    "ListSkills st w = (e3, w') \<Longrightarrow> f w' = f w" "CreateTask st t w = (e4, w') \<Longrightarrow> f w' = f w"
    "GetTask st i w = (e5, w') \<Longrightarrow> f w' = f w" "ListTasks st tf w = (e6, w') \<Longrightarrow> f w' = f w"
    "UpdateTaskState st i s w = (e7, w') \<Longrightarrow> f w' = f w" "AppendEvent st e w = (e8, w') \<Longrightarrow> f w' = f w"
    "ListEvents st ef w = (e9, w') \<Longrightarrow> f w' = f w" "StoreAgentToken st i h w = (e10, w') \<Longrightarrow> f w' = f w"
    "VerifyAgentToken st i h w = (e11, w') \<Longrightarrow> f w' = f w" "RevokeAgentToken st i w = (e12, w') \<Longrightarrow> f w' = f w"
    "Ping st w = (e13, w') \<Longrightarrow> f w' = f w"
  using assms unfolding store_keeps_def by (metis snd_conv)+

context store_contract
begin

lemma strengthen:
  assumes "store_keeps st f"
  shows "store_contract st view (\<lambda>w. wf w \<and> f w = x)"
proof (unfold_locales, goal_cases)
  case (1 w sk err w')
  then show ?case using upsert_skill [OF conjunct1 [OF 1(1)] 1(2)] store_keepsD(1) [OF assms 1(2)] by simp
next
  case (2 w n r w')
  then show ?case using get_skill [OF conjunct1 [OF 2(1)] 2(2)] store_keepsD(2) [OF assms 2(2)] by simp
next
  case (3 w t err w')
  then show ?case using create_task [OF conjunct1 [OF 3(1)] 3(2)] store_keepsD(4) [OF assms 3(2)] by simp
next
  case (4 w i rt w')
  then show ?case using get_task [OF conjunct1 [OF 4(1)] 4(2)] store_keepsD(5) [OF assms 4(2)] by simp
next
  case (5 w f ts w')
  then show ?case using list_tasks [OF conjunct1 [OF 5(1)] 5(2)] store_keepsD(6) [OF assms 5(2)] by simp
next
  case (6 w i s err w')
  then show ?case using update_state [OF conjunct1 [OF 6(1)] 6(2)] store_keepsD(7) [OF assms 6(2)] by simp
next
  case (7 w e err w')
  then show ?case using append_event [OF conjunct1 [OF 7(1)] 7(2)] store_keepsD(8) [OF assms 7(2)] by simp
next
  case (8 w i h err w')
  then show ?case using store_token [OF conjunct1 [OF 8(1)] 8(2)] store_keepsD(10) [OF assms 8(2)] by simp
next
  case (9 w i h ok w')
  then show ?case using verify_token [OF conjunct1 [OF 9(1)] 9(2)] store_keepsD(11) [OF assms 9(2)] by simp
next
  case (10 w i err w')
  then show ?case using revoke_token [OF conjunct1 [OF 10(1)] 10(2)] store_keepsD(12) [OF assms 10(2)] by simp
next
  case (11 w sks w')
  then show ?case using list_skills [OF conjunct1 [OF 11(1)] 11(2)] store_keepsD(3) [OF assms 11(2)] by simp
next
  case (12 w ef es w')
  then show ?case using list_events [OF conjunct1 [OF 12(1)] 12(2)] store_keepsD(9) [OF assms 12(2)] by simp
next
  case (13 w err w')
  then show ?case using ping [OF conjunct1 [OF 13(1)] 13(2)] store_keepsD(13) [OF assms 13(2)] by simp
qed

end

context live_store
begin

lemma strengthen_live: "store_keeps st f \<Longrightarrow> live_store st view (\<lambda>w. wf w \<and> f w = x) up"
  using live_store_axioms strengthen by (simp add: live_store_def)

end

subsection \<open>A store that lives in a part of a larger state\<close>

definition on_part :: "('w \<Rightarrow> 'p) \<Rightarrow> ('p \<Rightarrow> 'w \<Rightarrow> 'w) \<Rightarrow> ('p \<Rightarrow> 'a \<times> 'p) \<Rightarrow> 'w \<Rightarrow> 'a \<times> 'w" where
  "on_part get_p put_p f w = (let (x, p) = f (get_p w) in (x, put_p p w))"

lemma on_part_pair:
  "on_part g p f w = (x, w') \<longleftrightarrow> (\<exists>q. f (g w) = (x, q) \<and> w' = p q w)"
  by (auto simp: on_part_def split: prod.splits)

definition store_on_part ::
  "('w \<Rightarrow> 'p) \<Rightarrow> ('p \<Rightarrow> 'w \<Rightarrow> 'w) \<Rightarrow> 'p store \<Rightarrow> 'w store" where
  "store_on_part g p st =
     \<lparr>UpsertSkill = \<lambda>sk. on_part g p (UpsertSkill st sk),
      GetSkill = \<lambda>n. on_part g p (GetSkill st n),
      ListSkills = on_part g p (ListSkills st),
      CreateTask = \<lambda>t. on_part g p (CreateTask st t),
      GetTask = \<lambda>i. on_part g p (GetTask st i),
      ListTasks = \<lambda>f. on_part g p (ListTasks st f),
      UpdateTaskState = \<lambda>i s. on_part g p (UpdateTaskState st i s),
      AppendEvent = \<lambda>e. on_part g p (AppendEvent st e),
      ListEvents = \<lambda>f. on_part g p (ListEvents st f),
      StoreAgentToken = \<lambda>i h. on_part g p (StoreAgentToken st i h),
      VerifyAgentToken = \<lambda>i h. on_part g p (VerifyAgentToken st i h),
      RevokeAgentToken = \<lambda>i. on_part g p (RevokeAgentToken st i),
      Ping = on_part g p (Ping st),
      Migrate = on_part g p (Migrate st),
      Close = on_part g p (Close st)\<rparr>"

locale part =
  fixes get_part :: "'w \<Rightarrow> 'p"
    and put_part :: "'p \<Rightarrow> 'w \<Rightarrow> 'w"
  assumes get_put: "get_part (put_part q w) = q"
begin

lemma on_part_law:
  assumes "\<And>q. f (get_part w) = (x, q) \<Longrightarrow> P q"
    and "on_part get_part put_part f w = (x, w')"
  shows "P (get_part w')"
  using assms by (auto simp: on_part_pair get_put)

end

locale store_in_part = store_contract st view wf + part get_part put_part
  for st :: "'p store" and view :: "'p \<Rightarrow> abs_store" and wf :: "'p \<Rightarrow> bool"
    and get_part :: "'w \<Rightarrow> 'p" and put_part :: "'p \<Rightarrow> 'w \<Rightarrow> 'w"

sublocale store_in_part \<subseteq>
  whole: store_contract "store_on_part get_part put_part st" "\<lambda>w. view (get_part w)" "\<lambda>w. wf (get_part w)"
proof (unfold_locales, goal_cases)
  case (1 w sk err w')
  from on_part_law [OF upsert_skill [OF 1(1)]] 1(2) show ?case by (simp add: store_on_part_def)
next
  case (2 w n r w')
  from on_part_law [OF get_skill [OF 2(1)]] 2(2) show ?case by (simp add: store_on_part_def)
next
  case (3 w t err w')
  from on_part_law [OF create_task [OF 3(1)]] 3(2) show ?case by (simp add: store_on_part_def)
next
  case (4 w i rt w')
  from on_part_law [OF get_task [OF 4(1)]] 4(2) show ?case by (simp add: store_on_part_def)
next
  case (5 w f ts w')
  then have o: "on_part get_part put_part (ListTasks st f) w = (ts, w')" by (simp add: store_on_part_def)
  show ?case by (rule on_part_law [OF _ o]) (rule list_tasks [OF 5(1)])
next
  case (6 w i s err w')
  from on_part_law [OF update_state [OF 6(1)]] 6(2) show ?case by (simp add: store_on_part_def)
next
  case (7 w e err w')
  from on_part_law [OF append_event [OF 7(1)]] 7(2) show ?case by (simp add: store_on_part_def)
next
  case (8 w i h err w')
  from on_part_law [OF store_token [OF 8(1)]] 8(2) show ?case by (simp add: store_on_part_def)
next
  case (9 w i h ok w')
  from on_part_law [OF verify_token [OF 9(1)]] 9(2) show ?case by (simp add: store_on_part_def)
next
  case (10 w i err w')
  from on_part_law [OF revoke_token [OF 10(1)]] 10(2) show ?case by (simp add: store_on_part_def)
next
  case (11 w sks w')
  then have o: "on_part get_part put_part (ListSkills st) w = (sks, w')" by (simp add: store_on_part_def)
  show ?case by (rule on_part_law [OF _ o]) (rule list_skills [OF 11(1)])
next
  case (12 w ef es w')
  then have o: "on_part get_part put_part (ListEvents st ef) w = (es, w')" by (simp add: store_on_part_def)
  show ?case by (rule on_part_law [OF _ o]) (rule list_events [OF 12(1)])
next
  case (13 w err w')
  from on_part_law [OF ping [OF 13(1)]] 13(2) show ?case by (simp add: store_on_part_def)
qed

locale live_store_in_part = live_store st view wf up + store_in_part st view wf get_part put_part
  for st :: "'p store" and view :: "'p \<Rightarrow> abs_store" and wf :: "'p \<Rightarrow> bool" and up :: "'p \<Rightarrow> bool"
    and get_part :: "'w \<Rightarrow> 'p" and put_part :: "'p \<Rightarrow> 'w \<Rightarrow> 'w"

sublocale live_store_in_part \<subseteq>
  whole: live_store "store_on_part get_part put_part st" "\<lambda>w. view (get_part w)" "\<lambda>w. wf (get_part w)"
    "\<lambda>w. up (get_part w)"
proof (unfold_locales, goal_cases)
  case (1 w n r w')
  from on_part_law [OF live_get_skill [OF 1(1)]] 1(2) show ?case by (simp add: store_on_part_def)
next
  case (2 w i rt w')
  from on_part_law [OF live_get_task [OF 2(1)]] 2(2) show ?case by (simp add: store_on_part_def)
next
  case (3 w t err w')
  from on_part_law [OF live_create [OF 3(1)]] 3(2) show ?case by (simp add: store_on_part_def)
next
  case (4 w t e w')
  from on_part_law [OF live_create_err [OF 4(1)]] 4(2) show ?case by (simp add: store_on_part_def)
next
  case (5 w i s err w')
  from on_part_law [OF live_update [OF 5(1)]] 5(2) show ?case by (simp add: store_on_part_def)
next
  case (6 w e err w')
  from on_part_law [OF live_append [OF 6(1)]] 6(2) show ?case by (simp add: store_on_part_def)
next
  case (7 w e x w')
  from on_part_law [OF live_append_err [OF 7(1)]] 7(2) show ?case by (simp add: store_on_part_def)
next
  case (8 w i h err w')
  from on_part_law [OF live_token [OF 8(1)]] 8(2) show ?case by (simp add: store_on_part_def)
next
  case (9 w i h ok w')
  from on_part_law [OF live_verify [OF 9(1)]] 9(2) show ?case by (simp add: store_on_part_def)
next
  case (10 w i err w')
  from on_part_law [OF live_revoke [OF 10(1)]] 10(2) show ?case by (simp add: store_on_part_def)
next
  case (11 w sks w')
  from on_part_law [OF live_list_skills [OF 11(1)]] 11(2) show ?case by (simp add: store_on_part_def)
next
  case (12 w f ts w')
  from on_part_law [OF live_list_tasks [OF 12(1)]] 12(2) show ?case by (simp add: store_on_part_def)
next
  case (13 w ef es w')
  from on_part_law [OF live_list_events [OF 13(1)]] 13(2) show ?case by (simp add: store_on_part_def)
next
  case (14 w err w')
  from on_part_law [OF live_ping [OF 14(1)]] 14(2) show ?case by (simp add: store_on_part_def)
next
  case (15 w sk err w')
  from on_part_law [OF live_upsert [OF 15(1)]] 15(2) show ?case by (simp add: store_on_part_def)
qed

context live_store_in_part
begin

lemma in_whole:
  "live_store (store_on_part get_part put_part st) (\<lambda>w. view (get_part w)) (\<lambda>w. wf (get_part w)) (\<lambda>w. up (get_part w))"
  by (rule whole.live_store_axioms)

end

end
