(* ===== verification/Postgres.thy ===== *)
theory Postgres
  imports Complex_Main Store_Contract
begin

text \<open>
  The PostgreSQL store (\<open>internal/storage/postgres/store.go\<close>) over the tables of
  \<open>001_init.up.sql\<close>. Each method of the source issues one SQL statement, which the
  database runs atomically; the model runs that statement on lists of rows, with the
  constraints the schema declares. What the database decides by itself is a field of the
  state that no operation changes: whether the statement's round trip fails, its \<open>NOW()\<close>,
  the precision of a timestamp, how the driver sends a nil map or slice, the order in
  which rows are scanned and the collation of text. PostgreSQL
  takes only UTF-8 without NUL bytes: the refusal of other text is one of the failing round trips.
\<close>

subsection \<open>Tables and the database's own choices\<close>

record skill_row =
  sr_skill :: skill
  sr_created_at :: go_time
  sr_updated_at :: go_time

record token_row =
  tk_task_id :: string
  tk_token_hash :: bytes
  tk_created_at :: go_time
  tk_revoked :: bool

record pg =
  pg_skills :: "skill_row list"
  pg_tasks :: "task list"
  pg_events :: "event list"
  pg_tokens :: "token_row list"
  pg_relations :: "string list"
  pg_notified :: "string list"
  pg_closed :: bool
  pg_ticks :: nat
  pg_fault :: "nat \<Rightarrow> fault option"
  pg_now :: "nat \<Rightarrow> go_time"
  pg_timestamp :: "go_time \<Rightarrow> go_time"
  pg_nil_json_null :: bool
  pg_nil_array_null :: bool
  pg_scan_tasks :: "nat \<Rightarrow> task list \<Rightarrow> task list"
  pg_scan_events :: "nat \<Rightarrow> event list \<Rightarrow> event list"
  pg_collate :: "string \<Rightarrow> rat"

abbreviation skill_key :: "skill_row \<Rightarrow> string" where
  "skill_key r \<equiv> sk_Name (sr_skill r)"

subsection \<open>Round trips\<close>

text \<open>
  \<open>pool.Exec\<close>: a statement maps its \<open>NOW()\<close> and the tables to an error (and no change) or
  to the number of rows it touched and the new tables.
\<close>

definition closed_pool :: error where
  "closed_pool = NewError ''closed pool''"

type_synonym stmt = "go_time \<Rightarrow> pg \<Rightarrow> (nat \<times> pg) result"

definition pg_Exec :: "stmt \<Rightarrow> pg \<Rightarrow> nat result \<times> pg" where
  "pg_Exec stm d =
     (let n = pg_ticks d; d0 = d\<lparr>pg_ticks := Suc n\<rparr> in
      if pg_closed d then (Inl closed_pool, d)
      else case pg_fault d n of
        Some (LostBefore e) \<Rightarrow> (Inl e, d0)
      | Some (LostAfter e) \<Rightarrow>
          (case stm (pg_now d n) d0 of
             Inl e' \<Rightarrow> (Inl e, d0)
           | Inr (k, d1) \<Rightarrow> (Inl e, d1))
      | None \<Rightarrow>
          (case stm (pg_now d n) d0 of
             Inl e \<Rightarrow> (Inl e, d0)
           | Inr (k, d1) \<Rightarrow> (Inr k, d1)))"

text \<open>\<open>_, err := pool.Exec(...); return err\<close>.\<close>

definition pg_Exec_err :: "stmt \<Rightarrow> pg \<Rightarrow> error option \<times> pg" where
  "pg_Exec_err stm d =
     (case pg_Exec stm d of (Inl e, d1) \<Rightarrow> (Some e, d1) | (Inr k, d1) \<Rightarrow> (None, d1))"

text \<open>\<open>pool.Query\<close> and \<open>pool.QueryRow\<close> with their scans: a read of the tables.\<close>

definition pg_Query :: "(nat \<Rightarrow> pg \<Rightarrow> 'a result) \<Rightarrow> pg \<Rightarrow> 'a result \<times> pg" where
  "pg_Query q d =
     (let n = pg_ticks d; d0 = d\<lparr>pg_ticks := Suc n\<rparr> in
      if pg_closed d then (Inl closed_pool, d)
      else case pg_fault d n of
        Some (LostBefore e) \<Rightarrow> (Inl e, d0)
      | Some (LostAfter e) \<Rightarrow> (Inl e, d0)
      | None \<Rightarrow> (q n d, d0))"

subsection \<open>Constraint violations\<close>

definition not_null_violation :: "string \<Rightarrow> string \<Rightarrow> error" where
  "not_null_violation rel col =
     PgError ''23502''
       (''null value in column '' @ quote col @ '' of relation '' @ quote rel
        @ '' violates not-null constraint'')"

definition unique_violation :: "string \<Rightarrow> error" where
  "unique_violation con =
     PgError ''23505'' (''duplicate key value violates unique constraint '' @ quote con)"

definition fk_violation :: "string \<Rightarrow> string \<Rightarrow> error" where
  "fk_violation rel con =
     PgError ''23503''
       (''insert or update on table '' @ quote rel @ '' violates foreign key constraint '' @ quote con)"

definition check_violation :: "string \<Rightarrow> string \<Rightarrow> error" where
  "check_violation rel con =
     PgError ''23514''
       (''new row for relation '' @ quote rel @ '' violates check constraint '' @ quote con)"

definition in_int4 :: "int \<Rightarrow> bool" where
  "in_int4 i \<longleftrightarrow> - (2 ^ 31) \<le> i \<and> i < 2 ^ 31"

text \<open>A nil map or slice as the driver sends it: NULL, or the empty value.\<close>

definition sent_null_json :: "pg \<Rightarrow> 'a option \<Rightarrow> bool" where
  "sent_null_json d x \<longleftrightarrow> pg_nil_json_null d \<and> x = None"

definition sent_null_array :: "pg \<Rightarrow> 'a option \<Rightarrow> bool" where
  "sent_null_array d x \<longleftrightarrow> pg_nil_array_null d \<and> x = None"

subsection \<open>Skills\<close>

definition upsert_skill_stmt :: "skill \<Rightarrow> stmt" where
  "upsert_skill_stmt sk now d =
     (if sent_null_json d (sk_Parameters sk) then Inl (not_null_violation ''skills'' ''parameters'')
      else if sent_null_array d (sk_RequiredTools sk)
        then Inl (not_null_violation ''skills'' ''required_tools'')
      else if sent_null_array d (sk_RequiredModels sk)
        then Inl (not_null_violation ''skills'' ''required_models'')
      else
        let sk' = sk\<lparr>sk_RequiredTools := Some (slice (sk_RequiredTools sk)),
                     sk_RequiredModels := Some (slice (sk_RequiredModels sk)),
                     sk_LoadedAt := pg_timestamp d (sk_LoadedAt sk)\<rparr>
        in Inr (1, d\<lparr>pg_skills :=
             upsert_by skill_key
               (\<lambda>old. old\<lparr>sr_skill := sk'\<lparr>sk_Name := sk_Name (sr_skill old)\<rparr>, sr_updated_at := now\<rparr>)
               \<lparr>sr_skill = sk', sr_created_at = now, sr_updated_at = now\<rparr> (pg_skills d)\<rparr>))"

definition pg_UpsertSkill :: "skill \<Rightarrow> pg \<Rightarrow> error option \<times> pg" where
  "pg_UpsertSkill sk d = pg_Exec_err (upsert_skill_stmt sk) d"

definition pg_GetSkill :: "string \<Rightarrow> pg \<Rightarrow> skill option result \<times> pg" where
  "pg_GetSkill name d =
     pg_Query (\<lambda>n d. Inr (map_option sr_skill (lookup_by skill_key name (pg_skills d)))) d"

text \<open>A Go slice grown by \<open>append\<close> from nil: nil when nothing was appended.\<close>

definition appended :: "'a list \<Rightarrow> 'a list option" where
  "appended xs = (if xs = [] then None else Some xs)"

lemma slice_appended [simp]: "slice (appended xs) = xs"
  by (simp add: appended_def)

definition pg_ListSkills :: "pg \<Rightarrow> skill list option result \<times> pg" where
  "pg_ListSkills d =
     pg_Query (\<lambda>n d. Inr (appended
       (sort_key (\<lambda>sk. pg_collate d (sk_Name sk)) (map sr_skill (pg_skills d))))) d"

subsection \<open>Tasks\<close>

definition insert_task_stmt :: "task \<Rightarrow> stmt" where
  "insert_task_stmt t now d =
     (if \<not> in_int4 (t_DeadlineSecs t) then Inl (PgError ''22003'' ''integer out of range'')
      else if sent_null_json d (t_Parameters t)
        then Inl (not_null_violation ''tasks'' ''parameters'')
      else if t_State t \<notin> set task_states
        then Inl (check_violation ''tasks'' ''tasks_state_check'')
      else if has_key t_ID (t_ID t) (pg_tasks d) then Inl (unique_violation ''tasks_pkey'')
      else if \<not> has_key skill_key (t_SkillName t) (pg_skills d)
        then Inl (fk_violation ''tasks'' ''tasks_skill_name_fkey'')
      else Inr (1, d\<lparr>pg_tasks := pg_tasks d @
             [t\<lparr>t_CreatedAt := pg_timestamp d (t_CreatedAt t), t_UpdatedAt := now\<rparr>]\<rparr>))"

definition pg_CreateTask :: "task \<Rightarrow> pg \<Rightarrow> error option \<times> pg" where
  "pg_CreateTask t d = pg_Exec_err (insert_task_stmt t) d"

definition pg_GetTask :: "string \<Rightarrow> pg \<Rightarrow> task option result \<times> pg" where
  "pg_GetTask i d = pg_Query (\<lambda>n d. Inr (lookup_by t_ID i (pg_tasks d))) d"

definition negative_offset :: error where
  "negative_offset = PgError ''2201X'' ''OFFSET must not be negative''"

text \<open>
  \<open>ORDER BY created_at DESC LIMIT l OFFSET o\<close> over the rows that pass the filter, in the
  order of the scan where the dates are equal.
\<close>

definition order_page :: "('r \<Rightarrow> go_time) \<Rightarrow> int \<Rightarrow> int \<Rightarrow> 'r list \<Rightarrow> 'r list result" where
  "order_page date limit offset rs =
     (if offset < 0 then Inl negative_offset
      else Inr (page (nat limit) (nat offset) (sort_key (\<lambda>r. - date r) rs)))"

definition task_matches :: "task_filter \<Rightarrow> task \<Rightarrow> bool" where
  "task_matches f t = (case tf_State f of None \<Rightarrow> True | Some s \<Rightarrow> t_State t = s)"

definition select_tasks :: "task_filter \<Rightarrow> nat \<Rightarrow> pg \<Rightarrow> task list option result" where
  "select_tasks f n d =
     (let limit = (if tf_Limit f \<le> 0 then 50 else tf_Limit f) in
      map_sum id appended
        (order_page t_CreatedAt limit (tf_Offset f)
          (filter (task_matches f) (scan_rows (pg_scan_tasks d n) (pg_tasks d)))))"

definition pg_ListTasks :: "task_filter \<Rightarrow> pg \<Rightarrow> task list option result \<times> pg" where
  "pg_ListTasks f d = pg_Query (select_tasks f) d"

definition update_task_state_stmt :: "string \<Rightarrow> string \<Rightarrow> stmt" where
  "update_task_state_stmt i s now d =
     (if \<not> has_key t_ID i (pg_tasks d) then Inr (0, d)
      else if s \<notin> set task_states then Inl (check_violation ''tasks'' ''tasks_state_check'')
      else Inr (1, d\<lparr>pg_tasks :=
             update_by t_ID i (\<lambda>t. t\<lparr>t_State := s, t_UpdatedAt := now\<rparr>) (pg_tasks d)\<rparr>))"

definition pg_UpdateTaskState :: "string \<Rightarrow> string \<Rightarrow> pg \<Rightarrow> error option \<times> pg" where
  "pg_UpdateTaskState i s d =
     (case pg_Exec (update_task_state_stmt i s) d of
        (Inl e, d1) \<Rightarrow> (Some e, d1)
      | (Inr k, d1) \<Rightarrow>
          (if k = 0 then Some (NewError (''postgres: task '' @ quote i @ '' not found'')) else None,
           d1))"

subsection \<open>Events\<close>

definition insert_event_stmt :: "event \<Rightarrow> stmt" where
  "insert_event_stmt e now d =
     (if sent_null_json d (e_Payload e) then Inl (not_null_violation ''events'' ''payload'')
      else if e_Type e \<notin> set event_types
        then Inl (check_violation ''events'' ''events_type_check'')
      else if has_key e_ID (e_ID e) (pg_events d) then Inl (unique_violation ''events_pkey'')
      else if \<not> has_key t_ID (e_TaskID e) (pg_tasks d)
        then Inl (fk_violation ''events'' ''events_task_id_fkey'')
      else Inr (1, d\<lparr>pg_events := pg_events d @
             [e\<lparr>e_CreatedAt := pg_timestamp d (e_CreatedAt e)\<rparr>]\<rparr>))"

definition pg_AppendEvent :: "event \<Rightarrow> pg \<Rightarrow> error option \<times> pg" where
  "pg_AppendEvent e d = pg_Exec_err (insert_event_stmt e) d"

definition event_matches :: "(go_time \<Rightarrow> go_time) \<Rightarrow> event_filter \<Rightarrow> event \<Rightarrow> bool" where
  "event_matches ts f e \<longleftrightarrow>
     (case ef_TaskID f of None \<Rightarrow> True | Some i \<Rightarrow> e_TaskID e = i) \<and>
     (case ef_EventType f of None \<Rightarrow> True | Some ty \<Rightarrow> e_Type e = ty) \<and>
     (case ef_Since f of None \<Rightarrow> True | Some t \<Rightarrow> ts t \<le> e_CreatedAt e)"

definition select_events :: "event_filter \<Rightarrow> nat \<Rightarrow> pg \<Rightarrow> event list option result" where
  "select_events f n d =
     (let limit = (if ef_Limit f \<le> 0 then 500 else ef_Limit f) in
      map_sum id appended
        (order_page e_CreatedAt limit (ef_Offset f)
          (filter (event_matches (pg_timestamp d) f)
            (scan_rows (pg_scan_events d n) (pg_events d)))))"

definition pg_ListEvents :: "event_filter \<Rightarrow> pg \<Rightarrow> event list option result \<times> pg" where
  "pg_ListEvents f d = pg_Query (select_events f) d"

subsection \<open>Agent tokens\<close>

definition store_token_stmt :: "string \<Rightarrow> bytes \<Rightarrow> stmt" where
  "store_token_stmt i h now d =
     (if \<not> has_key tk_task_id i (pg_tokens d) \<and> \<not> has_key t_ID i (pg_tasks d)
        then Inl (fk_violation ''agent_tokens'' ''agent_tokens_task_id_fkey'')
      else Inr (1, d\<lparr>pg_tokens :=
             upsert_by tk_task_id
               (\<lambda>old. old\<lparr>tk_token_hash := h, tk_revoked := False\<rparr>)
               \<lparr>tk_task_id = i, tk_token_hash = h, tk_created_at = now, tk_revoked = False\<rparr>
               (pg_tokens d)\<rparr>))"

definition pg_StoreAgentToken :: "string \<Rightarrow> bytes \<Rightarrow> pg \<Rightarrow> error option \<times> pg" where
  "pg_StoreAgentToken i h d = pg_Exec_err (store_token_stmt i h) d"

definition pg_VerifyAgentToken :: "string \<Rightarrow> bytes \<Rightarrow> pg \<Rightarrow> bool result \<times> pg" where
  "pg_VerifyAgentToken i presented d =
     pg_Query (\<lambda>n d. Inr
       (case lookup_by tk_task_id i (pg_tokens d) of
          None \<Rightarrow> False
        | Some r \<Rightarrow> if tk_revoked r then False else ConstantTimeEq (tk_token_hash r) presented)) d"

definition revoke_token_stmt :: "string \<Rightarrow> stmt" where
  "revoke_token_stmt i now d =
     Inr (length (filter (\<lambda>r. tk_task_id r = i) (pg_tokens d)),
          d\<lparr>pg_tokens := update_by tk_task_id i (\<lambda>r. r\<lparr>tk_revoked := True\<rparr>) (pg_tokens d)\<rparr>)"

definition pg_RevokeAgentToken :: "string \<Rightarrow> pg \<Rightarrow> error option \<times> pg" where
  "pg_RevokeAgentToken i d = pg_Exec_err (revoke_token_stmt i) d"

subsection \<open>Schema, lifecycle, notifications\<close>

text \<open>
  The migration file creates its tables with \<open>IF NOT EXISTS\<close> and its indexes without. It
  is sent as one multi-statement query, which the database runs as one transaction.
\<close>

datatype ddl = CreateTableIfNotExists string | CreateIndex string

definition up_sql :: "ddl list" where
  "up_sql =
     [CreateTableIfNotExists ''skills'',
      CreateTableIfNotExists ''tasks'',
      CreateIndex ''idx_tasks_state'',
      CreateIndex ''idx_tasks_created_at'',
      CreateIndex ''idx_tasks_skill_name'',
      CreateTableIfNotExists ''events'',
      CreateIndex ''idx_events_task_id'',
      CreateIndex ''idx_events_type'',
      CreateIndex ''idx_events_created_at'',
      CreateIndex ''idx_events_payload_gin'',
      CreateTableIfNotExists ''agent_tokens'']"

definition duplicate_relation :: "string \<Rightarrow> error" where
  "duplicate_relation r = PgError ''42P07'' (''relation '' @ quote r @ '' already exists'')"

fun run_ddl :: "ddl list \<Rightarrow> string list \<Rightarrow> string list result" where
  "run_ddl [] rels = Inr rels"
| "run_ddl (CreateTableIfNotExists r # ds) rels =
     (if r \<in> set rels then run_ddl ds rels else run_ddl ds (rels @ [r]))"
| "run_ddl (CreateIndex r # ds) rels =
     (if r \<in> set rels then Inl (duplicate_relation r) else run_ddl ds (rels @ [r]))"

definition migrate_stmt :: "ddl list \<Rightarrow> stmt" where
  "migrate_stmt ds now d =
     (case run_ddl ds (pg_relations d) of
        Inl e \<Rightarrow> Inl e
      | Inr rels \<Rightarrow> Inr (0, d\<lparr>pg_relations := rels\<rparr>))"

text \<open>The embedded file is always there, so its read cannot fail.\<close>

definition pg_Migrate :: "pg \<Rightarrow> error option \<times> pg" where
  "pg_Migrate d =
     (case pg_Exec (migrate_stmt up_sql) d of
        (Inl e, d1) \<Rightarrow> (Some (Errorf ''postgres: run migration: '' e []), d1)
      | (Inr k, d1) \<Rightarrow> (None, d1))"

definition pg_Ping :: "pg \<Rightarrow> error option \<times> pg" where
  "pg_Ping d = pg_Exec_err (\<lambda>now d. Inr (0, d)) d"

definition pg_Close :: "pg \<Rightarrow> error option \<times> pg" where
  "pg_Close d = (None, d\<lparr>pg_closed := True\<rparr>)"

definition notify_stmt :: "string \<Rightarrow> stmt" where
  "notify_stmt channel now d = Inr (1, d\<lparr>pg_notified := pg_notified d @ [channel]\<rparr>)"

definition pg_NotifySkillsChanged :: "pg \<Rightarrow> error option \<times> pg" where
  "pg_NotifySkillsChanged d = pg_Exec_err (notify_stmt ''skills_changed'') d"

definition pg_NotifyPoliciesChanged :: "pg \<Rightarrow> error option \<times> pg" where
  "pg_NotifyPoliciesChanged d = pg_Exec_err (notify_stmt ''policies_changed'') d"

text \<open>The postgres store as a value of the interface.\<close>

definition pg_store :: "pg store" where
  "pg_store =
     \<lparr>UpsertSkill = pg_UpsertSkill,
      GetSkill = pg_GetSkill,
      ListSkills = pg_ListSkills,
      CreateTask = pg_CreateTask,
      GetTask = pg_GetTask,
      ListTasks = pg_ListTasks,
      UpdateTaskState = pg_UpdateTaskState,
      AppendEvent = pg_AppendEvent,
      ListEvents = pg_ListEvents,
      StoreAgentToken = pg_StoreAgentToken,
      VerifyAgentToken = pg_VerifyAgentToken,
      RevokeAgentToken = pg_RevokeAgentToken,
      Ping = pg_Ping,
      Migrate = pg_Migrate,
      Close = pg_Close\<rparr>"

subsection \<open>Integrity\<close>

text \<open>What the schema's constraints keep: keys, references, checked columns.\<close>

definition pg_wf :: "pg \<Rightarrow> bool" where
  "pg_wf d \<longleftrightarrow>
     keys_unique skill_key (pg_skills d) \<and> keys_unique t_ID (pg_tasks d) \<and>
     keys_unique e_ID (pg_events d) \<and> keys_unique tk_task_id (pg_tokens d) \<and>
     list_all (\<lambda>t. t_State t \<in> set task_states \<and> in_int4 (t_DeadlineSecs t) \<and>
                   has_key skill_key (t_SkillName t) (pg_skills d)) (pg_tasks d) \<and>
     list_all (\<lambda>e. e_Type e \<in> set event_types \<and> has_key t_ID (e_TaskID e) (pg_tasks d))
       (pg_events d) \<and>
     list_all (\<lambda>r. has_key t_ID (tk_task_id r) (pg_tasks d)) (pg_tokens d)"

text \<open>The abstract store that the tables stand for.\<close>

definition abs_pg :: "pg \<Rightarrow> abs_store" where
  "abs_pg d =
     \<lparr>as_skills = \<lambda>n. map_option sr_skill (lookup_by skill_key n (pg_skills d)),
      as_tasks = \<lambda>i. lookup_by t_ID i (pg_tasks d),
      as_events = \<lambda>i. lookup_by e_ID i (pg_events d),
      as_tokens = \<lambda>i. map_option (\<lambda>r. (tk_token_hash r, tk_revoked r))
                                   (lookup_by tk_task_id i (pg_tokens d))\<rparr>"

lemma abs_pg_no_token: "pg_wf d \<Longrightarrow> as_tasks (abs_pg d) i = None \<Longrightarrow> as_tokens (abs_pg d) i = None"
  by (auto simp: abs_pg_def pg_wf_def lookup_by_None list_all_iff has_key_iff)

lemma pg_wf_ticks [simp]: "pg_wf (d\<lparr>pg_ticks := n\<rparr>) = pg_wf d"
  by (simp add: pg_wf_def)

lemma abs_pg_ticks [simp]: "abs_pg (d\<lparr>pg_ticks := n\<rparr>) = abs_pg d"
  by (simp add: abs_pg_def)

text \<open>
  A statement that keeps integrity and has the effect \<open>Q k\<close> when it touches \<open>k\<close> rows:
  what its round trip does.
\<close>

definition stmt_law :: "stmt \<Rightarrow> (nat \<Rightarrow> abs_store \<Rightarrow> abs_store \<Rightarrow> bool) \<Rightarrow> bool" where
  "stmt_law stm Q \<longleftrightarrow>
     (\<forall>now d k d'. pg_wf d \<longrightarrow> stm now d = Inr (k, d') \<longrightarrow>
        pg_wf d' \<and> Q k (abs_pg d) (abs_pg d'))"

lemma stmt_lawI:
  assumes "\<And>now d k d'. pg_wf d \<Longrightarrow> stm now d = Inr (k, d') \<Longrightarrow>
    pg_wf d' \<and> Q k (abs_pg d) (abs_pg d')"
  shows "stmt_law stm Q"
  using assms by (simp add: stmt_law_def)

lemma pg_Exec_law:
  assumes law: "stmt_law stm Q" and wf: "pg_wf d" and ex: "pg_Exec stm d = (r, d')"
  shows "pg_wf d' \<and>
    ((\<exists>k. Q k (abs_pg d) (abs_pg d') \<and> (r = Inr k \<or> \<not> result_ok r)) \<or>
     (\<not> result_ok r \<and> abs_pg d' = abs_pg d))"
proof -
  let ?d0 = "d\<lparr>pg_ticks := Suc (pg_ticks d)\<rparr>"
  have *: "pg_wf d1 \<and> Q k (abs_pg d) (abs_pg d1)"
    if "stm (pg_now d (pg_ticks d)) ?d0 = Inr (k, d1)" for k d1
  proof -
    have "pg_wf ?d0" using wf by simp
    with law that have "pg_wf d1 \<and> Q k (abs_pg ?d0) (abs_pg d1)"
      unfolding stmt_law_def by blast
    then show ?thesis by simp
  qed
  show ?thesis
    using ex wf *
    by (auto simp: pg_Exec_def Let_def split: if_splits option.splits fault.splits sum.splits prod.splits)
qed

lemma pg_Exec_err_law:
  assumes "stmt_law stm (\<lambda>k. R)" and "pg_wf d" and "pg_Exec_err stm d = (err, d')"
  shows "pg_wf d' \<and> wrote err R (abs_pg d) (abs_pg d')"
proof -
  obtain r where r: "pg_Exec stm d = (r, d')" and err: "err = None \<longleftrightarrow> result_ok r"
    using assms(3) by (auto simp: pg_Exec_err_def split: prod.splits sum.splits)
  from pg_Exec_law [OF assms(1,2) r] err show ?thesis
    by (cases r) (auto simp: wrote_def)
qed

lemma pg_Query_law:
  assumes "pg_Query q d = (r, d')" and "pg_wf d"
  shows "pg_wf d' \<and> abs_pg d' = abs_pg d \<and> (result_ok r \<longrightarrow> r = q (pg_ticks d) d)"
  using assms
  by (auto simp: pg_Query_def Let_def split: if_splits option.splits fault.splits)

subsection \<open>Each statement keeps integrity and has its abstract effect\<close>

lemma upsert_skill_law: "stmt_law (upsert_skill_stmt sk) (\<lambda>k. skill_upserted sk)"
proof (rule stmt_lawI)
  fix now d k d'
  assume wf: "pg_wf d" and st: "upsert_skill_stmt sk now d = Inr (k, d')"
  define sk' where "sk' = sk\<lparr>sk_RequiredTools := Some (slice (sk_RequiredTools sk)),
                     sk_RequiredModels := Some (slice (sk_RequiredModels sk)),
                     sk_LoadedAt := pg_timestamp d (sk_LoadedAt sk)\<rparr>"
  define upd :: "skill_row \<Rightarrow> skill_row" where "upd = (\<lambda>old. old\<lparr>sr_skill := sk'\<lparr>sk_Name := sk_Name (sr_skill old)\<rparr>,
                                     sr_updated_at := now\<rparr>)"
  define r where "r = \<lparr>sr_skill = sk', sr_created_at = now, sr_updated_at = now\<rparr>"
  from st have d': "d' = d\<lparr>pg_skills := upsert_by skill_key upd r (pg_skills d)\<rparr>"
    by (auto simp: upsert_skill_stmt_def Let_def sk'_def upd_def r_def split: if_splits)
  have upd: "skill_key (upd old) = skill_key old" for old by (simp add: upd_def)
  have key: "skill_key r = sk_Name sk" by (simp add: r_def sk'_def)
  have "pg_wf d'"
    using wf keys_unique_upsert_by [where upd = upd and key = skill_key, OF upd]
    by (auto simp: pg_wf_def d' has_key_upsert_by [where upd = upd and key = skill_key, OF upd]
        elim!: list.pred_mono_strong)
  moreover have "skill_upserted sk (abs_pg d) (abs_pg d')"
  proof -
    have new: "sr_skill (upd old) = sk'" if "skill_key old = sk_Name sk" for old
      using that by (cases sk) (simp add: upd_def sk'_def)
    have r: "sr_skill r = sk'" by (simp add: r_def)
    have key': "sk_Name sk' = sk_Name sk" by (simp add: sk'_def)
    have look: "map_option sr_skill (lookup_by skill_key n (upsert_by skill_key upd r (pg_skills d))) =
      (if n = sk_Name sk then Some sk'
       else map_option sr_skill (lookup_by skill_key n (pg_skills d)))" for n
      by (auto simp: lookup_upsert_by [where upd = upd and key = skill_key, OF upd] r key'
          intro!: new split: option.splits dest!: lookup_by_SomeD)
    have "same_skill sk sk'" by (auto simp: same_skill_def sk'_def)
    then show ?thesis
      by (auto simp: skill_upserted_def abs_pg_def d' look fun_upd_def intro!: exI [of _ sk'])
  qed
  ultimately show "pg_wf d' \<and> skill_upserted sk (abs_pg d) (abs_pg d')" ..
qed

lemma insert_task_law: "stmt_law (insert_task_stmt t) (\<lambda>k. task_created t)"
proof (rule stmt_lawI)
  fix now d k d'
  assume wf: "pg_wf d" and st: "insert_task_stmt t now d = Inr (k, d')"
  define t' where "t' = t\<lparr>t_CreatedAt := pg_timestamp d (t_CreatedAt t), t_UpdatedAt := now\<rparr>"
  from st have d': "d' = d\<lparr>pg_tasks := pg_tasks d @ [t']\<rparr>"
    and fresh: "\<not> has_key t_ID (t_ID t) (pg_tasks d)"
    and fk: "has_key skill_key (t_SkillName t) (pg_skills d)"
    and ok: "t_State t \<in> set task_states" "in_int4 (t_DeadlineSecs t)"
    by (auto simp: insert_task_stmt_def t'_def split: if_splits)
  have key: "t_ID t' = t_ID t" by (simp add: t'_def)
  have "pg_wf d'"
    using wf fresh fk ok keys_unique_append_fresh [of t_ID "pg_tasks d" t']
    by (auto simp: pg_wf_def d' key t'_def has_key_append elim!: list.pred_mono_strong)
  moreover have "task_created t (abs_pg d) (abs_pg d')"
  proof -
    from fresh have "lookup_by t_ID (t_ID t) (pg_tasks d) = None" by (simp add: lookup_by_None)
    moreover from fk obtain r where "lookup_by skill_key (t_SkillName t) (pg_skills d) = Some r"
      using has_key_lookup by metis
    moreover have "abs_pg d' = (abs_pg d)\<lparr>as_tasks := (as_tasks (abs_pg d))(t_ID t \<mapsto> t')\<rparr>"
      using lookup_by_snoc_fresh [of t_ID t' "pg_tasks d"] fresh
      by (simp add: abs_pg_def d' key fun_eq_iff)
    ultimately show ?thesis
      using ok by (auto simp: task_created_def abs_pg_def t'_def)
  qed
  ultimately show "pg_wf d' \<and> task_created t (abs_pg d) (abs_pg d')" ..
qed

lemma update_state_law:
  "stmt_law (update_task_state_stmt i s)
     (\<lambda>k a a'. if k = 0 then a' = a else state_updated i s a a')"
proof (rule stmt_lawI)
  fix now d k d'
  assume wf: "pg_wf d" and st: "update_task_state_stmt i s now d = Inr (k, d')"
  define upd :: "task \<Rightarrow> task" where "upd = (\<lambda>t. t\<lparr>t_State := s, t_UpdatedAt := now\<rparr>)"
  have id: "t_ID (upd t) = t_ID t" for t by (simp add: upd_def)
  have u: "t_State (upd t) = s" "t_DeadlineSecs (upd t) = t_DeadlineSecs t"
    "t_SkillName (upd t) = t_SkillName t" for t
    by (simp_all add: upd_def)
  show "pg_wf d' \<and>
    (if k = 0 then abs_pg d' = abs_pg d else state_updated i s (abs_pg d) (abs_pg d'))"
  proof (cases "has_key t_ID i (pg_tasks d)")
    case False
    with st wf show ?thesis by (simp add: update_task_state_stmt_def)
  next
    case True
    then obtain t where t: "lookup_by t_ID i (pg_tasks d) = Some t" using has_key_lookup by metis
    from True st have d': "d' = d\<lparr>pg_tasks := update_by t_ID i upd (pg_tasks d)\<rparr>"
      and ok: "s \<in> set task_states" and k: "k = 1"
      by (auto simp: update_task_state_stmt_def upd_def split: if_splits)
    have "pg_wf d'"
      using wf ok keys_unique_update_by [where f = upd and key = t_ID, OF id]
      by (auto simp: pg_wf_def d' has_key_update_by [where f = upd and key = t_ID, OF id] u
          intro!: list_all_update_by)
    moreover have "abs_pg d' = (abs_pg d)\<lparr>as_tasks := (as_tasks (abs_pg d))(i \<mapsto> upd t)\<rparr>"
      using t by (simp add: abs_pg_def d' lookup_update_by [where f = upd and key = t_ID, OF id] fun_eq_iff)
    ultimately show ?thesis
      using ok t k by (auto simp: state_updated_def abs_pg_def upd_def)
  qed
qed

lemma insert_event_law: "stmt_law (insert_event_stmt e) (\<lambda>k. event_appended e)"
proof (rule stmt_lawI)
  fix now d k d'
  assume wf: "pg_wf d" and st: "insert_event_stmt e now d = Inr (k, d')"
  define e' where "e' = e\<lparr>e_CreatedAt := pg_timestamp d (e_CreatedAt e)\<rparr>"
  from st have d': "d' = d\<lparr>pg_events := pg_events d @ [e']\<rparr>"
    and fresh: "\<not> has_key e_ID (e_ID e) (pg_events d)"
    and fk: "has_key t_ID (e_TaskID e) (pg_tasks d)"
    and ok: "e_Type e \<in> set event_types"
    by (auto simp: insert_event_stmt_def e'_def split: if_splits)
  have key: "e_ID e' = e_ID e" by (simp add: e'_def)
  have "pg_wf d'"
    using wf fresh fk ok keys_unique_append_fresh [of e_ID "pg_events d" e']
    by (simp add: pg_wf_def d' key) (simp add: e'_def)
  moreover have "event_appended e (abs_pg d) (abs_pg d')"
  proof -
    from fresh have "lookup_by e_ID (e_ID e) (pg_events d) = None" by (simp add: lookup_by_None)
    moreover from fk obtain t where "lookup_by t_ID (e_TaskID e) (pg_tasks d) = Some t"
      using has_key_lookup by metis
    moreover have "abs_pg d' = (abs_pg d)\<lparr>as_events := (as_events (abs_pg d))(e_ID e \<mapsto> e')\<rparr>"
      using lookup_by_snoc_fresh [of e_ID e' "pg_events d"] fresh
      by (simp add: abs_pg_def d' key fun_eq_iff)
    ultimately show ?thesis
      using ok by (auto simp: event_appended_def abs_pg_def e'_def)
  qed
  ultimately show "pg_wf d' \<and> event_appended e (abs_pg d) (abs_pg d')" ..
qed

lemma store_token_law: "stmt_law (store_token_stmt i h) (\<lambda>k. token_stored i h)"
proof (rule stmt_lawI)
  fix now d k d'
  assume wf: "pg_wf d" and st: "store_token_stmt i h now d = Inr (k, d')"
  define upd :: "token_row \<Rightarrow> token_row"
    where "upd = (\<lambda>old. old\<lparr>tk_token_hash := h, tk_revoked := False\<rparr>)"
  define r where
    "r = \<lparr>tk_task_id = i, tk_token_hash = h, tk_created_at = now, tk_revoked = False\<rparr>"
  have id: "tk_task_id (upd x) = tk_task_id x" for x by (simp add: upd_def)
  have key: "tk_task_id r = i" by (simp add: r_def)
  from st have d': "d' = d\<lparr>pg_tokens := upsert_by tk_task_id upd r (pg_tokens d)\<rparr>"
    and some: "has_key tk_task_id i (pg_tokens d) \<or> has_key t_ID i (pg_tasks d)"
    by (auto simp: store_token_stmt_def upd_def r_def split: if_splits)
  from some wf have fk: "has_key t_ID i (pg_tasks d)"
    by (auto simp: pg_wf_def list_all_iff has_key_iff [of tk_task_id])
  have "pg_wf d'"
    using wf fk keys_unique_upsert_by [where upd = upd and key = tk_task_id, OF id]
    by (auto simp: pg_wf_def d' id key intro!: list_all_upsert_by)
  moreover have "abs_pg d' = (abs_pg d)\<lparr>as_tokens := (as_tokens (abs_pg d))(i \<mapsto> (h, False))\<rparr>"
    by (auto simp: abs_pg_def d' lookup_upsert_by [where upd = upd and key = tk_task_id, OF id]
        key fun_eq_iff split: option.split) (simp_all add: upd_def r_def)
  moreover from fk obtain t where "lookup_by t_ID i (pg_tasks d) = Some t"
    using has_key_lookup by metis
  ultimately show "pg_wf d' \<and> token_stored i h (abs_pg d) (abs_pg d')"
    by (auto simp: token_stored_def abs_pg_def)
qed

lemma revoke_token_law: "stmt_law (revoke_token_stmt i) (\<lambda>k. token_revoked i)"
proof (rule stmt_lawI)
  fix now d k d'
  assume wf: "pg_wf d" and st: "revoke_token_stmt i now d = Inr (k, d')"
  define upd :: "token_row \<Rightarrow> token_row" where "upd = (\<lambda>r. r\<lparr>tk_revoked := True\<rparr>)"
  have id: "tk_task_id (upd x) = tk_task_id x" for x by (simp add: upd_def)
  have u: "tk_revoked (upd x)" "tk_token_hash (upd x) = tk_token_hash x" for x
    by (simp_all add: upd_def)
  from st have d': "d' = d\<lparr>pg_tokens := update_by tk_task_id i upd (pg_tokens d)\<rparr>"
    by (auto simp: revoke_token_stmt_def upd_def)
  have "pg_wf d'"
    using wf keys_unique_update_by [where f = upd and key = tk_task_id, OF id]
    by (auto simp: pg_wf_def d' id intro!: list_all_update_by)
  moreover have "token_revoked i (abs_pg d) (abs_pg d')"
    by (auto simp: token_revoked_def abs_pg_def d' lookup_update_by [where f = upd and key = tk_task_id, OF id]
        fun_eq_iff u split: option.splits)
  ultimately show "pg_wf d' \<and> token_revoked i (abs_pg d) (abs_pg d')" ..
qed

subsection \<open>Listings\<close>

lemma order_page_page_of:
  assumes uniq: "keys_unique key rs" and pg: "order_page date limit offset (filter P (scan_rows f rs)) = Inr ps"
  shows "page_of (\<lambda>i. lookup_by key i rs) key date P limit offset ps"
proof -
  let ?s = "sort_key (\<lambda>r. - date r) (filter P (scan_rows f rs))"
  from pg have ps: "ps = page (nat limit) (nat offset) ?s" by (simp add: order_page_def split: if_splits)
  have rows: "set (scan_rows f rs) = set rs" by (metis mset_scan_rows set_mset_mset)
  have "mset (map key (scan_rows f rs)) = mset (map key rs)"
    by (metis mset_map mset_scan_rows)
  with uniq have "distinct (map key (scan_rows f rs))"
    by (metis keys_unique_def mset_eq_imp_distinct_iff)
  then have "distinct (map key (filter P (scan_rows f rs)))"
    by (rule distinct_map_filter)
  moreover have "mset (map key ?s) = mset (map key (filter P (scan_rows f rs)))"
    by (simp only: mset_map mset_sort)
  ultimately have "distinct (map key ?s)" by (metis mset_eq_imp_distinct_iff)
  moreover have "sorted (map (\<lambda>r. - date r) ?s)" by (rule sorted_sort_key)
  then have "sorted_wrt (\<lambda>x y. date y \<le> date x) ?s" by (simp add: sorted_wrt_map)
  ultimately have "newest_first (\<lambda>i. lookup_by key i rs) key date P ?s"
    using uniq rows by (auto simp: newest_first_def lookup_by_unique dest: lookup_by_SomeD)
  with ps show ?thesis unfolding page_of_def by blast
qed

lemma map_sum_eq_Inr_iff: "map_sum f g x = Inr z \<longleftrightarrow> (\<exists>y. x = Inr y \<and> z = g y)"
  by (cases x) auto

lemma select_tasks_page:
  assumes "pg_wf d" and "select_tasks f n d = Inr l"
  shows "page_of (as_tasks (abs_pg d)) t_ID t_CreatedAt (task_matches f)
    (if tf_Limit f \<le> 0 then 50 else tf_Limit f) (tf_Offset f) (slice l)"
proof -
  from assms(2) obtain ps where l: "l = appended ps"
    and ps: "order_page t_CreatedAt (if tf_Limit f \<le> 0 then 50 else tf_Limit f) (tf_Offset f)
      (filter (task_matches f) (scan_rows (pg_scan_tasks d n) (pg_tasks d))) = Inr ps"
    by (auto simp: select_tasks_def Let_def map_sum_eq_Inr_iff)
  from assms(1) have "keys_unique t_ID (pg_tasks d)" by (simp add: pg_wf_def)
  from order_page_page_of [OF this ps] show ?thesis by (simp add: abs_pg_def l)
qed

lemma select_events_page:
  assumes "pg_wf d" and "select_events f n d = Inr l"
  shows "page_of (as_events (abs_pg d)) e_ID e_CreatedAt (event_matches (pg_timestamp d) f)
    (if ef_Limit f \<le> 0 then 500 else ef_Limit f) (ef_Offset f) (slice l)"
proof -
  from assms(2) obtain ps where l: "l = appended ps"
    and ps: "order_page e_CreatedAt (if ef_Limit f \<le> 0 then 500 else ef_Limit f) (ef_Offset f)
      (filter (event_matches (pg_timestamp d) f)
        (scan_rows (pg_scan_events d n) (pg_events d))) = Inr ps"
    by (auto simp: select_events_def Let_def map_sum_eq_Inr_iff)
  from assms(1) have "keys_unique e_ID (pg_events d)" by (simp add: pg_wf_def)
  from order_page_page_of [OF this ps] show ?thesis by (simp add: abs_pg_def l)
qed

lemma list_skills_rows:
  assumes "pg_wf d"
  shows "set (sort_key (\<lambda>sk. pg_collate d (sk_Name sk)) (map sr_skill (pg_skills d))) = ran (as_skills (abs_pg d))"
    and "distinct (map sk_Name (sort_key (\<lambda>sk. pg_collate d (sk_Name sk)) (map sr_skill (pg_skills d))))"
proof -
  from assms have u: "keys_unique skill_key (pg_skills d)" by (simp add: pg_wf_def)
  show "set (sort_key (\<lambda>sk. pg_collate d (sk_Name sk)) (map sr_skill (pg_skills d))) = ran (as_skills (abs_pg d))"
  proof (intro set_eqI iffI)
    fix x assume "x \<in> set (sort_key (\<lambda>sk. pg_collate d (sk_Name sk)) (map sr_skill (pg_skills d)))"
    then obtain r where "r \<in> set (pg_skills d)" "x = sr_skill r" by auto
    with lookup_by_unique [OF u] show "x \<in> ran (as_skills (abs_pg d))"
      by (auto simp: abs_pg_def ran_def map_option_eq_Some_iff)
  next
    fix x assume "x \<in> ran (as_skills (abs_pg d))"
    then show "x \<in> set (sort_key (\<lambda>sk. pg_collate d (sk_Name sk)) (map sr_skill (pg_skills d)))"
      by (auto simp: abs_pg_def ran_def dest!: lookup_by_SomeD)
  qed
  have "distinct (map sk_Name (map sr_skill (pg_skills d)))"
    using u by (simp add: keys_unique_def comp_def)
  moreover have "mset (map sk_Name (sort_key (\<lambda>sk. pg_collate d (sk_Name sk)) (map sr_skill (pg_skills d)))) =
      mset (map sk_Name (map sr_skill (pg_skills d)))"
    by (simp only: mset_map mset_sort)
  ultimately show "distinct (map sk_Name (sort_key (\<lambda>sk. pg_collate d (sk_Name sk)) (map sr_skill (pg_skills d))))"
    by (metis mset_eq_imp_distinct_iff)
qed

subsection \<open>The store keeps the interface's contract\<close>

text \<open>The methods that do more than run one statement.\<close>

lemma pg_UpdateTaskState_law:
  assumes "pg_wf w" and "pg_UpdateTaskState i s w = (err, w')"
  shows "pg_wf w' \<and> wrote err (state_updated i s) (abs_pg w) (abs_pg w')"
proof -
  from assms(2) obtain r where r: "pg_Exec (update_task_state_stmt i s) w = (r, w')"
    and err: "err = (case r of Inl e \<Rightarrow> Some e | Inr k \<Rightarrow>
      if k = 0 then Some (NewError (''postgres: task '' @ quote i @ '' not found'')) else None)"
    by (auto simp: pg_UpdateTaskState_def split: prod.splits sum.splits)
  from pg_Exec_law [OF update_state_law assms(1) r] err show ?thesis
    by (cases r) (auto simp: wrote_def split: if_splits)
qed

lemma pg_VerifyAgentToken_law:
  assumes "pg_wf w" and "pg_VerifyAgentToken i h w = (ok, w')"
  shows "pg_wf w' \<and> abs_pg w' = abs_pg w \<and> (result_ok ok \<longrightarrow> ok = Inr (token_valid (abs_pg w) i h))"
proof -
  have "(case lookup_by tk_task_id i (pg_tokens w) of None \<Rightarrow> False
      | Some r \<Rightarrow> if tk_revoked r then False else ConstantTimeEq (tk_token_hash r) h)
    = token_valid (abs_pg w) i h"
    by (auto simp: token_valid_def abs_pg_def split: option.split)
  with pg_Query_law [OF assms(2) [unfolded pg_VerifyAgentToken_def] assms(1)] show ?thesis by simp
qed

lemma pg_ListEvents_law:
  assumes "pg_wf w" and "pg_ListEvents ef w = (es, w')"
  shows "pg_wf w' \<and> abs_pg w' = abs_pg w \<and>
    (\<forall>l. es = Inr l \<longrightarrow>
       page_of (as_events (abs_pg w)) e_ID e_CreatedAt (event_matches (pg_timestamp w) ef)
         (if ef_Limit ef \<le> 0 then 500 else ef_Limit ef) (ef_Offset ef) (slice l))"
proof -
  note q = pg_Query_law [OF assms(2) [unfolded pg_ListEvents_def] assms(1)]
  then show ?thesis using select_events_page [OF assms(1)] by (cases es) simp_all
qed

text \<open>What the contract says of the filter, which leaves the precision of the stored dates open.\<close>

lemma event_matches_since:
  "\<exists>since. event_matches ts ef = (\<lambda>e. (case ef_TaskID ef of None \<Rightarrow> True | Some i \<Rightarrow> e_TaskID e = i) \<and>
     (case ef_EventType ef of None \<Rightarrow> True | Some ty \<Rightarrow> e_Type e = ty) \<and> (ef_Since ef \<noteq> None \<longrightarrow> since \<le> e_CreatedAt e))"
  by (cases "ef_Since ef") (auto simp: event_matches_def fun_eq_iff)

interpretation pg: store_contract pg_store abs_pg pg_wf
proof (unfold_locales, goal_cases)
  case (1 w sk err w')
  then show ?case
    using pg_Exec_err_law [OF upsert_skill_law] by (simp add: pg_store_def pg_UpsertSkill_def)
next
  case (2 w n r w')
  then show ?case
    using pg_Query_law by (fastforce simp: pg_store_def pg_GetSkill_def abs_pg_def)
next
  case (3 w t err w')
  then show ?case
    using pg_Exec_err_law [OF insert_task_law] by (simp add: pg_store_def pg_CreateTask_def)
next
  case (4 w i rt w')
  then show ?case
    using pg_Query_law by (fastforce simp: pg_store_def pg_GetTask_def abs_pg_def)
next
  case (5 w f ts w')
  then have q: "pg_Query (select_tasks f) w = (ts, w')"
    by (simp add: pg_store_def pg_ListTasks_def)
  from pg_Query_law [OF q 5(1)] select_tasks_page [OF 5(1), of f "pg_ticks w"] show ?case
    by (simp add: task_matches_def [abs_def] del: if_split)
next
  case (6 w i s err w')
  then show ?case using pg_UpdateTaskState_law by (simp add: pg_store_def)
next
  case (7 w e err w')
  then show ?case
    using pg_Exec_err_law [OF insert_event_law] by (simp add: pg_store_def pg_AppendEvent_def)
next
  case (8 w i h err w')
  then show ?case
    using pg_Exec_err_law [OF store_token_law] by (simp add: pg_store_def pg_StoreAgentToken_def)
next
  case (9 w i h ok w')
  then show ?case using pg_VerifyAgentToken_law by (simp add: pg_store_def)
next
  case (10 w i err w')
  then show ?case
    using pg_Exec_err_law [OF revoke_token_law] by (simp add: pg_store_def pg_RevokeAgentToken_def)
next
  case (11 w sks w')
  then have q: "pg_ListSkills w = (sks, w')" by (simp add: pg_store_def)
  from pg_Query_law [OF q [unfolded pg_ListSkills_def] 11(1)] list_skills_rows [OF 11(1)] show ?case
    by auto
next
  case (12 w ef es w')
  then have run: "pg_ListEvents ef w = (es, w')" by (simp add: pg_store_def)
  obtain since where "event_matches (pg_timestamp w) ef = (\<lambda>e. (case ef_TaskID ef of None \<Rightarrow> True | Some i \<Rightarrow> e_TaskID e = i) \<and>
     (case ef_EventType ef of None \<Rightarrow> True | Some ty \<Rightarrow> e_Type e = ty) \<and> (ef_Since ef \<noteq> None \<longrightarrow> since \<le> e_CreatedAt e))"
    using event_matches_since by blast
  from pg_ListEvents_law [OF 12(1) run, unfolded this] show ?case by blast
next
  case (13 w err w')
  have "stmt_law (\<lambda>now d. Inr (0, d)) (\<lambda>k a a'. a' = a)" by (rule stmt_lawI) auto
  from pg_Exec_err_law [OF this 13(1)] 13(2) show ?case
    by (auto simp: pg_store_def pg_Ping_def wrote_def)
qed

subsection \<open>The store while the database answers\<close>

text \<open>The pool is open and no round trip from the next one on fails.\<close>

definition pg_up :: "pg \<Rightarrow> bool" where
  "pg_up d \<longleftrightarrow> \<not> pg_closed d \<and> (\<forall>n \<ge> pg_ticks d. pg_fault d n = None)"

text \<open>A statement that leaves the database's own choices alone.\<close>

definition stmt_frame :: "stmt \<Rightarrow> bool" where
  "stmt_frame stm \<longleftrightarrow>
     (\<forall>now d k d'. stm now d = Inr (k, d') \<longrightarrow>
        pg_closed d' = pg_closed d \<and> pg_fault d' = pg_fault d \<and> pg_ticks d' = pg_ticks d)"

lemma stmt_frames:
  "stmt_frame (upsert_skill_stmt sk)" "stmt_frame (insert_task_stmt t)"
  "stmt_frame (update_task_state_stmt i s)" "stmt_frame (insert_event_stmt e)"
  "stmt_frame (store_token_stmt i h)" "stmt_frame (revoke_token_stmt i)"
  by (auto simp: stmt_frame_def upsert_skill_stmt_def insert_task_stmt_def update_task_state_stmt_def
      insert_event_stmt_def store_token_stmt_def revoke_token_stmt_def Let_def split: if_splits)

text \<open>What no statement touches is left alone by its round trip, lost ones included.\<close>

lemma pg_Exec_keeps:
  assumes stm: "\<And>now d k d'. stm now d = Inr (k, d') \<Longrightarrow> f d' = f d"
    and ticks: "\<And>n d. f (d\<lparr>pg_ticks := n\<rparr>) = f d" and run: "pg_Exec stm d = (r, d')"
  shows "f d' = f d"
proof -
  let ?d0 = "d\<lparr>pg_ticks := Suc (pg_ticks d)\<rparr>"
  have out: "f d1 = f d" if "stm now ?d0 = Inr (k, d1)" for now k d1
    using stm [OF that] by (simp add: ticks)
  show ?thesis
    using run ticks out
    by (auto simp: pg_Exec_def Let_def split: if_splits option.splits fault.splits sum.splits prod.splits)
qed

lemma pg_Exec_err_keeps:
  assumes "\<And>now d k d'. stm now d = Inr (k, d') \<Longrightarrow> f d' = f d"
    and "\<And>d n. f (d\<lparr>pg_ticks := n\<rparr>) = f d" and "pg_Exec_err stm d = (e, d')"
  shows "f d' = f d"
proof -
  obtain r d1 where run: "pg_Exec stm d = (r, d1)" by (metis prod.exhaust)
  with assms(3) have "d' = d1" by (cases r) (simp_all add: pg_Exec_err_def)
  with pg_Exec_keeps [OF assms(1,2) run] show ?thesis by simp
qed

text \<open>A statement on a database that is up: its own result, on the tables as they are.\<close>

lemma pg_Exec_up:
  assumes "pg_up d" and "stmt_frame stm"
  shows "pg_Exec stm d =
    (case stm (pg_now d (pg_ticks d)) (d\<lparr>pg_ticks := Suc (pg_ticks d)\<rparr>) of
       Inl e \<Rightarrow> (Inl e, d\<lparr>pg_ticks := Suc (pg_ticks d)\<rparr>) | Inr (k, d1) \<Rightarrow> (Inr k, d1))"
  using assms by (simp add: pg_Exec_def pg_up_def Let_def)

lemma pg_Exec_stays_up: "pg_up d \<Longrightarrow> stmt_frame stm \<Longrightarrow> pg_Exec stm d = (r, d') \<Longrightarrow> pg_up d'"
  unfolding stmt_frame_def
  by (auto simp: pg_Exec_def pg_up_def Let_def split: sum.splits prod.splits)

lemma pg_Exec_err_up:
  assumes "pg_up d" and "stmt_frame stm" and "pg_Exec_err stm d = (err, d')"
  shows "pg_up d' \<and> (err \<noteq> None \<longrightarrow> abs_pg d' = abs_pg d)"
  using assms pg_Exec_stays_up [OF assms(1,2)]
  by (auto simp: pg_Exec_err_def pg_Exec_up split: prod.splits sum.splits)

lemma pg_Query_up: "pg_up d \<Longrightarrow> pg_Query q d = (r, d') \<Longrightarrow> pg_up d' \<and> r = q (pg_ticks d) d"
  by (auto simp: pg_Query_def pg_up_def Let_def)

lemma pg_UpdateTaskState_up:
  assumes "pg_up w" and "pg_UpdateTaskState i s w = (err, w')"
  shows "pg_up w' \<and> (as_tasks (abs_pg w) i \<noteq> None \<longrightarrow> s \<in> set task_states \<longrightarrow> err = None)"
proof (intro conjI impI)
  from assms(2) have "\<exists>r. pg_Exec (update_task_state_stmt i s) w = (r, w')"
    by (auto simp: pg_UpdateTaskState_def split: prod.splits sum.splits)
  then show "pg_up w'" using pg_Exec_stays_up [OF assms(1) stmt_frames(3)] by blast
next
  assume "as_tasks (abs_pg w) i \<noteq> None" and "s \<in> set task_states"
  then show "err = None" using assms
    by (simp add: abs_pg_def lookup_by_None pg_UpdateTaskState_def pg_Exec_up stmt_frames update_task_state_stmt_def)
qed

lemma pg_StoreAgentToken_up:
  assumes "pg_up w" and "pg_StoreAgentToken i h w = (err, w')"
  shows "pg_up w' \<and> (as_tasks (abs_pg w) i \<noteq> None \<longrightarrow> err = None)"
proof (intro conjI impI)
  show "pg_up w'"
    using pg_Exec_err_up [OF assms(1) stmt_frames(5)] assms(2) by (simp add: pg_StoreAgentToken_def)
next
  assume "as_tasks (abs_pg w) i \<noteq> None"
  then show "err = None" using assms
    by (auto simp: pg_StoreAgentToken_def pg_Exec_err_def pg_Exec_up stmt_frames
        store_token_stmt_def abs_pg_def lookup_by_None)
qed

interpretation pg: live_store pg_store abs_pg pg_wf pg_up
proof (unfold_locales, goal_cases)
  case (1 w n r w')
  then show ?case using pg_Query_up by (fastforce simp: pg_store_def pg_GetSkill_def)
next
  case (2 w i rt w')
  then show ?case using pg_Query_up by (fastforce simp: pg_store_def pg_GetTask_def)
next
  case (3 w t err w')
  then show ?case using pg_Exec_err_up [OF _ stmt_frames(2)] by (simp add: pg_store_def pg_CreateTask_def)
next
  case (4 w t e w')
  then show ?case using pg_Exec_err_up [OF _ stmt_frames(2)] by (simp add: pg_store_def pg_CreateTask_def)
next
  case (5 w i s err w')
  then show ?case using pg_UpdateTaskState_up by (simp add: pg_store_def)
next
  case (6 w e err w')
  then show ?case using pg_Exec_err_up [OF _ stmt_frames(4)] by (simp add: pg_store_def pg_AppendEvent_def)
next
  case (7 w e x w')
  then show ?case using pg_Exec_err_up [OF _ stmt_frames(4)] by (simp add: pg_store_def pg_AppendEvent_def)
next
  case (8 w i h err w')
  then show ?case using pg_StoreAgentToken_up by (simp add: pg_store_def)
next
  case (9 w i h ok w')
  then show ?case using pg_Query_up by (fastforce simp: pg_store_def pg_VerifyAgentToken_def)
next
  case (10 w i err w')
  then show ?case
    using pg_Exec_stays_up [OF 10(1) stmt_frames(6)]
    by (auto simp: pg_store_def pg_RevokeAgentToken_def pg_Exec_err_def pg_Exec_up stmt_frames
        revoke_token_stmt_def split: prod.splits sum.splits)
next
  case (11 w sks w')
  then show ?case by (simp add: pg_store_def pg_ListSkills_def) (blast dest: pg_Query_up)
next
  case (12 w f ts w')
  then show ?case by (simp add: pg_store_def pg_ListTasks_def) (blast dest: pg_Query_up)
next
  case (13 w ef es w')
  then show ?case by (simp add: pg_store_def pg_ListEvents_def) (blast dest: pg_Query_up)
next
  case (14 w err w')
  then show ?case
    by (auto simp: pg_store_def pg_Ping_def pg_Exec_err_def pg_Exec_def pg_up_def Let_def split: prod.splits)
next
  case (15 w sk err w')
  then have run: "pg_Exec_err (upsert_skill_stmt sk) w = (err, w')" by (simp add: pg_store_def pg_UpsertSkill_def)
  then show ?case using pg_Exec_err_up [OF 15(1) stmt_frames(1) run]
    by (auto simp: pg_Exec_err_def pg_Exec_up [OF 15(1) stmt_frames(1)] upsert_skill_stmt_def sent_null_json_def sent_null_array_def Let_def)
qed

subsection \<open>The schema\<close>

lemma run_ddl_append:
  "run_ddl (ds @ es) rels = (case run_ddl ds rels of Inl e \<Rightarrow> Inl e | Inr r \<Rightarrow> run_ddl es r)"
  by (induction ds rels rule: run_ddl.induct) simp_all

lemma run_ddl_mono: "run_ddl ds rels = Inr rels' \<Longrightarrow> set rels \<subseteq> set rels'"
  by (induction ds rels rule: run_ddl.induct) (fastforce split: if_splits)+

lemma run_ddl_dup:
  assumes "run_ddl (ds @ CreateIndex r # es) rels = Inr rels'"
  shows "r \<in> set rels'"
proof -
  from assms obtain m where "run_ddl es (m @ [r]) = Inr rels'"
    by (auto simp: run_ddl_append split: sum.splits if_splits)
  from run_ddl_mono [OF this] show ?thesis by simp
qed

lemma up_sql_split:
  "\<exists>es. up_sql = [CreateTableIfNotExists ''skills'', CreateTableIfNotExists ''tasks''] @
     CreateIndex ''idx_tasks_state'' # es"
  unfolding up_sql_def by (intro exI) simp

lemma up_sql_again:
  assumes "run_ddl up_sql rels = Inr rels'"
  shows "run_ddl up_sql rels' = Inl (duplicate_relation ''idx_tasks_state'')"
proof -
  obtain es where es: "up_sql = [CreateTableIfNotExists ''skills'', CreateTableIfNotExists ''tasks''] @
     CreateIndex ''idx_tasks_state'' # es" using up_sql_split by blast
  have idx: "''idx_tasks_state'' \<in> set rels'" by (rule run_ddl_dup [OF assms [unfolded es]])
  then show ?thesis unfolding es by simp
qed

subsection \<open>What no call of the store touches\<close>

text \<open>The schema and the fault oracle: only a migration changes the first, nothing the second.\<close>

definition schema_part :: "pg \<Rightarrow> string list \<times> (nat \<Rightarrow> fault option)" where
  "schema_part d = (pg_relations d, pg_fault d)"

lemma schema_part_ticks: "schema_part (d\<lparr>pg_ticks := n\<rparr>) = schema_part d"
  by (simp add: schema_part_def)

lemma stmt_schema:
  "upsert_skill_stmt sk now d = Inr (k, d') \<Longrightarrow> schema_part d' = schema_part d"
  "insert_task_stmt t now d = Inr (k, d') \<Longrightarrow> schema_part d' = schema_part d"
  "update_task_state_stmt i s now d = Inr (k, d') \<Longrightarrow> schema_part d' = schema_part d"
  "insert_event_stmt e now d = Inr (k, d') \<Longrightarrow> schema_part d' = schema_part d"
  "store_token_stmt i h now d = Inr (k, d') \<Longrightarrow> schema_part d' = schema_part d"
  "revoke_token_stmt i now d = Inr (k, d') \<Longrightarrow> schema_part d' = schema_part d"
  by (auto simp: upsert_skill_stmt_def insert_task_stmt_def update_task_state_stmt_def insert_event_stmt_def
      store_token_stmt_def revoke_token_stmt_def schema_part_def Let_def split: if_splits)

lemma pg_Query_keeps:
  assumes "\<And>n d. f (d\<lparr>pg_ticks := n\<rparr>) = f d"
  shows "f (snd (pg_Query q d)) = f d"
  using assms by (simp add: pg_Query_def Let_def split: option.split fault.split)

lemma pg_Exec_err_schema:
  assumes "\<And>now d k d'. stm now d = Inr (k, d') \<Longrightarrow> schema_part d' = schema_part d"
  shows "schema_part (snd (pg_Exec_err stm d)) = schema_part d"
  by (rule pg_Exec_err_keeps [OF assms schema_part_ticks surjective_pairing])

lemma pg_update_schema: "schema_part (snd (pg_UpdateTaskState i s d)) = schema_part d"
proof -
  obtain r d1 where run: "pg_Exec (update_task_state_stmt i s) d = (r, d1)" by (metis prod.exhaust)
  then have "snd (pg_UpdateTaskState i s d) = d1" by (simp add: pg_UpdateTaskState_def split: sum.split)
  with pg_Exec_keeps [OF stmt_schema(3) schema_part_ticks run] show ?thesis by simp
qed

lemma pg_ping_schema: "schema_part (snd (pg_Ping d)) = schema_part d"
  unfolding pg_Ping_def by (rule pg_Exec_err_schema) simp

lemma pg_keeps_schema: "store_keeps pg_store schema_part"
  unfolding store_keeps_def pg_store_def
  by (simp add: pg_update_schema pg_ping_schema pg_UpsertSkill_def pg_GetSkill_def pg_ListSkills_def pg_CreateTask_def
      pg_GetTask_def pg_ListTasks_def pg_AppendEvent_def pg_ListEvents_def pg_StoreAgentToken_def pg_VerifyAgentToken_def
      pg_RevokeAgentToken_def pg_Query_keeps [of schema_part, OF schema_part_ticks]
      pg_Exec_err_schema stmt_schema)

subsection \<open>Every sequence of calls\<close>

text \<open>One call of any method of the store, with whatever outcome.\<close>

inductive pg_step :: "pg \<Rightarrow> pg \<Rightarrow> bool" where
  "pg_UpsertSkill sk d = (err, d') \<Longrightarrow> pg_step d d'"
| "pg_GetSkill n d = (r, d') \<Longrightarrow> pg_step d d'"
| "pg_ListSkills d = (ls, d') \<Longrightarrow> pg_step d d'"
| "pg_CreateTask t d = (err, d') \<Longrightarrow> pg_step d d'"
| "pg_GetTask i d = (rt, d') \<Longrightarrow> pg_step d d'"
| "pg_ListTasks f d = (lt, d') \<Longrightarrow> pg_step d d'"
| "pg_UpdateTaskState i s d = (err, d') \<Longrightarrow> pg_step d d'"
| "pg_AppendEvent e d = (err, d') \<Longrightarrow> pg_step d d'"
| "pg_ListEvents ef d = (le, d') \<Longrightarrow> pg_step d d'"
| "pg_StoreAgentToken i h d = (err, d') \<Longrightarrow> pg_step d d'"
| "pg_VerifyAgentToken i h d = (ok, d') \<Longrightarrow> pg_step d d'"
| "pg_RevokeAgentToken i d = (err, d') \<Longrightarrow> pg_step d d'"
| "pg_Ping d = (err, d') \<Longrightarrow> pg_step d d'"
| "pg_Migrate d = (err, d') \<Longrightarrow> pg_step d d'"
| "pg_NotifySkillsChanged d = (err, d') \<Longrightarrow> pg_step d d'"
| "pg_NotifyPoliciesChanged d = (err, d') \<Longrightarrow> pg_step d d'"
| "pg_Close d = (err, d') \<Longrightarrow> pg_step d d'"

lemma notify_law: "stmt_law (notify_stmt ch) (\<lambda>k a a'. a' = a)"
  by (rule stmt_lawI) (auto simp: notify_stmt_def pg_wf_def abs_pg_def)

lemma migrate_law: "stmt_law (migrate_stmt ds) (\<lambda>k a a'. a' = a)"
  by (rule stmt_lawI) (auto simp: migrate_stmt_def pg_wf_def abs_pg_def split: sum.splits)

lemma pg_Migrate_wf: "pg_wf d \<Longrightarrow> pg_Migrate d = (err, d') \<Longrightarrow> pg_wf d' \<and> abs_pg d' = abs_pg d"
proof -
  assume wf: "pg_wf d" and m: "pg_Migrate d = (err, d')"
  then obtain r where "pg_Exec (migrate_stmt up_sql) d = (r, d')"
    by (auto simp: pg_Migrate_def split: prod.splits sum.splits)
  from pg_Exec_law [OF migrate_law wf this] show ?thesis by auto
qed

lemma pg_Close_wf: "pg_wf (d\<lparr>pg_closed := b\<rparr>) = pg_wf d" "abs_pg (d\<lparr>pg_closed := b\<rparr>) = abs_pg d"
  by (simp_all add: pg_wf_def abs_pg_def)

lemmas pg_keeps =
  pg.upsert_skill [unfolded pg_store_def store.select_convs, THEN conjunct1]
  pg.get_skill [unfolded pg_store_def store.select_convs, THEN conjunct1]
  pg.list_skills [unfolded pg_store_def store.select_convs, THEN conjunct1]
  pg.create_task [unfolded pg_store_def store.select_convs, THEN conjunct1]
  pg.get_task [unfolded pg_store_def store.select_convs, THEN conjunct1]
  pg.list_tasks [unfolded pg_store_def store.select_convs, THEN conjunct1]
  pg.update_state [unfolded pg_store_def store.select_convs, THEN conjunct1]
  pg.append_event [unfolded pg_store_def store.select_convs, THEN conjunct1]
  pg.list_events [unfolded pg_store_def store.select_convs, THEN conjunct1]
  pg.store_token [unfolded pg_store_def store.select_convs, THEN conjunct1]
  pg.verify_token [unfolded pg_store_def store.select_convs, THEN conjunct1]
  pg.revoke_token [unfolded pg_store_def store.select_convs, THEN conjunct1]
  pg.ping [unfolded pg_store_def store.select_convs, THEN conjunct1]

lemma pg_step_wf: "pg_step d d' \<Longrightarrow> pg_wf d \<Longrightarrow> pg_wf d'"
proof (induction rule: pg_step.induct)
  case (14 d err d')
  then show ?case using pg_Migrate_wf by blast
next
  case (15 d err d')
  then show ?case
    using pg_Exec_err_law [OF notify_law] by (auto simp: pg_NotifySkillsChanged_def)
next
  case (16 d err d')
  then show ?case
    using pg_Exec_err_law [OF notify_law] by (auto simp: pg_NotifyPoliciesChanged_def)
next
  case (17 d err d')
  then show ?case by (auto simp: pg_Close_def pg_Close_wf)
qed (blast intro: pg_keeps)+

definition empty_tables :: "pg \<Rightarrow> bool" where
  "empty_tables d \<longleftrightarrow> pg_skills d = [] \<and> pg_tasks d = [] \<and> pg_events d = [] \<and> pg_tokens d = []"

lemma empty_tables_wf: "empty_tables d \<Longrightarrow> pg_wf d"
  by (simp add: empty_tables_def pg_wf_def)

text \<open>While the database answers, a valid new row is accepted.\<close>

lemma pg_insert_ok:
  assumes "pg_up d" and "in_int4 (t_DeadlineSecs t)" and "\<not> sent_null_json d (t_Parameters t)"
    and "t_State t \<in> set task_states" and "as_tasks (abs_pg d) (t_ID t) = None"
    and "as_skills (abs_pg d) (t_SkillName t) \<noteq> None"
  shows "\<exists>d'. pg_CreateTask t d = (None, d')"
  using assms stmt_frames(2)
  by (auto simp: pg_CreateTask_def pg_Exec_err_def pg_Exec_up insert_task_stmt_def abs_pg_def lookup_by_None sent_null_json_def)

lemma pg_append_ok:
  assumes "pg_up d" and "\<not> sent_null_json d (e_Payload e)" and "e_Type e \<in> set event_types"
    and "as_events (abs_pg d) (e_ID e) = None" and "as_tasks (abs_pg d) (e_TaskID e) \<noteq> None"
  shows "\<exists>d'. pg_AppendEvent e d = (None, d')"
  using assms stmt_frames
  by (auto simp: pg_AppendEvent_def pg_Exec_err_def pg_Exec_up insert_event_stmt_def abs_pg_def lookup_by_None sent_null_json_def)

text \<open>An empty database that always answers, for concrete runs.\<close>

definition ex_pg :: pg where
  "ex_pg =
     \<lparr>pg_skills = [], pg_tasks = [], pg_events = [], pg_tokens = [], pg_relations = [],
      pg_notified = [], pg_closed = False, pg_ticks = 0, pg_fault = (\<lambda>n. None),
      pg_now = (\<lambda>n. int n), pg_timestamp = (\<lambda>t. t), pg_nil_json_null = True,
      pg_nil_array_null = True, pg_scan_tasks = (\<lambda>n ts. ts), pg_scan_events = (\<lambda>n es. es),
      pg_collate = (\<lambda>s. 0)\<rparr>"

definition ex_skill :: skill where
  "ex_skill =
     \<lparr>sk_Name = ''hello'', sk_Version = ''1'', sk_Description = [], sk_Entrypoint = ''run.py'',
      sk_Parameters = Some [], sk_RequiredTools = Some [], sk_RequiredModels = Some [''gpt-4o''],
      sk_SourceFile = [], sk_LoadedAt = 0\<rparr>"

definition ex_task :: task where
  "ex_task =
     \<lparr>t_ID = ''t1'', t_SkillName = ''hello'', t_Parameters = Some [],
      t_PolicyContext = \<lparr>pc_User = ''bob'', pc_Team = ''dev'', pc_ModelAllowed = None\<rparr>,
      t_Runtime = ''local'', t_State = TaskStatePending, t_CreatedAt = 5, t_UpdatedAt = 0,
      t_DeadlineSecs = 300\<rparr>"

definition ex_pg_skill :: pg where
  "ex_pg_skill = ex_pg\<lparr>pg_skills := [\<lparr>sr_skill = ex_skill, sr_created_at = 0, sr_updated_at = 0\<rparr>]\<rparr>"

definition ex_pg_task :: pg where
  "ex_pg_task = ex_pg_skill\<lparr>pg_tasks := [ex_task]\<rparr>"

lemma ex_pg_wf: "pg_wf ex_pg" "pg_wf ex_pg_skill" "pg_wf ex_pg_task" "pg_up ex_pg_task" "pg_up ex_pg_skill"
  by (simp_all add: pg_wf_def ex_pg_def ex_pg_skill_def ex_pg_task_def keys_unique_def has_key_Cons
      ex_task_def ex_skill_def in_int4_def task_states_def pg_up_def)

subsection \<open>Properties\<close>

text \<open>
  C27: Integrity. From empty tables, every sequence of calls to the store, failed and lost
  round trips included, leaves primary keys unique, every task with an existing skill and a
  valid state, every event and token with an existing task.
\<close>

theorem store_integrity:
  assumes "empty_tables d0" and "pg_step\<^sup>*\<^sup>* d0 d"
  shows "pg_wf d"
  using assms(2) by (induction rule: rtranclp_induct) (auto intro: empty_tables_wf [OF assms(1)] pg_step_wf)

theorem store_integrity_witness:
  "\<exists>d. pg_step\<^sup>*\<^sup>* ex_pg d \<and> pg_skills d \<noteq> [] \<and> pg_wf d"
proof -
  have "pg_step ex_pg (snd (pg_UpsertSkill ex_skill ex_pg))"
    by (rule pg_step.intros(1)) (rule surjective_pairing)
  then have r: "pg_step\<^sup>*\<^sup>* ex_pg (snd (pg_UpsertSkill ex_skill ex_pg))" by simp
  have "pg_wf (snd (pg_UpsertSkill ex_skill ex_pg))"
    by (rule store_integrity [OF _ r]) (simp add: empty_tables_def ex_pg_def)
  moreover have "pg_skills (snd (pg_UpsertSkill ex_skill ex_pg)) \<noteq> []"
    by (simp add: pg_UpsertSkill_def pg_Exec_err_def pg_Exec_def ex_pg_def ex_skill_def upsert_skill_stmt_def
        sent_null_json_def sent_null_array_def upsert_by_def Let_def)
  ultimately show ?thesis using r by blast
qed

text \<open>
  A task is read back as it was written. After a creation that succeeded, a lookup that
  succeeds returns the task with every field as given but the two dates of the database.
\<close>

lemma task_roundtrip:
  assumes "pg_wf d" and "pg_CreateTask t d = (None, d1)" and "pg_GetTask (t_ID t) d1 = (Inr r, d2)"
  shows "\<exists>c u. r = Some (t\<lparr>t_CreatedAt := c, t_UpdatedAt := u\<rparr>)"
  using pg.get_after_create [of d t d1 r d2] assms by (simp add: pg_store_def)

lemma task_roundtrip_witness:
  "\<exists>d1 d2 r. pg_CreateTask ex_task ex_pg_skill = (None, d1) \<and> pg_GetTask ''t1'' d1 = (Inr (Some r), d2) \<and>
     t_Runtime r = ''local''"
proof -
  obtain d1 where c: "pg_CreateTask ex_task ex_pg_skill = (None, d1)"
    by (simp add: pg_CreateTask_def pg_Exec_err_def pg_Exec_def ex_pg_skill_def ex_pg_def insert_task_stmt_def
        ex_task_def in_int4_def sent_null_json_def task_states_def has_key_Cons ex_skill_def Let_def)
  have up: "pg_up d1" using pg.live_create [OF ex_pg_wf(5), of ex_task None d1] c by (simp add: pg_store_def)
  obtain r d2 where g: "pg_GetTask (t_ID ex_task) d1 = (Inr r, d2)"
    using pg_Query_up [OF up] by (metis pg_GetTask_def prod.exhaust)
  from task_roundtrip [OF ex_pg_wf(2) c g] obtain c' u
    where "r = Some (ex_task\<lparr>t_CreatedAt := c', t_UpdatedAt := u\<rparr>)" by blast
  with c g show ?thesis by (auto simp: ex_task_def)
qed

text \<open>
  The store refuses no transition. While the database answers, setting the state of an
  existing task succeeds whatever its state was, a terminal one included, and changes
  nothing else.
\<close>

lemma update_state_unguarded:
  assumes "pg_wf d" and "pg_up d" and "as_tasks (abs_pg d) i = Some t" and "s \<in> set task_states"
  shows "\<exists>d' u. pg_UpdateTaskState i s d = (None, d') \<and> pg_wf d' \<and>
    abs_pg d' = (abs_pg d)\<lparr>as_tasks := (as_tasks (abs_pg d))(i \<mapsto> t\<lparr>t_State := s, t_UpdatedAt := u\<rparr>)\<rparr>"
proof -
  obtain e d' where u: "pg_UpdateTaskState i s d = (e, d')" by (metis prod.exhaust)
  then have u': "UpdateTaskState pg_store i s d = (e, d')" by (simp add: pg_store_def)
  from pg.live_update [OF assms(2) u'] assms(3,4) have "e = None" by simp
  with pg.update_state [OF assms(1) u'] u assms(3) show ?thesis by (auto simp: state_updated_def)
qed


text \<open>
  The life of an agent token. While the database answers, a stored hash is the one that
  verifies, a revoked one verifies for nothing, and storing again makes the new hash valid.
\<close>

lemma token_life:
  assumes "pg_wf d" and "pg_up d" and "as_tasks (abs_pg d) i \<noteq> None"
    and "pg_StoreAgentToken i h d = (e1, d1)" and "pg_RevokeAgentToken i d1 = (e2, d2)"
    and "pg_StoreAgentToken i h2 d2 = (e3, d3)"
  shows "[e1, e2, e3] = [None, None, None] \<and>
    fst (pg_VerifyAgentToken i x d1) = Inr (x = h) \<and>
    fst (pg_VerifyAgentToken i x d2) = Inr False \<and>
    fst (pg_VerifyAgentToken i x d3) = Inr (x = h2)"
proof -
  have st: "StoreAgentToken pg_store i h d = (e1, d1)" "RevokeAgentToken pg_store i d1 = (e2, d2)"
    "StoreAgentToken pg_store i h2 d2 = (e3, d3)" using assms(4-6) by (simp_all add: pg_store_def)
  have ver: "fst (pg_VerifyAgentToken i x d') = Inr (token_valid (abs_pg d') i x)"
    if "pg_wf d'" and "pg_up d'" for d'
  proof -
    obtain ok w where v: "VerifyAgentToken pg_store i x d' = (ok, w)" by (metis prod.exhaust)
    from pg.verify_token [OF that(1) v] pg.live_verify [OF that(2) v] v show ?thesis
      by (simp add: pg_store_def)
  qed
  note 1 = pg.live_token [OF assms(2) st(1)] pg.store_token [OF assms(1) st(1)]
  then have w1: "pg_up d1" "pg_wf d1" "e1 = None" "token_stored i h (abs_pg d) (abs_pg d1)"
    using assms(3) by auto
  note 2 = pg.live_revoke [OF w1(1) st(2)] pg.revoke_token [OF w1(2) st(2)]
  then have w2: "pg_up d2" "pg_wf d2" "e2 = None" "token_revoked i (abs_pg d1) (abs_pg d2)" by auto
  have "as_tasks (abs_pg d2) i \<noteq> None" using w1(4) w2(4) by (simp add: token_stored_def token_revoked_def)
  with pg.live_token [OF w2(1) st(3)] pg.store_token [OF w2(2) st(3)]
  have w3: "pg_up d3" "pg_wf d3" "e3 = None" "token_stored i h2 (abs_pg d2) (abs_pg d3)" by auto
  show ?thesis
    using w1 w2 w3 ver [of d1] ver [of d2] ver [of d3]
    by (auto simp: token_valid_def token_stored_def token_revoked_def)
qed


text \<open>
  A listing of tasks is a page of all tasks of the asked state, each once, newest first: it
  starts at the offset and has no more than the limit (50 when none is given).
\<close>

lemma list_tasks_page:
  assumes "pg_wf d" and "pg_ListTasks f d = (Inr l, d')"
  shows "abs_pg d' = abs_pg d \<and>
    page_of (as_tasks (abs_pg d)) t_ID t_CreatedAt
      (\<lambda>t. case tf_State f of None \<Rightarrow> True | Some s \<Rightarrow> t_State t = s)
      (if tf_Limit f \<le> 0 then 50 else tf_Limit f) (tf_Offset f) (slice l)"
  using pg.list_tasks [OF assms(1), of f "Inr l" d'] assms(2) by (simp add: pg_store_def)


text \<open>
  Consecutive pages of one scan fit together: a page of \<open>m\<close> rows and the page of \<open>k\<close>
  rows after it are the page of \<open>m + k\<close> rows, with no row lost or repeated between them.
\<close>

lemma task_pages_fit:
  assumes "0 < m" and "0 < k" and "0 \<le> p"
    and "select_tasks \<lparr>tf_State = st, tf_Limit = m, tf_Offset = p\<rparr> n d = Inr l1"
    and "select_tasks \<lparr>tf_State = st, tf_Limit = k, tf_Offset = p + m\<rparr> n d = Inr l2"
    and "select_tasks \<lparr>tf_State = st, tf_Limit = m + k, tf_Offset = p\<rparr> n d = Inr l"
  shows "slice l1 @ slice l2 = slice l"
proof -
  let ?rs = "sort_key (\<lambda>r. - t_CreatedAt r)
    (filter (task_matches \<lparr>tf_State = st, tf_Limit = m, tf_Offset = p\<rparr>) (scan_rows (pg_scan_tasks d n) (pg_tasks d)))"
  have same: "task_matches \<lparr>tf_State = st, tf_Limit = a, tf_Offset = b\<rparr> =
      task_matches \<lparr>tf_State = st, tf_Limit = m, tf_Offset = p\<rparr>" for a b
    by (simp add: task_matches_def fun_eq_iff)
  have sel: "slice x = page (nat a) (nat b) ?rs"
    if "0 < a" "select_tasks \<lparr>tf_State = st, tf_Limit = a, tf_Offset = b\<rparr> n d = Inr x" for a b x
    using that by (auto simp: select_tasks_def order_page_def same [of a b] split: if_splits)
  have "slice l1 = page (nat m) (nat p) ?rs" "slice l2 = page (nat k) (nat p + nat m) ?rs"
    "slice l = page (nat m + nat k) (nat p) ?rs"
    using sel [OF _ assms(4)] sel [OF _ assms(5)] sel [OF _ assms(6)] assms(1-3)
    by (simp_all add: nat_add_distrib)
  then show ?thesis by (simp add: pages_append)
qed


text \<open>
  The migration cannot be run twice. After a run that succeeded, a second one fails on the
  first index although the database is up, and it changes nothing.
\<close>

lemma migrate_twice_fails:
  assumes "pg_up d" and "pg_Migrate d = (None, d1)"
  shows "\<exists>d2. pg_Migrate d1 =
    (Some (Errorf ''postgres: run migration: '' (duplicate_relation ''idx_tasks_state'') []), d2) \<and>
    pg_relations d2 = pg_relations d1 \<and> abs_pg d2 = abs_pg d1"
proof -
  have frame: "stmt_frame (migrate_stmt up_sql)"
    by (auto simp: stmt_frame_def migrate_stmt_def split: sum.splits)
  from assms obtain k where ex: "pg_Exec (migrate_stmt up_sql) d = (Inr k, d1)"
    by (auto simp: pg_Migrate_def split: prod.splits sum.splits)
  from pg_Exec_stays_up [OF assms(1) frame ex] have up1: "pg_up d1" .
  from ex have "run_ddl up_sql (pg_relations d) = Inr (pg_relations d1)"
    by (auto simp: pg_Exec_up [OF assms(1) frame] migrate_stmt_def split: sum.splits)
  then have "run_ddl up_sql (pg_relations d1) = Inl (duplicate_relation ''idx_tasks_state'')"
    by (rule up_sql_again)
  then show ?thesis
    by (simp add: pg_Migrate_def pg_Exec_up [OF up1 frame] migrate_stmt_def)
qed


end
