(* ===== verification/Policy.thy ===== *)
theory Policy
  imports Host Go_Float
begin

text \<open>
  The policy engine (\<open>internal/policy\<close>): rules in order, the first one whose conditions all
  hold decides. The conditions are a Go map; they are listed here in the order in which a
  range over the map happens to deliver them.
\<close>

record rule =
  ru_ID :: string
  ru_Action :: string
  ru_Conditions :: "(string \<times> string) list"

record policy_request =
  pr_Model :: string
  pr_User :: string
  pr_Team :: string
  pr_Tool :: string
  pr_CostUSD :: float64

record policy_file =
  pf_Rules :: "rule list"

record engine =
  en_rules :: "rule list"
  en_filePath :: string

text \<open>The field a condition key reads; \<open>None\<close> for an unknown key.\<close>

definition condition_field :: "policy_request \<Rightarrow> string \<Rightarrow> string option" where
  "condition_field req key =
     (if key = ''model'' then Some (pr_Model req)
      else if key = ''user'' then Some (pr_User req)
      else if key = ''team'' then Some (pr_Team req)
      else if key = ''tool'' then Some (pr_Tool req)
      else if key = ''cost_usd'' then Some (FormatFloat (pr_CostUSD req))
      else None)"

fun matchConditions :: "(string \<times> string) list \<Rightarrow> policy_request \<Rightarrow> bool" where
  "matchConditions [] req = True"
| "matchConditions ((key, expected) # cs) req =
     (case condition_field req key of
        None \<Rightarrow> False
      | Some actual \<Rightarrow> if actual \<noteq> expected then False else matchConditions cs req)"

definition matchRule :: "rule \<Rightarrow> policy_request \<Rightarrow> bool" where
  "matchRule r req = matchConditions (ru_Conditions r) req"

text \<open>\<open>Evaluate\<close> returns (allowed, ID of the denying rule, error).\<close>

definition unknown_action :: "rule \<Rightarrow> error" where
  "unknown_action r =
     NewError (''policy: unknown action '' @ quote (ru_Action r) @ '' in rule '' @ ru_ID r)"

definition apply_action :: "rule \<Rightarrow> bool \<times> string \<times> error option" where
  "apply_action r =
     (if ru_Action r = ''deny'' then (False, ru_ID r, None)
      else if ru_Action r = ''allow'' then (True, [], None)
      else (False, ru_ID r, Some (unknown_action r)))"

fun evaluate_rules :: "rule list \<Rightarrow> policy_request \<Rightarrow> bool \<times> string \<times> error option" where
  "evaluate_rules [] req = (True, [], None)"
| "evaluate_rules (r # rs) req =
     (if matchRule r req then apply_action r else evaluate_rules rs req)"

definition Evaluate :: "engine \<Rightarrow> policy_request \<Rightarrow> bool \<times> string \<times> error option" where
  "Evaluate e req = evaluate_rules (en_rules e) req"

subsection \<open>Loading\<close>

text \<open>
  The file system and the YAML parser are parameters: \<open>read\<close> is \<open>os.ReadFile\<close>, \<open>yaml\<close>
  is \<open>yaml.Unmarshal\<close> into a \<open>PolicyFile\<close>.
\<close>

definition LoadFromFile ::
  "(string \<Rightarrow> bytes result) \<Rightarrow> (bytes \<Rightarrow> policy_file result) \<Rightarrow> string \<Rightarrow> engine \<Rightarrow>
     error option \<times> engine" where
  "LoadFromFile read yaml path e =
     (case read path of
        Inl err \<Rightarrow> (Some (Errorf (''policy: read file '' @ path @ '': '') err []), e)
      | Inr data \<Rightarrow>
          (case yaml data of
             Inl err \<Rightarrow> (Some (Errorf (''policy: parse YAML '' @ path @ '': '') err []), e)
           | Inr pf \<Rightarrow> (None, e\<lparr>en_rules := pf_Rules pf, en_filePath := path\<rparr>)))"

definition NewEngine ::
  "(string \<Rightarrow> bytes result) \<Rightarrow> (bytes \<Rightarrow> policy_file result) \<Rightarrow> string \<Rightarrow> engine result" where
  "NewEngine read yaml path =
     (let e = \<lparr>en_rules = [], en_filePath = path\<rparr> in
      if path \<noteq> [] then
        (case LoadFromFile read yaml path e of
           (Some err, e') \<Rightarrow> Inl err
         | (None, e') \<Rightarrow> Inr e')
      else Inr e)"

definition Reload ::
  "(string \<Rightarrow> bytes result) \<Rightarrow> (bytes \<Rightarrow> policy_file result) \<Rightarrow> engine \<Rightarrow> error option \<times> engine" where
  "Reload read yaml e =
     (if en_filePath e = []
      then (Some (NewError ''policy: no file path configured for reload''), e)
      else LoadFromFile read yaml (en_filePath e) e)"

subsection \<open>Matching\<close>

lemma matchConditions_iff:
  "matchConditions cs req \<longleftrightarrow>
     (\<forall>(key, expected) \<in> set cs. condition_field req key = Some expected)"
  by (induction cs req rule: matchConditions.induct) (auto split: option.splits if_splits)

lemma matchRule_iff:
  "matchRule r req \<longleftrightarrow>
     (\<forall>(key, expected) \<in> set (ru_Conditions r). condition_field req key = Some expected)"
  by (simp add: matchRule_def matchConditions_iff)

lemma evaluate_rules_find:
  "evaluate_rules rs req =
     (case find (\<lambda>r. matchRule r req) rs of None \<Rightarrow> (True, [], None) | Some r \<Rightarrow> apply_action r)"
  by (induction rs) auto

lemma find_filter: "find P xs = (case filter P xs of [] \<Rightarrow> None | x # _ \<Rightarrow> Some x)"
  by (induction xs) auto

lemma matchRule_cong:
  assumes "set (ru_Conditions r) = set (ru_Conditions r')"
  shows "matchRule r req = matchRule r' req"
  using assms by (simp add: matchRule_iff)

subsection \<open>Properties\<close>

text \<open>
  C31: \<open>Evaluate\<close> is first-match-wins. It acts on the first rule all of whose conditions name
  a known field with the field's value, and allows the request when there is none.
\<close>

theorem evaluate_first_match:
  "Evaluate e req =
     (case filter (\<lambda>r. list_all (\<lambda>(key, expected). condition_field req key = Some expected) (ru_Conditions r))
             (en_rules e) of
        [] \<Rightarrow> (True, [], None)
      | r # _ \<Rightarrow>
          if ru_Action r = ''deny'' then (False, ru_ID r, None)
          else if ru_Action r = ''allow'' then (True, [], None)
          else (False, ru_ID r, Some (unknown_action r)))"
proof -
  have "matchRule r req = list_all (\<lambda>(key, expected). condition_field req key = Some expected) (ru_Conditions r)"
    for r
    by (simp add: matchRule_iff list_all_iff)
  then show ?thesis
    by (simp add: Evaluate_def evaluate_rules_find find_filter apply_action_def split: list.split)
qed

text \<open>
  C32: The order in which a range over a rule's conditions delivers them does not matter:
  rules that agree up to a permutation of their conditions decide alike.
\<close>

theorem evaluate_condition_order:
  assumes "list_all2 (\<lambda>r r'. ru_ID r = ru_ID r' \<and> ru_Action r = ru_Action r' \<and>
      mset (ru_Conditions r) = mset (ru_Conditions r')) (en_rules e) (en_rules e')"
  shows "Evaluate e req = Evaluate e' req"
proof -
  have "evaluate_rules rs req = evaluate_rules rs' req"
    if "list_all2 (\<lambda>r r'. ru_ID r = ru_ID r' \<and> ru_Action r = ru_Action r' \<and>
      mset (ru_Conditions r) = mset (ru_Conditions r')) rs rs'" for rs rs'
    using that
  proof (induction rule: list_all2_induct)
    case (Cons r rs r' rs')
    then have "matchRule r req = matchRule r' req"
      using matchRule_cong mset_eq_setD by blast
    with Cons show ?case by (simp add: apply_action_def unknown_action_def)
  qed simp
  with assms show ?thesis by (simp add: Evaluate_def)
qed

definition ex_request :: policy_request where
  "ex_request = \<lparr>pr_Model = ''gpt-4o'', pr_User = ''bob'', pr_Team = ''dev'', pr_Tool = [], pr_CostUSD = Fin (1/2)\<rparr>"

definition ex_rule :: "string \<Rightarrow> string \<Rightarrow> (string \<times> string) list \<Rightarrow> rule" where
  "ex_rule i a cs = \<lparr>ru_ID = i, ru_Action = a, ru_Conditions = cs\<rparr>"

theorem evaluate_condition_order_witness:
  "Evaluate \<lparr>en_rules = [ex_rule ''r'' ''deny'' [(''user'', ''bob''), (''team'', ''dev'')]], en_filePath = []\<rparr> ex_request =
   Evaluate \<lparr>en_rules = [ex_rule ''r'' ''deny'' [(''team'', ''dev''), (''user'', ''bob'')]], en_filePath = []\<rparr> ex_request"
  by (rule evaluate_condition_order) (simp add: ex_rule_def)

text \<open>
  A file of deny rules denies exactly the requests that one of its rules matches, and
  the rule it names is one that matches.
\<close>

lemma deny_rules_deny:
  assumes "list_all (\<lambda>r. ru_Action r = ''deny'') (en_rules e)"
  shows "fst (Evaluate e req) = (\<not> list_ex (\<lambda>r. matchRule r req) (en_rules e)) \<and>
    snd (snd (Evaluate e req)) = None \<and>
    (fst (Evaluate e req) \<or> fst (snd (Evaluate e req)) \<in> ru_ID ` set (filter (\<lambda>r. matchRule r req) (en_rules e)))"
proof -
  have "fst (evaluate_rules rs req) = (\<not> list_ex (\<lambda>r. matchRule r req) rs) \<and>
      snd (snd (evaluate_rules rs req)) = None \<and>
      (fst (evaluate_rules rs req) \<or>
       fst (snd (evaluate_rules rs req)) \<in> ru_ID ` set (filter (\<lambda>r. matchRule r req) rs))"
    if "list_all (\<lambda>r. ru_Action r = ''deny'') rs" for rs
    using that by (induction rs) (auto simp: apply_action_def)
  from this [OF assms] show ?thesis unfolding Evaluate_def .
qed


text \<open>
  An allow rule shadows every later deny rule, so a request that a deny rule matches can
  be allowed: the engine does not deny whenever any deny rule matches.
\<close>

lemma allow_shadows_deny:
  "\<exists>e. list_ex (\<lambda>r. ru_Action r = ''deny'' \<and> matchRule r ex_request) (en_rules e) \<and>
       Evaluate e ex_request = (True, [], None)"
proof
  let ?e = "\<lparr>en_rules = [ex_rule ''a'' ''allow'' [(''user'', ''bob'')], ex_rule ''d'' ''deny'' []], en_filePath = []\<rparr>"
  show "list_ex (\<lambda>r. ru_Action r = ''deny'' \<and> matchRule r ex_request) (en_rules ?e) \<and>
      Evaluate ?e ex_request = (True, [], None)"
    by (simp add: Evaluate_def matchRule_def condition_field_def apply_action_def ex_rule_def ex_request_def)
qed

text \<open>
  Loading is atomic. A failed load leaves the rules and the path as they were; a
  successful one installs the parsed rules, and a reload then reads the same path again.
\<close>

lemma load_atomic:
  assumes "LoadFromFile read yaml path e = (err, e')"
  shows "(case err of
      Some x \<Rightarrow> e' = e
    | None \<Rightarrow>
        (\<exists>data pf. read path = Inr data \<and> yaml data = Inr pf \<and> en_rules e' = pf_Rules pf) \<and>
        (path = [] \<or> Reload read' yaml' e' = LoadFromFile read' yaml' path e'))"
  using assms by (auto simp: LoadFromFile_def Reload_def split: sum.splits)


end
