(* ===== verification/Runtime_Registry.thy ===== *)
theory Runtime_Registry
  imports Domain
begin

text \<open>
  The interface \<open>runtime.Runtime\<close> and the plugin registry (\<open>internal/runtime/runtime.go\<close>).
  A runtime is a record of its methods over the state \<open>'w\<close> they act on. The registry is a
  Go map, an association list with one entry per name, in registration order; a range over
  it delivers an arbitrary permutation, given by a function.
\<close>

record handle =
  hd_RuntimeName :: string
  hd_ExternalID :: string

definition no_handle :: handle where
  "no_handle = \<lparr>hd_RuntimeName = [], hd_ExternalID = []\<rparr>"

record 'w runtime =
  rt_Name :: string
  rt_CallbackURL :: string
  rt_Dispatch :: "task \<Rightarrow> skill \<Rightarrow> 'w \<Rightarrow> handle result \<times> 'w"
  rt_Status :: "'w \<Rightarrow> (int \<times> int) result \<times> 'w"

text \<open>A factory reads the environment and the platform, both in the host.\<close>

type_synonym 'w factory = "host \<Rightarrow> 'w runtime result"
type_synonym 'w registry = "(string \<times> 'w factory) list"

text \<open>\<open>Register\<close> panics on a name that is taken: \<open>Inl\<close> the panic's text.\<close>

definition Register :: "string \<Rightarrow> 'w factory \<Rightarrow> 'w registry \<Rightarrow> string + 'w registry" where
  "Register name f reg =
     (case map_of reg name of
        Some _ \<Rightarrow> Inl (''runtime: duplicate registration for '' @ quote name)
      | None \<Rightarrow> Inr (reg @ [(name, f)]))"

fun build_loop ::
  "host \<Rightarrow> 'w registry \<Rightarrow> (string \<times> 'w runtime) list \<Rightarrow> (string \<times> 'w runtime) list result" where
  "build_loop h [] acc = Inr acc"
| "build_loop h ((name, f) # fs) acc =
     (case f h of
        Inl e \<Rightarrow> Inl (Errorf (''runtime: failed to build '' @ quote name @ '': '') e [])
      | Inr rt \<Rightarrow> build_loop h fs (acc @ [(name, rt)]))"

definition Build ::
  "('w registry \<Rightarrow> 'w registry) \<Rightarrow> host \<Rightarrow> 'w registry \<Rightarrow> (string \<times> 'w runtime) list result" where
  "Build ord h reg = build_loop h (scan_rows ord reg) []"

definition runtime_not_found :: "string \<Rightarrow> error" where
  "runtime_not_found name = Errorf [] (Sentinel ErrRuntimeNotFound) ('': '' @ quote name)"

definition Get_factory :: "string \<Rightarrow> 'w registry \<Rightarrow> 'w factory result" where
  "Get_factory name reg =
     (case map_of reg name of None \<Rightarrow> Inl (runtime_not_found name) | Some f \<Rightarrow> Inr f)"

subsection \<open>Registration\<close>

lemma Register_ok:
  "Register name f reg = Inr reg' \<Longrightarrow>
     name \<notin> fst ` set reg \<and> reg' = reg @ [(name, f)]"
  by (auto simp: Register_def map_of_eq_None_iff split: option.splits)

lemma Register_distinct:
  "Register name f reg = Inr reg' \<Longrightarrow> distinct (map fst reg) \<Longrightarrow> distinct (map fst reg')"
  by (auto dest!: Register_ok)

subsection \<open>Building\<close>

lemma build_loop_ok:
  "build_loop h fs acc = Inr rts \<longleftrightarrow>
     (\<exists>new. rts = acc @ new \<and> list_all2 (\<lambda>(n, f) (m, rt). n = m \<and> f h = Inr rt) fs new)"
proof (induction h fs acc rule: build_loop.induct)
  case (1 h acc)
  then show ?case by auto
next
  case (2 h name f fs acc)
  show ?case
  proof (cases "f h")
    case (Inl e)
    then show ?thesis by (auto simp: list_all2_Cons1)
  next
    case (Inr rt)
    with 2 show ?thesis by (auto simp: list_all2_Cons1)
  qed
qed

lemma build_loop_fails:
  "(\<exists>e. build_loop h fs acc = Inl e) \<longleftrightarrow> list_ex (\<lambda>(n, f). \<not> result_ok (f h)) fs"
proof (induction h fs acc rule: build_loop.induct)
  case (1 h acc)
  then show ?case by simp
next
  case (2 h name f fs acc)
  then show ?case by (cases "f h") simp_all
qed

lemma list_ex_scan_rows [simp]: "list_ex P (scan_rows ord xs) = list_ex P xs"
  by (simp add: list_ex_iff)

lemma Build_names:
  assumes "Build ord h reg = Inr rts"
  shows "mset (map fst rts) = mset (map fst reg)"
proof -
  from assms obtain new where n: "rts = new"
    and l: "list_all2 (\<lambda>(n, f) (m, rt). n = m \<and> f h = Inr rt) (scan_rows ord reg) new"
    by (auto simp: Build_def build_loop_ok)
  from l have "map fst (scan_rows ord reg) = map fst new"
    by (induction rule: list_all2_induct) auto
  then show ?thesis by (metis n mset_map mset_scan_rows)
qed

end
