(* ===== verification/Scheduler.thy ===== *)
theory Scheduler
  imports Runtime_Registry Go_Float "HOL-Library.Word"
begin

text \<open>
  The scheduler (\<open>internal/scheduler/scheduler.go\<close>): dispatch to the runtime a task names,
  and the two selection policies. The round-robin counter is an unsigned 64-bit word that
  wraps; loads are compared as \<open>float64\<close> quotients.
\<close>

record 'w scheduler =
  sc_runtimes :: "(string \<times> 'w runtime) list"
  sc_store :: "'w store"
  sc_rrNames :: "string list"
  sc_rrIndex :: "64 word"

text \<open>\<open>ord\<close> is the order in which the range over the map delivers its entries.\<close>

definition NewScheduler ::
  "((string \<times> 'w runtime) list \<Rightarrow> (string \<times> 'w runtime) list) \<Rightarrow>
     (string \<times> 'w runtime) list \<Rightarrow> 'w store \<Rightarrow> 'w scheduler" where
  "NewScheduler ord rts st =
     \<lparr>sc_runtimes = rts, sc_store = st, sc_rrNames = map fst (scan_rows ord rts), sc_rrIndex = 0\<rparr>"

text \<open>A Go call that returns a value together with an error: both are kept.\<close>

definition Dispatch ::
  "'w scheduler \<Rightarrow> task \<Rightarrow> skill \<Rightarrow> 'w \<Rightarrow> (handle \<times> error option) \<times> 'w" where
  "Dispatch s task skill w =
     (case map_of (sc_runtimes s) (t_Runtime task) of
        None \<Rightarrow> ((no_handle, Some (runtime_not_found (t_Runtime task))), w)
      | Some rt \<Rightarrow>
          (case rt_Dispatch rt task skill w of
             (Inl err, w1) \<Rightarrow>
               ((no_handle,
                 Some (Errorf (''scheduler: dispatch on '' @ quote (t_Runtime task) @ '': '') err [])),
                w1)
           | (Inr handle, w1) \<Rightarrow>
               (case UpdateTaskState (sc_store s) (t_ID task) TaskStateRunning w1 of
                  (Some err, w2) \<Rightarrow>
                    ((handle, Some (Errorf ''scheduler: update task state: '' err [])), w2)
                | (None, w2) \<Rightarrow> ((handle, None), w2))))"

subsection \<open>Selection\<close>

definition no_runtimes :: error where
  "no_runtimes = Errorf [] (Sentinel ErrRuntimeNotFound) '': no runtimes registered''"

definition none_available :: error where
  "none_available = Errorf [] (Sentinel ErrRuntimeUnavailable) '': no runtimes available''"

text \<open>\<open>rrIndex.Add(1) - 1\<close>, then the name at that index; a name without runtime reads nil.\<close>

definition selectRoundRobin :: "'w scheduler \<Rightarrow> 'w runtime option result \<times> 'w scheduler" where
  "selectRoundRobin s =
     (if length (sc_rrNames s) = 0 then (Inl no_runtimes, s)
      else
        let s' = s\<lparr>sc_rrIndex := sc_rrIndex s + 1\<rparr>;
            idx = sc_rrIndex s' - 1;
            name = sc_rrNames s ! unat (idx mod of_nat (length (sc_rrNames s)))
        in (Inr (map_of (sc_runtimes s) name), s'))"

text \<open>The loop over the runtimes with its running best.\<close>

fun lowest_loop ::
  "(string \<times> 'w runtime) list \<Rightarrow> 'w runtime option \<Rightarrow> rat \<Rightarrow> 'w \<Rightarrow> 'w runtime option \<times> 'w" where
  "lowest_loop [] bestRT bestRatio w = (bestRT, w)"
| "lowest_loop ((name, rt) # rts) bestRT bestRatio w =
     (case rt_Status rt w of
        (Inl err, w1) \<Rightarrow> lowest_loop rts bestRT bestRatio w1
      | (Inr (active, cap), w1) \<Rightarrow>
          if cap \<le> 0 then lowest_loop rts bestRT bestRatio w1
          else
            let ratio = fdiv (Go_Float.float64 active) (Go_Float.float64 cap) in
            if ratio < bestRatio then lowest_loop rts (Some rt) ratio w1
            else lowest_loop rts bestRT bestRatio w1)"

definition selectLowestLoad ::
  "((string \<times> 'w runtime) list \<Rightarrow> (string \<times> 'w runtime) list) \<Rightarrow> 'w scheduler \<Rightarrow> 'w \<Rightarrow>
     'w runtime option result \<times> 'w" where
  "selectLowestLoad ord s w =
     (if length (sc_runtimes s) = 0 then (Inl no_runtimes, w)
      else
        case lowest_loop (scan_rows ord (sc_runtimes s)) None 2 w of
          (None, w1) \<Rightarrow> (Inl none_available, w1)
        | (Some rt, w1) \<Rightarrow> (Inr (Some rt), w1))"

definition SelectRuntime ::
  "((string \<times> 'w runtime) list \<Rightarrow> (string \<times> 'w runtime) list) \<Rightarrow> string \<Rightarrow> 'w scheduler \<Rightarrow> 'w \<Rightarrow>
     'w runtime option result \<times> 'w scheduler \<times> 'w" where
  "SelectRuntime ord policy s w =
     (if policy = ''round-robin'' then
        (let (r, s') = selectRoundRobin s in (r, s', w))
      else if policy = ''lowest-load'' then
        (let (r, w') = selectLowestLoad ord s w in (r, s, w'))
      else
        case map_of (sc_runtimes s) policy of
          None \<Rightarrow> (Inl (runtime_not_found policy), s, w)
        | Some rt \<Rightarrow> (Inr (Some rt), s, w))"

subsection \<open>Round robin\<close>

text \<open>The first results of successive round-robin selections.\<close>

fun round_robin :: "nat \<Rightarrow> 'w scheduler \<Rightarrow> 'w runtime option result list" where
  "round_robin 0 s = []"
| "round_robin (Suc n) s = (let (r, s') = selectRoundRobin s in r # round_robin n s')"

lemma unat_mod_length:
  assumes "0 < n" and "n < 2 ^ 64"
  shows "unat ((idx :: 64 word) mod of_nat n) = unat idx mod n"
  using assms by (simp add: unat_mod unat_of_nat)

lemma selectRoundRobin_eq:
  assumes "sc_rrNames s \<noteq> []" and "length (sc_rrNames s) < 2 ^ 64"
  shows "selectRoundRobin s =
    (Inr (map_of (sc_runtimes s)
       (sc_rrNames s ! (unat (sc_rrIndex s) mod length (sc_rrNames s)))),
     s\<lparr>sc_rrIndex := sc_rrIndex s + 1\<rparr>)"
  using assms unat_mod_length [of "length (sc_rrNames s)" "sc_rrIndex s"]
  by (simp add: selectRoundRobin_def Let_def)

lemma round_robin_map:
  assumes "sc_rrNames s \<noteq> []" and "length (sc_rrNames s) < 2 ^ 64"
  shows "round_robin k s =
    map (\<lambda>j. Inr (map_of (sc_runtimes s)
           (sc_rrNames s ! (unat (sc_rrIndex s + of_nat j) mod length (sc_rrNames s))))) [0..<k]"
  using assms
proof (induction k arbitrary: s)
  case 0
  then show ?case by simp
next
  case (Suc k)
  let ?s = "s\<lparr>sc_rrIndex := sc_rrIndex s + 1\<rparr>"
  from Suc.IH [of ?s] Suc.prems show ?case
    by (simp add: selectRoundRobin_eq upt_conv_Cons map_Suc_upt [symmetric] add.assoc del: upt_Suc)
qed

text \<open>The index as a number: exact before the wrap, and in step across it for a divisor of \<open>2 ^ 64\<close>.\<close>

lemma index_mod:
  assumes "j < n" and "unat (i :: 64 word) + n \<le> 2 ^ 64 \<or> n dvd 2 ^ 64"
  shows "unat (i + of_nat j) mod n = (unat i + j) mod n"
proof -
  have "n \<le> 2 ^ 64" using assms(2) by (auto dest: dvd_imp_le)
  with assms(1) have "unat (of_nat j :: 64 word) = j" by (simp add: unat_of_nat)
  then have u: "unat (i + of_nat j) = (unat i + j) mod 2 ^ 64" by (simp add: unat_word_ariths)
  show ?thesis
  proof (cases "n dvd 2 ^ 64")
    case True
    then show ?thesis by (simp only: u mod_mod_cancel)
  next
    case False
    with assms have "unat i + j < 2 ^ 64" by linarith
    then show ?thesis by (simp only: u mod_less)
  qed
qed

lemma unat_last_index: "unat (- 1 :: 64 word) = 2 ^ 64 - 1"
  by (simp add: unat_eq_nat_uint uint_word_ariths)

lemma rotate_by_index:
  "xs \<noteq> [] \<Longrightarrow> map (\<lambda>j. xs ! ((i + j) mod length xs)) [0..<length xs] = rotate i xs"
  by (rule nth_equalityI) (simp_all add: nth_rotate)

subsection \<open>Lowest load\<close>

text \<open>
  What the runtimes report when they are asked one after the other, each in the world the one
  before has left: a load, or none for an error or a capacity that does not count.
\<close>

definition load_in :: "(int \<times> int) result \<Rightarrow> rat option" where
  "load_in st =
     (case st of Inl err \<Rightarrow> None
      | Inr (active, cap) \<Rightarrow>
          if cap \<le> 0 then None else Some (fdiv (Go_Float.float64 active) (Go_Float.float64 cap)))"

fun polled :: "(string \<times> 'w runtime) list \<Rightarrow> 'w \<Rightarrow> ('w runtime \<times> rat option) list \<times> 'w" where
  "polled [] w = ([], w)"
| "polled ((n, rt) # rts) w =
     (let (st, w1) = rt_Status rt w; (ps, w2) = polled rts w1 in ((rt, load_in st) # ps, w2))"

lemma polled_runtimes: "map fst (fst (polled rts w)) = map snd rts"
  by (induction rts arbitrary: w) (auto split: prod.splits, metis fst_conv)

text \<open>The first of the reports with the least load below \<open>b\<close>.\<close>

definition least_below :: "rat \<Rightarrow> ('w runtime \<times> rat option) list \<Rightarrow> 'w runtime \<Rightarrow> bool" where
  "least_below b ps rt \<longleftrightarrow>
     (\<exists>i x. i < length ps \<and> ps ! i = (rt, Some x) \<and> x < b \<and>
        (\<forall>j y. j < length ps \<longrightarrow> snd (ps ! j) = Some y \<longrightarrow> x \<le> y \<and> (j < i \<longrightarrow> x < y)))"

definition none_below :: "rat \<Rightarrow> ('w runtime \<times> rat option) list \<Rightarrow> bool" where
  "none_below b ps \<longleftrightarrow> (\<forall>x \<in> set ps. case snd x of None \<Rightarrow> True | Some y \<Rightarrow> b \<le> y)"

lemma none_below_nth: "none_below b ps \<Longrightarrow> j < length ps \<Longrightarrow> snd (ps ! j) = Some y \<Longrightarrow> b \<le> y"
  by (auto simp: none_below_def dest!: nth_mem split: option.splits)

lemma least_below_here:
  assumes "x < b" and "none_below x ps"
  shows "least_below b ((rt, Some x) # ps) rt"
proof -
  have "x \<le> y" if "j < Suc (length ps)" "snd (((rt, Some x) # ps) ! j) = Some y" for j y
    using that none_below_nth [OF assms(2)] by (cases j) auto
  with assms(1) show ?thesis
    unfolding least_below_def by (intro exI [of _ 0] exI [of _ x]) simp
qed

lemma least_below_later:
  assumes "least_below b ps rt" and "case snd p of None \<Rightarrow> True | Some y \<Rightarrow> b \<le> y" and "b \<le> b'"
  shows "least_below b' (p # ps) rt"
proof -
  from assms(1) obtain i x where i: "i < length ps" "ps ! i = (rt, Some x)" "x < b"
    and least: "\<And>j y. j < length ps \<Longrightarrow> snd (ps ! j) = Some y \<Longrightarrow> x \<le> y \<and> (j < i \<longrightarrow> x < y)"
    unfolding least_below_def by blast
  have "x \<le> y \<and> (j < Suc i \<longrightarrow> x < y)" if "j < Suc (length ps)" "snd ((p # ps) ! j) = Some y" for j y
  proof (cases j)
    case 0
    with that assms(2) i(3) show ?thesis by auto
  next
    case (Suc k)
    with that least show ?thesis by simp
  qed
  with i assms(3) show ?thesis
    unfolding least_below_def by (intro exI [of _ "Suc i"] exI [of _ x]) auto
qed

lemma none_below_Cons:
  "none_below b ps \<Longrightarrow> (case snd p of None \<Rightarrow> True | Some y \<Rightarrow> b \<le> y) \<Longrightarrow> none_below b (p # ps)"
  by (simp add: none_below_def)

lemma lowest_loop_spec:
  "snd (lowest_loop rts b br w) = snd (polled rts w) \<and>
    (fst (lowest_loop rts b br w) = b \<and> none_below br (fst (polled rts w)) \<or>
     (\<exists>rt. fst (lowest_loop rts b br w) = Some rt \<and> least_below br (fst (polled rts w)) rt))"
proof (induction rts arbitrary: b br w)
  case Nil
  then show ?case by (simp add: none_below_def)
next
  case (Cons nr rts)
  obtain n rt where nr: "nr = (n, rt)" by (cases nr)
  obtain st w1 where st: "rt_Status rt w = (st, w1)" by (cases "rt_Status rt w")
  obtain ps w2 where ps: "polled rts w1 = (ps, w2)" by (metis prod.exhaust)
  have poll: "polled (nr # rts) w = ((rt, load_in st) # ps, w2)" by (simp add: nr st ps)
  show ?case
  proof (cases "\<exists>x. load_in st = Some x \<and> x < br")
    case True
    then obtain x where x: "load_in st = Some x" "x < br" by blast
    then have step: "lowest_loop (nr # rts) b br w = lowest_loop rts (Some rt) x w1"
      by (auto simp: nr st load_in_def Let_def split: sum.splits prod.splits if_splits)
    show ?thesis unfolding step poll
      using Cons.IH [of "Some rt" x w1] x ps least_below_here [of x br ps rt]
        least_below_later [of x ps _ "(rt, Some x)" br] by auto
  next
    case False
    then have here: "case load_in st of None \<Rightarrow> True | Some y \<Rightarrow> br \<le> y" by (auto split: option.splits)
    have step: "lowest_loop (nr # rts) b br w = lowest_loop rts b br w1"
      using False by (auto simp: nr st load_in_def Let_def split: sum.splits prod.splits if_splits)
    show ?thesis unfolding step poll
      using Cons.IH [of b br w1] here ps none_below_Cons [of br ps "(rt, load_in st)"]
        least_below_later [of br ps _ "(rt, load_in st)" br] by auto
  qed
qed

lemma lowest_load_cases:
  assumes "sc_runtimes s \<noteq> []" and "selectLowestLoad ord s w = (r, w')"
    and "polled (scan_rows ord (sc_runtimes s)) w = (ps, w2)"
  shows "w' = w2 \<and> (r = Inl none_available \<and> none_below 2 ps \<or> (\<exists>rt. r = Inr (Some rt) \<and> least_below 2 ps rt))"
  using assms lowest_loop_spec [of "scan_rows ord (sc_runtimes s)" None 2 w]
  by (auto simp: selectLowestLoad_def split: prod.splits option.splits)

subsection \<open>Properties\<close>

text \<open>
  C33: Round robin is fair. As many selections as there are runtimes return each of them once, in
  the order of the names and starting at the counter's position, as long as the 64-bit counter
  does not wrap among them, and across the wrap too when the number of runtimes divides
  \<open>2 ^ 64\<close>.
\<close>

theorem round_robin_fair:
  assumes "sc_rrNames s \<noteq> []" and "length (sc_rrNames s) < 2 ^ 64"
    and "unat (sc_rrIndex s) + length (sc_rrNames s) \<le> 2 ^ 64 \<or> length (sc_rrNames s) dvd 2 ^ 64"
  shows "round_robin (length (sc_rrNames s)) s =
    map (\<lambda>n. Inr (map_of (sc_runtimes s) n)) (rotate (unat (sc_rrIndex s)) (sc_rrNames s))"
proof -
  have "round_robin (length (sc_rrNames s)) s =
    map (\<lambda>j. Inr (map_of (sc_runtimes s)
           (sc_rrNames s ! ((unat (sc_rrIndex s) + j) mod length (sc_rrNames s))))) [0..<length (sc_rrNames s)]"
    using assms by (simp add: round_robin_map index_mod)
  also have "\<dots> = map (\<lambda>n. Inr (map_of (sc_runtimes s) n))
      (map (\<lambda>j. sc_rrNames s ! ((unat (sc_rrIndex s) + j) mod length (sc_rrNames s))) [0..<length (sc_rrNames s)])"
    by (simp add: comp_def)
  finally show ?thesis by (simp only: rotate_by_index [OF assms(1)])
qed

definition ex_runtime :: "string \<Rightarrow> int \<Rightarrow> int \<Rightarrow> unit runtime" where
  "ex_runtime n active cap =
     \<lparr>rt_Name = n, rt_CallbackURL = [], rt_Dispatch = \<lambda>t sk w. (Inl Canceled, w),
      rt_Status = \<lambda>w. (Inr (active, cap), w)\<rparr>"

definition ex_scheduler :: "unit store \<Rightarrow> (string \<times> unit runtime) list \<Rightarrow> 64 word \<Rightarrow> unit scheduler" where
  "ex_scheduler st rts i = \<lparr>sc_runtimes = rts, sc_store = st, sc_rrNames = map fst rts, sc_rrIndex = i\<rparr>"

theorem round_robin_fair_witness:
  "\<forall>st. round_robin 2 (ex_scheduler st [(''a'', ex_runtime ''a'' 0 5), (''b'', ex_runtime ''b'' 1 5)] (- 1)) =
    [Inr (Some (ex_runtime ''b'' 1 5)), Inr (Some (ex_runtime ''a'' 0 5))]"
proof
  fix st
  let ?s = "ex_scheduler st [(''a'', ex_runtime ''a'' 0 5), (''b'', ex_runtime ''b'' 1 5)] (- 1)"
  have names: "sc_rrNames ?s = [''a'', ''b'']" and idx: "unat (sc_rrIndex ?s) = 2 ^ 64 - 1"
    by (simp_all add: ex_scheduler_def unat_last_index)
  have len: "length [''a'', ''b''] = 2" by simp
  have rot: "rotate (2 ^ 64 - 1) [''a'', ''b''] = [''b'', ''a'']"
    unfolding rotate_drop_take len by simp
  have "round_robin (length (sc_rrNames ?s)) ?s =
    map (\<lambda>n. Inr (map_of (sc_runtimes ?s) n)) (rotate (unat (sc_rrIndex ?s)) (sc_rrNames ?s))"
    by (rule round_robin_fair) (simp_all only: names len, simp_all)
  then have "round_robin 2 ?s = map (\<lambda>n. Inr (map_of (sc_runtimes ?s) n)) [''b'', ''a'']"
    unfolding idx names rot len .
  also have "\<dots> = [Inr (Some (ex_runtime ''b'' 1 5)), Inr (Some (ex_runtime ''a'' 0 5))]"
    by (simp add: ex_scheduler_def)
  finally show "round_robin 2 ?s = [Inr (Some (ex_runtime ''b'' 1 5)), Inr (Some (ex_runtime ''a'' 0 5))]" .
qed

text \<open>With three runtimes the wrap repeats one: the last index and the first have the same remainder.\<close>

lemma round_robin_repeats:
  assumes "length (sc_rrNames s) = 3" and "sc_rrIndex s = - 1"
  shows "round_robin 2 s = replicate 2 (Inr (map_of (sc_runtimes s) (sc_rrNames s ! 0)))"
proof -
  have last: "unat (- 1 :: 64 word) mod 3 = 0" unfolding unat_last_index by simp
  have two: "[0..<2] = [0, Suc 0]" by (simp add: upt_rec)
  have "sc_rrNames s \<noteq> []" using assms(1) by auto
  then have "round_robin 2 s = map (\<lambda>j. Inr (map_of (sc_runtimes s) (sc_rrNames s ! (unat (- 1 + of_nat j :: 64 word) mod 3)))) [0..<2]"
    using assms round_robin_map [of s 2] by simp
  also have "\<dots> = replicate 2 (Inr (map_of (sc_runtimes s) (sc_rrNames s ! 0)))"
    unfolding two by (simp add: last numeral_2_eq_2)
  finally show ?thesis .
qed

text \<open>
  A runtime that reports twice its capacity or more is never selected: when all of them
  do (or report nothing that counts) the scheduler says that none is available, although
  each of them answers.
\<close>

lemma overloaded_unavailable:
  assumes "sc_runtimes s \<noteq> []" and "none_below 2 (fst (polled (scan_rows ord (sc_runtimes s)) w))"
  shows "fst (selectLowestLoad ord s w) = Inl none_available"
proof -
  obtain ps w2 where p: "polled (scan_rows ord (sc_runtimes s)) w = (ps, w2)" by (metis prod.exhaust)
  obtain r w' where r: "selectLowestLoad ord s w = (r, w')" by (metis prod.exhaust)
  have "\<not> least_below 2 ps rt" for rt
    using assms(2) p none_below_nth [of 2 ps] by (fastforce simp: least_below_def)
  with lowest_load_cases [OF assms(1) r p] r show ?thesis by auto
qed

end
