(* ===== verification/Sha256.thy ===== *)
theory Sha256
  imports Prelude "HOL-Library.Word"
begin

unbundle bit_operations_syntax

text \<open>
  The parts of \<open>crypto/sha256\<close> and \<open>crypto/hmac\<close> that the source calls: \<open>sha256.Sum256\<close>
  for agent tokens and \<open>hmac.New(sha256.New, key)\<close> for Slack signatures, as the standards
  FIPS 180-4 and RFC 2104 define them, on 32-bit words that wrap.
\<close>

text \<open>The 32 leading bits of the fractional parts of the cube roots of the first 64 primes.\<close>

definition sha_K :: "32 word list" where
  "sha_K =
     [1116352408, 1899447441, 3049323471, 3921009573, 961987163, 1508970993,
      2453635748, 2870763221, 3624381080, 310598401, 607225278, 1426881987,
      1925078388, 2162078206, 2614888103, 3248222580, 3835390401, 4022224774,
      264347078, 604807628, 770255983, 1249150122, 1555081692, 1996064986,
      2554220882, 2821834349, 2952996808, 3210313671, 3336571891, 3584528711,
      113926993, 338241895, 666307205, 773529912, 1294757372, 1396182291,
      1695183700, 1986661051, 2177026350, 2456956037, 2730485921, 2820302411,
      3259730800, 3345764771, 3516065817, 3600352804, 4094571909, 275423344,
      430227734, 506948616, 659060556, 883997877, 958139571, 1322822218,
      1537002063, 1747873779, 1955562222, 2024104815, 2227730452, 2361852424,
      2428436474, 2756734187, 3204031479, 3329325298]"

definition rotr :: "nat \<Rightarrow> 32 word \<Rightarrow> 32 word" where
  "rotr n x = (drop_bit n x OR push_bit (32 - n) x)"

subsection \<open>Words and bytes\<close>

definition be_word :: "bytes \<Rightarrow> 32 word" where
  "be_word bs = foldl (\<lambda>acc c. acc * 256 + of_nat (of_char c)) 0 bs"

definition be_bytes :: "nat \<Rightarrow> int \<Rightarrow> bytes" where
  "be_bytes k n = map (\<lambda>i. char_of (n div 256 ^ i)) (rev [0..<k])"

fun chunks :: "nat \<Rightarrow> 'a list \<Rightarrow> 'a list list" where
  "chunks n xs = (if n = 0 \<or> xs = [] then [] else take n xs # chunks n (drop n xs))"

declare chunks.simps [simp del]

text \<open>A one bit, zeros, and the length in bits as 64 bits: a multiple of 64 bytes.\<close>

definition sha_pad :: "bytes \<Rightarrow> bytes" where
  "sha_pad msg =
     msg @ [char_of (128::nat)] @ replicate ((119 - length msg mod 64) mod 64) (char_of (0::nat))
       @ be_bytes 8 (8 * int (length msg) mod 2 ^ 64)"

subsection \<open>Compression\<close>

fun sha_schedule :: "nat \<Rightarrow> 32 word list \<Rightarrow> 32 word list" where
  "sha_schedule 0 ws = ws"
| "sha_schedule (Suc k) ws =
     (let n = length ws;
          w15 = ws ! (n - 15);
          w2 = ws ! (n - 2);
          s0 = rotr 7 w15 XOR rotr 18 w15 XOR drop_bit 3 w15;
          s1 = rotr 17 w2 XOR rotr 19 w2 XOR drop_bit 10 w2
      in sha_schedule k (ws @ [ws ! (n - 16) + s0 + ws ! (n - 7) + s1]))"

type_synonym sha_state = "32 word \<times> 32 word \<times> 32 word \<times> 32 word \<times> 32 word \<times> 32 word \<times> 32 word \<times> 32 word"

definition sha_init :: sha_state where
  "sha_init =
     (0x6a09e667, 0xbb67ae85, 0x3c6ef372, 0xa54ff53a,
      0x510e527f, 0x9b05688c, 0x1f83d9ab, 0x5be0cd19)"

definition sha_round :: "sha_state \<Rightarrow> 32 word \<times> 32 word \<Rightarrow> sha_state" where
  "sha_round st kw =
     (case st of (a, b, c, d, e, f, g, h) \<Rightarrow>
        let S1 = rotr 6 e XOR rotr 11 e XOR rotr 25 e;
            ch = (e AND f) XOR (NOT e AND g);
            t1 = h + S1 + ch + fst kw + snd kw;
            S0 = rotr 2 a XOR rotr 13 a XOR rotr 22 a;
            maj = (a AND b) XOR (a AND c) XOR (b AND c)
        in (t1 + (S0 + maj), a, b, c, d + t1, e, f, g))"

definition sha_add :: "sha_state \<Rightarrow> sha_state \<Rightarrow> sha_state" where
  "sha_add x y =
     (case x of (a, b, c, d, e, f, g, h) \<Rightarrow>
      case y of (a', b', c', d', e', f', g', h') \<Rightarrow>
        (a + a', b + b', c + c', d + d', e + e', f + f', g + g', h + h'))"

definition sha_block :: "sha_state \<Rightarrow> bytes \<Rightarrow> sha_state" where
  "sha_block st block =
     (let ws = sha_schedule 48 (map be_word (chunks 4 block))
      in sha_add st (foldl sha_round st (zip sha_K ws)))"

definition sha_output :: "sha_state \<Rightarrow> bytes" where
  "sha_output st =
     (case st of (a, b, c, d, e, f, g, h) \<Rightarrow>
        concat (map (\<lambda>w. be_bytes 4 (uint w)) [a, b, c, d, e, f, g, h]))"

definition Sum256 :: "bytes \<Rightarrow> bytes" where
  "Sum256 msg = sha_output (foldl sha_block sha_init (chunks 64 (sha_pad msg)))"

subsection \<open>HMAC\<close>

definition hmac_key :: "bytes \<Rightarrow> bytes" where
  "hmac_key key =
     (let k = (if length key > 64 then Sum256 key else key)
      in k @ replicate (64 - length k) (char_of (0::nat)))"

definition xor_byte :: "nat \<Rightarrow> char \<Rightarrow> char" where
  "xor_byte n c = char_of (n XOR of_char c)"

definition hmac_sha256 :: "bytes \<Rightarrow> bytes \<Rightarrow> bytes" where
  "hmac_sha256 key msg =
     Sum256 (map (xor_byte 92) (hmac_key key) @ Sum256 (map (xor_byte 54) (hmac_key key) @ msg))"

subsection \<open>Lengths\<close>

lemma length_be_bytes [simp]: "length (be_bytes k n) = k"
  by (simp add: be_bytes_def)

lemma length_Sum256 [simp]: "length (Sum256 msg) = 32"
  by (simp add: Sum256_def sha_output_def split: prod.split)

lemma length_hmac_sha256 [simp]: "length (hmac_sha256 key msg) = 32"
  by (simp add: hmac_sha256_def)

lemma length_sha_pad: "64 dvd length (sha_pad msg)"
proof -
  define r where "r = length msg mod 64"
  have "r < 64" by (simp add: r_def)
  then have pad: "(119 - r) mod 64 = (if r \<le> 55 then 55 - r else 119 - r)"
    by (cases "r \<le> 55") (simp_all add: le_mod_geq)
  have len: "length (sha_pad msg) = length msg + (9 + (119 - r) mod 64)"
    unfolding sha_pad_def r_def
    by (simp only: length_append length_replicate length_be_bytes list.size add.assoc)
  have "(length msg + (9 + (119 - r) mod 64)) mod 64 = (r + (9 + (119 - r) mod 64)) mod 64"
    unfolding r_def by (rule mod_add_left_eq [symmetric])
  also have "r + (9 + (119 - r) mod 64) = (if r \<le> 55 then 64 else 128)"
    unfolding pad using \<open>r < 64\<close> by (cases "r \<le> 55") simp_all
  finally have "length (sha_pad msg) mod 64 = 0" unfolding len by simp
  then show ?thesis by (rule mod_0_imp_dvd)
qed

end
