(* ===== verification/Task_Service.thy ===== *)
theory Task_Service
  imports Store_Contract Policy Scheduler Sha256
begin

text \<open>
  The task creation pipeline of \<open>internal/api/taskservice.go\<close>: skill lookup, policy, the
  task's row, the agent token, dispatch, and the rollback when dispatch fails. Its state is
  the world; the store and the runtimes are given by their interfaces. Log output is left
  out.
\<close>

record 'w server =
  sv_store :: "'w store"
  sv_scheduler :: "'w scheduler option"
  sv_policy :: "engine option"

definition NewServer :: "'w store \<Rightarrow> 'w scheduler option \<Rightarrow> engine option \<Rightarrow> 'w server" where
  "NewServer st sched pol = \<lparr>sv_store = st, sv_scheduler = sched, sv_policy = pol\<rparr>"

record create_task_request =
  ctr_SkillName :: string
  ctr_Parameters :: json_map
  ctr_Runtime :: string
  ctr_User :: string
  ctr_Team :: string
  ctr_DeadlineSecs :: int

record create_task_result =
  res_TaskID :: string
  res_Runtime :: string
  res_ExternalID :: string
  res_Token :: string

text \<open>\<open>IsPolicyDenied\<close> is \<open>errors.As\<close>: the first denial in the chain of wrapped errors.\<close>

fun IsPolicyDenied :: "error \<Rightarrow> string option" where
  "IsPolicyDenied (PolicyDeniedError r) = Some r"
| "IsPolicyDenied (Errorf a e b) = IsPolicyDenied e"
| "IsPolicyDenied e = None"

subsection \<open>The steps of the pipeline\<close>

definition skill_not_found :: "string \<Rightarrow> error" where
  "skill_not_found name = NewError (''skill '' @ quote name @ '' not found'')"

text \<open>The request the engine sees; the tool is empty and the cost is zero.\<close>

definition policy_request_of :: "create_task_request \<Rightarrow> skill \<Rightarrow> policy_request" where
  "policy_request_of req sk =
     \<lparr>pr_Model = (case slice (sk_RequiredModels sk) of [] \<Rightarrow> [] | m # _ \<Rightarrow> m),
      pr_User = ctr_User req, pr_Team = ctr_Team req, pr_Tool = [], pr_CostUSD = Fin 0\<rparr>"

definition policy_check :: "engine option \<Rightarrow> create_task_request \<Rightarrow> skill \<Rightarrow> error option" where
  "policy_check pol req sk =
     (case pol of
        None \<Rightarrow> None
      | Some e \<Rightarrow>
          (case Evaluate e (policy_request_of req sk) of
             (allowed, ruleID, Some err) \<Rightarrow> Some (Errorf ''policy evaluation failed: '' err [])
           | (allowed, ruleID, None) \<Rightarrow>
               if \<not> allowed then Some (PolicyDeniedError ruleID) else None))"

text \<open>The zero \<open>time.Time\<close>, the first of January of year 1.\<close>

definition zero_time :: go_time where
  "zero_time = - 62135596800000000000"

definition new_task :: "create_task_request \<Rightarrow> skill \<Rightarrow> string \<Rightarrow> go_time \<Rightarrow> task" where
  "new_task req sk taskID now =
     \<lparr>t_ID = taskID, t_SkillName = ctr_SkillName req, t_Parameters = ctr_Parameters req,
      t_PolicyContext = \<lparr>pc_User = ctr_User req, pc_Team = ctr_Team req,
                         pc_ModelAllowed = sk_RequiredModels sk\<rparr>,
      t_Runtime = (if ctr_Runtime req = [] then ''local'' else ctr_Runtime req),
      t_State = TaskStatePending, t_CreatedAt = now, t_UpdatedAt = zero_time,
      t_DeadlineSecs = (if ctr_DeadlineSecs req \<le> 0 then 300 else ctr_DeadlineSecs req)\<rparr>"

text \<open>The agent token: 32 random bytes in hex, stored as the SHA-256 of that text.\<close>

definition issue_token ::
  "'x world_scheme store \<Rightarrow> string \<Rightarrow> 'x world_scheme \<Rightarrow> string result \<times> 'x world_scheme" where
  "issue_token st taskID w =
     (case with_host (rand_Read 32) w of
        ((tokenBytes, Some err), w1) \<Rightarrow> (Inl (Errorf ''failed to generate token: '' err []), w1)
      | ((tokenBytes, None), w1) \<Rightarrow>
          (let tokenStr = EncodeToString tokenBytes in
           case StoreAgentToken st taskID (Sum256 tokenStr) w1 of
             (Some err, w2) \<Rightarrow> (Inl (Errorf ''failed to store agent token: '' err []), w2)
           | (None, w2) \<Rightarrow> (Inr tokenStr, w2)))"

text \<open>Both rollback writes are tried; their errors are logged and dropped.\<close>

definition rollback :: "'w store \<Rightarrow> string \<Rightarrow> 'w \<Rightarrow> 'w" where
  "rollback st taskID w =
     (let (_, w1) = UpdateTaskState st taskID TaskStateFailed w;
          (_, w2) = RevokeAgentToken st taskID w1
      in w2)"

definition dispatch_created ::
  "'w server \<Rightarrow> task \<Rightarrow> skill \<Rightarrow> create_task_result \<Rightarrow> 'w \<Rightarrow> create_task_result result \<times> 'w" where
  "dispatch_created s t sk res w =
     (case sv_scheduler s of
        None \<Rightarrow> (Inr res, w)
      | Some sched \<Rightarrow>
          (case Dispatch sched t sk w of
             ((_, Some err), w1) \<Rightarrow>
               (Inl (Errorf ''dispatch failed (task rolled back): '' err []),
                rollback (sv_store s) (t_ID t) w1)
           | ((hdl, None), w1) \<Rightarrow>
               (Inr (res\<lparr>res_ExternalID := hd_ExternalID hdl, res_Runtime := hd_RuntimeName hdl\<rparr>), w1)))"

definition Server_CreateTask ::
  "'x world_scheme server \<Rightarrow> create_task_request \<Rightarrow> 'x world_scheme \<Rightarrow>
     create_task_result result \<times> 'x world_scheme" where
  "Server_CreateTask s req w =
     (case GetSkill (sv_store s) (ctr_SkillName req) w of
        (Inl err, w1) \<Rightarrow> (Inl (Errorf ''failed to lookup skill: '' err []), w1)
      | (Inr None, w1) \<Rightarrow> (Inl (skill_not_found (ctr_SkillName req)), w1)
      | (Inr (Some sk), w1) \<Rightarrow>
          (case policy_check (sv_policy s) req sk of
             Some err \<Rightarrow> (Inl err, w1)
           | None \<Rightarrow>
               (let (taskID, w2) = generateID ''task'' w1;
                    (now, w3) = with_host Now w2;
                    t = new_task req sk taskID now
                in case CreateTask (sv_store s) t w3 of
                     (Some err, w4) \<Rightarrow> (Inl (Errorf ''failed to create task: '' err []), w4)
                   | (None, w4) \<Rightarrow>
                       (case issue_token (sv_store s) taskID w4 of
                          (Inl err, w5) \<Rightarrow> (Inl err, w5)
                        | (Inr tokenStr, w5) \<Rightarrow>
                            dispatch_created s t sk
                              \<lparr>res_TaskID = taskID, res_Runtime = t_Runtime t,
                               res_ExternalID = [], res_Token = tokenStr\<rparr> w5))))"

text \<open>The run of a creation that succeeds.\<close>

lemma CreateTask_run:
  assumes "Server_CreateTask s req w = (Inr res, w')"
  obtains sk w1 i w2 now w3 t w4 tok w5 where
    "GetSkill (sv_store s) (ctr_SkillName req) w = (Inr (Some sk), w1)"
    "policy_check (sv_policy s) req sk = None"
    "generateID ''task'' w1 = (i, w2)" "with_host Now w2 = (now, w3)"
    "t = new_task req sk i now"
    "CreateTask (sv_store s) t w3 = (None, w4)"
    "issue_token (sv_store s) i w4 = (Inr tok, w5)"
    "dispatch_created s t sk
       \<lparr>res_TaskID = i, res_Runtime = t_Runtime t, res_ExternalID = [], res_Token = tok\<rparr> w5 = (Inr res, w')"
  using assms
  by (auto simp: Server_CreateTask_def Let_def split: prod.splits sum.splits option.splits)

lemma new_task_sel [simp]:
  "t_ID (new_task req sk i now) = i"
  "t_SkillName (new_task req sk i now) = ctr_SkillName req"
  "t_State (new_task req sk i now) = TaskStatePending"
  "t_Runtime (new_task req sk i now) = (if ctr_Runtime req = [] then ''local'' else ctr_Runtime req)"
  by (simp_all add: new_task_def)

subsection \<open>What a call leaves alone\<close>

definition only_task :: "string \<Rightarrow> abs_store \<Rightarrow> abs_store \<Rightarrow> bool" where
  "only_task i a a' \<longleftrightarrow>
     as_skills a' = as_skills a \<and> as_events a' = as_events a \<and>
     (\<forall>j. j \<noteq> i \<longrightarrow> as_tasks a' j = as_tasks a j \<and> as_tokens a' j = as_tokens a j)"

lemma only_task_refl [simp]: "only_task i a a"
  by (simp add: only_task_def)

lemma only_task_trans [trans]: "only_task i a b \<Longrightarrow> only_task i b c \<Longrightarrow> only_task i a c"
  by (simp add: only_task_def)

lemma only_task_effects:
  "task_created t a a' \<Longrightarrow> only_task (t_ID t) a a'"
  "state_updated i s a a' \<Longrightarrow> only_task i a a'"
  "token_stored i h a a' \<Longrightarrow> only_task i a a'"
  "token_revoked i a a' \<Longrightarrow> only_task i a a'"
  by (auto simp: only_task_def task_created_def state_updated_def token_stored_def token_revoked_def
      split: option.splits)

lemma only_task_wrote:
  "(\<And>b. R a b \<Longrightarrow> only_task i a b) \<Longrightarrow> wrote err R a a' \<Longrightarrow> only_task i a a'"
  by (auto simp: wrote_def)

text \<open>A task that was created and rolled back: failed, its token revoked, nothing else changed.\<close>

definition rolled_back :: "string \<Rightarrow> abs_store \<Rightarrow> abs_store \<Rightarrow> bool" where
  "rolled_back i a a' \<longleftrightarrow>
     as_tasks a i = None \<and> only_task i a a' \<and>
     map_option t_State (as_tasks a' i) = Some TaskStateFailed \<and>
     map_option snd (as_tokens a' i) = Some True"

text \<open>The error of a token that could not be stored.\<close>

definition token_lost :: "error \<Rightarrow> error" where
  "token_lost e = Errorf ''failed to store agent token: '' e []"

subsection \<open>The interface of a runtime\<close>

locale runtime_contract =
  fixes rt :: "'w runtime"
    and view :: "'w \<Rightarrow> abs_store"
    and wf :: "'w \<Rightarrow> bool"
    and up :: "'w \<Rightarrow> bool"
  assumes dispatch_view: "rt_Dispatch rt t sk w = (r, w') \<Longrightarrow> view w' = view w"
    and dispatch_wf: "wf w \<Longrightarrow> rt_Dispatch rt t sk w = (r, w') \<Longrightarrow> wf w'"
    and dispatch_up: "up w \<Longrightarrow> rt_Dispatch rt t sk w = (r, w') \<Longrightarrow> up w'"

subsection \<open>The pipeline over the interfaces\<close>

locale task_service = live_store "sv_store s" view wf up
  for s :: "'x world_scheme server" and view :: "'x world_scheme \<Rightarrow> abs_store"
    and wf :: "'x world_scheme \<Rightarrow> bool" and up :: "'x world_scheme \<Rightarrow> bool" +
  assumes host_view: "view (w\<lparr>w_host := h\<rparr>) = view w"
    and host_wf: "wf (w\<lparr>w_host := h\<rparr>) = wf w"
    and host_up: "up (w\<lparr>w_host := h\<rparr>) = up w"
    and same_store: "sv_scheduler s = Some sched \<Longrightarrow> sc_store sched = sv_store s"
    and runtimes:
      "sv_scheduler s = Some sched \<Longrightarrow> map_of (sc_runtimes sched) n = Some rt \<Longrightarrow>
         runtime_contract rt view wf up"
begin

lemma host_step:
  "with_host f w = (x, w') \<Longrightarrow> view w' = view w \<and> (wf w' \<longleftrightarrow> wf w) \<and> (up w' \<longleftrightarrow> up w)"
  by (auto simp: with_host_pair host_view host_wf host_up)

lemma generateID_step:
  "generateID p w = (x, w') \<Longrightarrow> view w' = view w \<and> (wf w' \<longleftrightarrow> wf w) \<and> (up w' \<longleftrightarrow> up w)"
  using host_step by (fastforce simp: generateID_def split: prod.splits)

lemma issue_token_ok:
  assumes "wf w" and "issue_token (sv_store s) i w = (Inr tok, w')"
  shows "wf w' \<and> token_stored i (Sum256 tok) (view w) (view w')"
proof -
  from assms(2) obtain bs w1 where h: "with_host (rand_Read 32) w = ((bs, None), w1)"
    and st: "StoreAgentToken (sv_store s) i (Sum256 tok) w1 = (None, w')"
    by (auto simp: issue_token_def Let_def split: prod.splits option.splits)
  from host_step [OF h] assms(1) store_token [OF _ st] show ?thesis by auto
qed

lemma issue_token_live:
  assumes "wf w" and "up w" and "as_tasks (view w) i \<noteq> None"
    and "issue_token (sv_store s) i w = (r, w')"
  shows "wf w' \<and> up w' \<and>
    (\<exists>tok. r = Inr tok \<and> token_stored i (Sum256 tok) (view w) (view w'))"
proof -
  obtain bs w1 where h: "with_host (rand_Read 32) w = ((bs, None), w1)"
    by (auto simp: with_host_def rand_Read_def)
  note 1 = host_step [OF h]
  obtain e2 w2 where st: "StoreAgentToken (sv_store s) i (Sum256 (EncodeToString bs)) w1 = (e2, w2)"
    by (metis prod.exhaust)
  have "e2 = None" and "up w2" using live_token [OF _ st] 1 assms by auto
  with assms h 1 st store_token [OF _ st] show ?thesis
    by (auto simp: issue_token_def Let_def)
qed

text \<open>A token that is not stored leaves the tasks alone.\<close>

lemma issue_token_error:
  assumes "wf w" and "issue_token (sv_store s) i w = (Inl err, w')"
  shows "wf w' \<and> (\<exists>e. err = token_lost e) \<and> as_tasks (view w') = as_tasks (view w)"
proof -
  obtain bs w1 where h: "with_host (rand_Read 32) w = ((bs, None), w1)"
    by (auto simp: with_host_def rand_Read_def)
  with assms(2) obtain e where st: "StoreAgentToken (sv_store s) i (Sum256 (EncodeToString bs)) w1 = (Some e, w')"
    and err: "err = token_lost e"
    by (auto simp: issue_token_def Let_def token_lost_def split: prod.splits option.splits)
  from host_step [OF h] assms(1) store_token [OF _ st] err show ?thesis
    by (auto simp: wrote_def token_stored_def)
qed

lemma Dispatch_ok:
  assumes "sv_scheduler s = Some sched" and "wf w" and "Dispatch sched t sk w = ((h, None), w')"
  shows "wf w' \<and> state_updated (t_ID t) TaskStateRunning (view w) (view w')"
proof -
  from assms(3) obtain rt r w1 where rt: "map_of (sc_runtimes sched) (t_Runtime t) = Some rt"
    and d: "rt_Dispatch rt t sk w = (r, w1)"
    and u: "UpdateTaskState (sv_store s) (t_ID t) TaskStateRunning w1 = (None, w')"
    using same_store [OF assms(1)]
    by (auto simp: Dispatch_def split: option.splits prod.splits sum.splits)
  note rc = runtimes [OF assms(1) rt]
  from runtime_contract.dispatch_wf [OF rc assms(2) d] runtime_contract.dispatch_view [OF rc d]
    update_state [OF _ u]
  show ?thesis by auto
qed

lemma Dispatch_live:
  assumes "sv_scheduler s = Some sched" and "wf w" and "up w"
    and "Dispatch sched t sk w = ((h, err), w')"
  shows "wf w' \<and> up w' \<and>
    wrote (Some x) (state_updated (t_ID t) TaskStateRunning) (view w) (view w')"
proof (cases "map_of (sc_runtimes sched) (t_Runtime t)")
  case None
  with assms show ?thesis by (simp add: Dispatch_def wrote_def)
next
  case (Some rt)
  note rc = runtimes [OF assms(1) Some]
  obtain r w1 where d: "rt_Dispatch rt t sk w = (r, w1)" by (metis prod.exhaust)
  note dd = runtime_contract.dispatch_wf [OF rc assms(2) d] runtime_contract.dispatch_view [OF rc d]
    runtime_contract.dispatch_up [OF rc assms(3) d]
  obtain e w2 where u: "UpdateTaskState (sv_store s) (t_ID t) TaskStateRunning w1 = (e, w2)"
    by (metis prod.exhaust)
  note uu = update_state [OF dd(1) u] live_update [OF dd(3) u]
  show ?thesis
  proof (cases r)
    case (Inl x)
    with assms(4) Some d have "w' = w1" by (simp add: Dispatch_def)
    with dd show ?thesis by (simp add: wrote_def)
  next
    case (Inr hd')
    with assms(4) Some d u same_store [OF assms(1)] have "w' = w2"
      by (auto simp: Dispatch_def split: option.splits)
    with uu dd show ?thesis by (auto simp: wrote_def)
  qed
qed

text \<open>A new row with its token, before it is dispatched.\<close>

lemma issued_row:
  assumes "task_created t a b" and "token_stored (t_ID t) h b d"
  shows "as_tasks a (t_ID t) = None" and "only_task (t_ID t) a d" and "token_valid d (t_ID t) h"
    and "\<exists>c u. as_tasks d (t_ID t) = Some (t\<lparr>t_CreatedAt := c, t_UpdatedAt := u\<rparr>)"
proof -
  show "only_task (t_ID t) a d"
    using only_task_effects(1) [OF assms(1)] only_task_effects(3) [OF assms(2)] by (rule only_task_trans)
  from assms obtain c u where "as_tasks d (t_ID t) = Some (t\<lparr>t_CreatedAt := c, t_UpdatedAt := u\<rparr>)"
    by (auto simp: task_created_def token_stored_def)
  then show "\<exists>c u. as_tasks d (t_ID t) = Some (t\<lparr>t_CreatedAt := c, t_UpdatedAt := u\<rparr>)" by blast
qed (use assms in \<open>auto simp: task_created_def token_stored_def token_valid_def\<close>)

lemma dispatch_created_ok:
  assumes "wf w" and "dispatch_created s t sk res w = (Inr res', w')"
  shows "wf w' \<and> res_TaskID res' = res_TaskID res \<and> res_Token res' = res_Token res \<and>
    (if sv_scheduler s = None then view w' = view w
     else state_updated (t_ID t) TaskStateRunning (view w) (view w'))"
proof (cases "sv_scheduler s")
  case None
  with assms show ?thesis by (simp add: dispatch_created_def)
next
  case (Some sched)
  with assms(2) obtain hdl where "Dispatch sched t sk w = ((hdl, None), w')"
    and "res_TaskID res' = res_TaskID res" "res_Token res' = res_Token res"
    by (auto simp: dispatch_created_def split: prod.splits option.splits)
  with Dispatch_ok [OF Some assms(1)] Some show ?thesis by auto
qed

text \<open>A created task: what the answer promises about the store.\<close>

lemma create_success:
  assumes "wf w" and "Server_CreateTask s req w = (Inr res, w')"
  shows "wf w' \<and> as_tasks (view w) (res_TaskID res) = None \<and> only_task (res_TaskID res) (view w) (view w') \<and>
    (\<exists>sk now c u. as_skills (view w) (ctr_SkillName req) = Some sk \<and> policy_check (sv_policy s) req sk = None \<and>
       as_tasks (view w') (res_TaskID res) = Some ((new_task req sk (res_TaskID res) now)
         \<lparr>t_State := if sv_scheduler s = None then TaskStatePending else TaskStateRunning,
          t_CreatedAt := c, t_UpdatedAt := u\<rparr>)) \<and>
    token_valid (view w') (res_TaskID res) (Sum256 (res_Token res))"
proof -
  obtain sk w1 i w2 now w3 t w4 tok w5
    where g: "GetSkill (sv_store s) (ctr_SkillName req) w = (Inr (Some sk), w1)"
      and pol: "policy_check (sv_policy s) req sk = None"
      and gen: "generateID ''task'' w1 = (i, w2)" and clock: "with_host Now w2 = (now, w3)"
      and t: "t = new_task req sk i now"
      and c: "CreateTask (sv_store s) t w3 = (None, w4)"
      and it: "issue_token (sv_store s) i w4 = (Inr tok, w5)"
      and d: "dispatch_created s t sk
        \<lparr>res_TaskID = i, res_Runtime = t_Runtime t, res_ExternalID = [], res_Token = tok\<rparr> w5 = (Inr res, w')"
    using assms(2) by (rule CreateTask_run)
  from get_skill [OF assms(1) g] have w1: "wf w1" "view w1 = view w"
    and sk: "as_skills (view w) (ctr_SkillName req) = Some sk" by auto
  from generateID_step [OF gen] host_step [OF clock] w1 have w3: "wf w3" "view w3 = view w" by auto
  from create_task [OF w3(1) c] w3 have w4: "wf w4" "task_created t (view w) (view w4)" by auto
  from issue_token_ok [OF w4(1) it] t have w5: "wf w5" "token_stored (t_ID t) (Sum256 tok) (view w4) (view w5)"
    by auto
  note row = issued_row [OF w4(2) w5(2)]
  from row(4) obtain c u where pend: "as_tasks (view w5) i = Some (t\<lparr>t_CreatedAt := c, t_UpdatedAt := u\<rparr>)"
    using t by auto
  from dispatch_created_ok [OF w5(1) d] t have out: "wf w'" "res_TaskID res = i" "res_Token res = tok"
    and eff: "if sv_scheduler s = None then view w' = view w5
      else state_updated i TaskStateRunning (view w5) (view w')" by auto
  have "\<exists>c u. as_tasks (view w') i = Some (t
      \<lparr>t_State := if sv_scheduler s = None then TaskStatePending else TaskStateRunning, t_CreatedAt := c, t_UpdatedAt := u\<rparr>)"
    using eff pend by (auto simp: t new_task_def state_updated_def)
  moreover have "only_task i (view w) (view w')"
    using eff row(2) only_task_effects(2) [of i] only_task_trans t by (auto split: if_splits)
  moreover have "token_valid (view w') i (Sum256 tok)"
    using eff row(3) t by (auto simp: state_updated_def token_valid_def split: if_splits)
  moreover have "as_tasks (view w) i = None" using row(1) t by simp
  ultimately show ?thesis using sk pol unfolding out t by (simp only: out(1)) blast
qed

text \<open>A refusal by the policy happens before anything is written.\<close>

lemma create_refused:
  assumes "wf w" and "Server_CreateTask s req w = (r, w')" and "result_ok (fst (GetSkill (sv_store s) (ctr_SkillName req) w))"
    and "as_skills (view w) (ctr_SkillName req) = Some sk"
    and "policy_check (sv_policy s) req sk = Some err"
  shows "r = Inl err \<and> wf w' \<and> view w' = view w"
proof -
  obtain g w1 where g: "GetSkill (sv_store s) (ctr_SkillName req) w = (g, w1)" by (metis prod.exhaust)
  from get_skill [OF assms(1) g] assms(3,4) g
  have "g = Inr (Some sk)" "wf w1" "view w1 = view w" by auto
  with assms(2,5) g show ?thesis by (simp add: Server_CreateTask_def)
qed

lemma rollback_live:
  assumes "wf w" and "up w" and "as_tasks (view w) i \<noteq> None" and "as_tokens (view w) i \<noteq> None"
  shows "wf (rollback (sv_store s) i w) \<and> only_task i (view w) (view (rollback (sv_store s) i w)) \<and>
    map_option t_State (as_tasks (view (rollback (sv_store s) i w)) i) = Some TaskStateFailed \<and>
    map_option snd (as_tokens (view (rollback (sv_store s) i w)) i) = Some True"
proof -
  obtain e1 w1 where u: "UpdateTaskState (sv_store s) i TaskStateFailed w = (e1, w1)"
    by (metis prod.exhaust)
  obtain e2 w2 where r: "RevokeAgentToken (sv_store s) i w1 = (e2, w2)" by (metis prod.exhaust)
  have "TaskStateFailed \<in> set task_states" by (simp add: task_states_def)
  with live_update [OF assms(2) u] assms(3) have 1: "e1 = None" "up w1" by auto
  with update_state [OF assms(1) u] have 2: "wf w1" "state_updated i TaskStateFailed (view w) (view w1)"
    by auto
  from live_revoke [OF 1(2) r] revoke_token [OF 2(1) r]
  have 3: "wf w2" "token_revoked i (view w1) (view w2)" by auto
  have "only_task i (view w) (view w2)"
    using only_task_effects(2) [OF 2(2)] only_task_effects(4) [OF 3(2)] by (rule only_task_trans)
  then show ?thesis
    using u r 2 3 assms(4) by (auto simp: rollback_def state_updated_def token_revoked_def split: option.splits)
qed

text \<open>Whatever its outcome, a call keeps the store well formed, and a database that is up, up.\<close>

lemma issue_token_keeps:
  assumes "issue_token (sv_store s) i w = (r, w')"
  shows "(wf w \<longrightarrow> wf w') \<and> (up w \<longrightarrow> up w')"
proof -
  obtain bs e w1 where h: "with_host (rand_Read 32) w = ((bs, e), w1)" by (metis prod.exhaust)
  obtain e2 w2 where st: "StoreAgentToken (sv_store s) i (Sum256 (EncodeToString bs)) w1 = (e2, w2)"
    by (metis prod.exhaust)
  have "w' = w1 \<or> w' = w2"
    using assms h st by (auto simp: issue_token_def Let_def split: option.splits)
  with host_step [OF h] store_token [OF _ st] live_token [OF _ st] show ?thesis by auto
qed

lemma Dispatch_keeps:
  assumes "sv_scheduler s = Some sched" and "Dispatch sched t sk w = (x, w')"
  shows "(wf w \<longrightarrow> wf w') \<and> (up w \<longrightarrow> up w')"
proof (cases "map_of (sc_runtimes sched) (t_Runtime t)")
  case None
  with assms show ?thesis by (simp add: Dispatch_def)
next
  case (Some rt)
  note rc = runtimes [OF assms(1) Some]
  obtain r w1 where d: "rt_Dispatch rt t sk w = (r, w1)" by (metis prod.exhaust)
  obtain e w2 where u: "UpdateTaskState (sv_store s) (t_ID t) TaskStateRunning w1 = (e, w2)"
    by (metis prod.exhaust)
  have "w' = w1 \<or> w' = w2"
    using assms(2) Some d u same_store [OF assms(1)]
    by (auto simp: Dispatch_def split: sum.splits option.splits)
  with runtime_contract.dispatch_wf [OF rc _ d] runtime_contract.dispatch_up [OF rc _ d]
    update_state [OF _ u] live_update [OF _ u]
  show ?thesis by auto
qed

lemma rollback_keeps:
  "(wf w \<longrightarrow> wf (rollback (sv_store s) i w)) \<and> (up w \<longrightarrow> up (rollback (sv_store s) i w))"
proof -
  obtain e1 w1 where u: "UpdateTaskState (sv_store s) i TaskStateFailed w = (e1, w1)"
    by (metis prod.exhaust)
  obtain e2 w2 where r: "RevokeAgentToken (sv_store s) i w1 = (e2, w2)" by (metis prod.exhaust)
  from u r have "rollback (sv_store s) i w = w2" by (simp add: rollback_def)
  with update_state [OF _ u] live_update [OF _ u] revoke_token [OF _ r] live_revoke [OF _ r]
  show ?thesis by auto
qed

lemma dispatch_created_keeps:
  assumes "dispatch_created s t sk res w = (r, w')"
  shows "(wf w \<longrightarrow> wf w') \<and> (up w \<longrightarrow> up w')"
proof (cases "sv_scheduler s")
  case None
  with assms show ?thesis by (simp add: dispatch_created_def)
next
  case (Some sched)
  obtain h e w1 where d: "Dispatch sched t sk w = ((h, e), w1)" by (metis prod.exhaust)
  with assms Some have "w' = w1 \<or> w' = rollback (sv_store s) (t_ID t) w1"
    by (auto simp: dispatch_created_def split: option.splits)
  with Dispatch_keeps [OF Some d] rollback_keeps [of w1 "t_ID t"] show ?thesis by auto
qed

lemma create_keeps:
  assumes "Server_CreateTask s req w = (r, w')"
  shows "(wf w \<longrightarrow> wf w') \<and> (up w \<longrightarrow> up w')"
proof -
  obtain g w1 where g: "GetSkill (sv_store s) (ctr_SkillName req) w = (g, w1)" by (metis prod.exhaust)
  have k1: "(wf w \<longrightarrow> wf w1) \<and> (up w \<longrightarrow> up w1)"
    using get_skill [OF _ g] live_get_skill [OF _ g] by auto
  show ?thesis
  proof (cases "\<exists>sk. g = Inr (Some sk) \<and> policy_check (sv_policy s) req sk = None")
    case False
    with assms g have "w' = w1"
      by (auto simp: Server_CreateTask_def split: sum.splits option.splits)
    with k1 show ?thesis by simp
  next
    case True
    then obtain sk where sk: "g = Inr (Some sk)" and pol: "policy_check (sv_policy s) req sk = None" by blast
    obtain i w2 where gen: "generateID ''task'' w1 = (i, w2)" by (metis prod.exhaust)
    obtain now w3 where clock: "with_host Now w2 = (now, w3)" by (metis prod.exhaust)
    obtain e w4 where c: "CreateTask (sv_store s) (new_task req sk i now) w3 = (e, w4)" by (metis prod.exhaust)
    obtain tok w5 where it: "issue_token (sv_store s) i w4 = (tok, w5)" by (metis prod.exhaust)
    have k4: "(wf w \<longrightarrow> wf w4) \<and> (up w \<longrightarrow> up w4)"
      using k1 generateID_step [OF gen] host_step [OF clock] create_task [OF _ c] live_create [OF _ c] by auto
    note k5 = issue_token_keeps [OF it]
    show ?thesis
    proof (cases "e = None \<and> (\<exists>x. tok = Inr x)")
      case False
      with assms g sk pol gen clock c it have "w' = w4 \<or> w' = w5"
        by (auto simp: Server_CreateTask_def Let_def split: sum.splits option.splits)
      with k4 k5 show ?thesis by auto
    next
      case True
      then obtain x where x: "e = None" "tok = Inr x" by blast
      from assms g sk pol gen clock c it x
      have "dispatch_created s (new_task req sk i now) sk
          \<lparr>res_TaskID = i, res_Runtime = t_Runtime (new_task req sk i now), res_ExternalID = [], res_Token = x\<rparr> w5 =
        (r, w')"
        by (simp add: Server_CreateTask_def)
      from dispatch_created_keeps [OF this] k4 k5 show ?thesis by auto
    qed
  qed
qed

text \<open>
  A failing call either changed nothing, or got as far as the task's row and failed at the
  token or at the dispatch.
\<close>

lemma create_reaches:
  assumes "wf w" and "up w" and "Server_CreateTask s req w = (Inl err, w')"
  obtains (refused) "view w' = view w"
  | (inserted) sk t w4 where "wf w4" and "up w4" and "task_created t (view w) (view w4)" and "t_State t = TaskStatePending"
      and "(case issue_token (sv_store s) (t_ID t) w4 of (Inl err, w5) \<Rightarrow> (Inl err, w5)
          | (Inr tok, w5) \<Rightarrow> dispatch_created s t sk
               \<lparr>res_TaskID = t_ID t, res_Runtime = t_Runtime t, res_ExternalID = [], res_Token = tok\<rparr> w5) = (Inl err, w')"
proof -
  obtain g w1 where g: "GetSkill (sv_store s) (ctr_SkillName req) w = (g, w1)" by (metis prod.exhaust)
  note get = get_skill [OF assms(1) g] live_get_skill [OF assms(2) g]
  from get obtain found where found: "g = Inr found" by (cases g) auto
  show thesis
  proof (cases "\<exists>sk. found = Some sk \<and> policy_check (sv_policy s) req sk = None")
    case False
    with assms(3) g found have "w' = w1" by (auto simp: Server_CreateTask_def split: option.splits)
    with get refused show thesis by simp
  next
    case True
    then obtain sk where sk: "found = Some sk" and pol: "policy_check (sv_policy s) req sk = None" by blast
    obtain i w2 where gen: "generateID ''task'' w1 = (i, w2)" by (metis prod.exhaust)
    obtain now w3 where clock: "with_host Now w2 = (now, w3)" by (metis prod.exhaust)
    define t where "t = new_task req sk i now"
    obtain e4 w4 where c: "CreateTask (sv_store s) t w3 = (e4, w4)" by (metis prod.exhaust)
    from generateID_step [OF gen] host_step [OF clock] get
    have w3: "wf w3" "up w3" "view w3 = view w" by auto
    note w4 = create_task [OF w3(1) c] live_create [OF w3(2) c]
    have i: "i = t_ID t" by (simp add: t_def)
    have run: "(case e4 of Some err \<Rightarrow> (Inl (Errorf ''failed to create task: '' err []), w4)
       | None \<Rightarrow> (case issue_token (sv_store s) i w4 of (Inl err, w5) \<Rightarrow> (Inl err, w5)
          | (Inr tok, w5) \<Rightarrow> dispatch_created s t sk
               \<lparr>res_TaskID = i, res_Runtime = t_Runtime t, res_ExternalID = [], res_Token = tok\<rparr> w5)) = (Inl err, w')"
      using g found sk pol gen clock c assms(3) unfolding t_def by (simp add: Server_CreateTask_def Let_def)
    show thesis
    proof (cases e4)
      case (Some x)
      with live_create_err [OF w3(2)] c run w3 refused show thesis by auto
    next
      case None
      with w4 w3 run [unfolded i] inserted [of w4 t sk] show thesis by (simp add: t_def)
    qed
  qed
qed

text \<open>A dispatch that fails is rolled back.\<close>

lemma dispatch_rolled_back:
  assumes "wf w" and "up w" and "as_tasks a (t_ID t) = None" and "only_task (t_ID t) a (view w)"
    and "as_tasks (view w) (t_ID t) \<noteq> None" and "as_tokens (view w) (t_ID t) \<noteq> None"
    and "dispatch_created s t sk res w = (Inl err, w')"
  shows "rolled_back (t_ID t) a (view w')"
proof -
  let ?i = "t_ID t"
  from assms(7) obtain sched hdl x w6
    where sc: "sv_scheduler s = Some sched" and D: "Dispatch sched t sk w = ((hdl, Some x), w6)"
      and w': "w' = rollback (sv_store s) ?i w6"
    by (auto simp: dispatch_created_def split: option.splits prod.splits)
  from Dispatch_live [OF sc assms(1,2) D]
  have w6: "wf w6" "up w6" "wrote (Some x) (state_updated ?i TaskStateRunning) (view w) (view w6)" by auto
  from w6(3) assms(5,6) have ex6: "as_tasks (view w6) ?i \<noteq> None" "as_tokens (view w6) ?i \<noteq> None"
    by (auto simp: wrote_def state_updated_def)
  have "only_task ?i (view w) (view w6)"
    by (rule only_task_wrote [OF only_task_effects(2) w6(3)])
  with assms(4) have "only_task ?i a (view w6)" by (rule only_task_trans)
  with rollback_live [OF w6(1,2) ex6] assms(3) show ?thesis
    using only_task_trans unfolding rolled_back_def w' by blast
qed

text \<open>
  While the database answers, a call that fails leaves the store as it was or leaves one
  failed task with a revoked token.
\<close>

lemma create_failure:
  assumes "wf w" and "up w" and "Server_CreateTask s req w = (Inl err, w')"
  shows "view w' = view w \<or> (\<exists>i. rolled_back i (view w) (view w'))"
proof (cases rule: create_reaches [OF assms])
  case 1
  then show ?thesis by simp
next
  case (2 sk t w4)
  from 2(3) have ex: "as_tasks (view w) (t_ID t) = None" "as_tasks (view w4) (t_ID t) \<noteq> None"
    by (auto simp: task_created_def)
  obtain r w5 where it: "issue_token (sv_store s) (t_ID t) w4 = (r, w5)" by (metis prod.exhaust)
  from issue_token_live [OF 2(1,2) ex(2) it] obtain tok where r: "r = Inr tok"
    and st: "token_stored (t_ID t) (Sum256 tok) (view w4) (view w5)" and up5: "wf w5" "up w5" by auto
  have only: "only_task (t_ID t) (view w) (view w5)"
    using only_task_effects(1) [OF 2(3)] only_task_effects(3) [OF st] by (rule only_task_trans)
  from st ex have "as_tasks (view w5) (t_ID t) \<noteq> None" "as_tokens (view w5) (t_ID t) \<noteq> None"
    by (auto simp: token_stored_def)
  from dispatch_rolled_back [OF up5 ex(1) only this] 2(5) it r show ?thesis by fastforce
qed

text \<open>A call that fails because the token could not be stored leaves its task behind.\<close>

lemma create_token_lost:
  assumes "wf w" and "Server_CreateTask s req w = (Inl (token_lost e), w')"
  shows "wf w' \<and> (\<exists>i t. as_tasks (view w) i = None \<and> as_tasks (view w') i = Some t \<and> t_State t = TaskStatePending)"
proof -
  have other: "policy_check (sv_policy s) req sk \<noteq> Some (token_lost e)" for sk
    by (auto simp: policy_check_def token_lost_def split: option.splits prod.splits if_splits)
  from assms(2) obtain sk w1 i w2 now w3 t w4
    where g: "GetSkill (sv_store s) (ctr_SkillName req) w = (Inr (Some sk), w1)"
      and gen: "generateID ''task'' w1 = (i, w2)" and clock: "with_host Now w2 = (now, w3)"
      and t: "t = new_task req sk i now"
      and c: "CreateTask (sv_store s) t w3 = (None, w4)"
      and it: "issue_token (sv_store s) i w4 = (Inl (token_lost e), w')"
    using other
    by (auto simp: Server_CreateTask_def token_lost_def skill_not_found_def dispatch_created_def Let_def
        split: prod.splits sum.splits option.splits)
  from get_skill [OF assms(1) g] have w1: "wf w1" "view w1 = view w" by auto
  from generateID_step [OF gen] host_step [OF clock] w1 have w3: "wf w3" "view w3 = view w" by auto
  from create_task [OF w3(1) c] w3 have w4: "wf w4" "task_created t (view w) (view w4)" by auto
  from issue_token_error [OF w4(1) it] have "wf w'" "as_tasks (view w') = as_tasks (view w4)" by auto
  with w4(2) t show ?thesis by (auto simp: task_created_def)
qed

end

end
