(* ===== verification/Go_Json.thy ===== *)
theory Go_Json
  imports Domain Go_Float
begin

text \<open>
  What the source uses of \<open>encoding/json\<close>. The scanner reads one byte at a time, with a stack
  of the arrays and objects it is in, as the one of the library does, and builds the value
  on the way. Strings are UTF-8; what is no UTF-8 is replaced by U+FFFD. A number is kept as
  its literal.
\<close>

subsection \<open>Runes\<close>

definition byte :: "char \<Rightarrow> nat" where
  "byte c = of_char c"

text \<open>Continuation bytes, and the second byte after each first byte of three or four.\<close>

definition cont_byte :: "char \<Rightarrow> bool" where
  "cont_byte c \<longleftrightarrow> 128 \<le> byte c \<and> byte c \<le> 191"

definition second_byte :: "char \<Rightarrow> char \<Rightarrow> bool" where
  "second_byte c d \<longleftrightarrow>
     (if byte c = 224 then 160 \<le> byte d \<and> byte d \<le> 191
      else if byte c = 237 then 128 \<le> byte d \<and> byte d \<le> 159
      else if byte c = 240 then 144 \<le> byte d \<and> byte d \<le> 191
      else if byte c = 244 then 128 \<le> byte d \<and> byte d \<le> 143
      else cont_byte d)"

text \<open>The length of the encoded rune at the front of a string; \<open>0\<close> where there is none.\<close>

fun rune_len :: "string \<Rightarrow> nat" where
  "rune_len [] = 0"
| "rune_len (c # cs) =
     (if byte c < 128 then 1
      else if 194 \<le> byte c \<and> byte c \<le> 223 then
        (case cs of d # ds \<Rightarrow> if cont_byte d then 2 else 0 | [] \<Rightarrow> 0)
      else if 224 \<le> byte c \<and> byte c \<le> 239 then
        (case cs of d # e # es \<Rightarrow> if second_byte c d \<and> cont_byte e then 3 else 0 | _ \<Rightarrow> 0)
      else if 240 \<le> byte c \<and> byte c \<le> 244 then
        (case cs of d # e # f # fs \<Rightarrow> if second_byte c d \<and> cont_byte e \<and> cont_byte f then 4 else 0 | _ \<Rightarrow> 0)
      else 0)"

definition encode_rune :: "nat \<Rightarrow> string" where
  "encode_rune r =
     byte_string
       (if r < 128 then [r]
        else if r < 2048 then [192 + r div 64, 128 + r mod 64]
        else if r < 65536 then [224 + r div 4096, 128 + r div 64 mod 64, 128 + r mod 64]
        else [240 + r div 262144, 128 + r div 4096 mod 64, 128 + r div 64 mod 64, 128 + r mod 64])"

definition replacement :: string where
  "replacement = byte_string [239, 191, 189]"

lemma rune_len_le: "rune_len s \<le> length s"
  by (cases s) (auto split: list.splits)

lemma rune_len_pos: "rune_len (c # cs) \<noteq> 0 \<or> 128 \<le> byte c"
  by auto

subsection \<open>String literals\<close>

definition hex_val :: "char \<Rightarrow> nat option" where
  "hex_val c =
     (let n = byte c in
      if 48 \<le> n \<and> n \<le> 57 then Some (n - 48)
      else if 97 \<le> n \<and> n \<le> 102 then Some (n - 87)
      else if 65 \<le> n \<and> n \<le> 70 then Some (n - 55)
      else None)"

definition hex4 :: "string \<Rightarrow> nat" where
  "hex4 ds = foldl (\<lambda>acc d. 16 * acc + (case hex_val d of None \<Rightarrow> 0 | Some v \<Rightarrow> v)) 0 ds"

definition escape_of :: "char \<Rightarrow> char" where
  "escape_of d =
     (if d = CHR ''b'' then char_of (8::nat) else if d = CHR ''f'' then char_of (12::nat)
      else if d = CHR ''n'' then char_of (10::nat) else if d = CHR ''r'' then char_of (13::nat)
      else if d = CHR ''t'' then char_of (9::nat) else d)"

definition high_surrogate :: "nat \<Rightarrow> bool" where "high_surrogate r \<longleftrightarrow> 0xD800 \<le> r \<and> r < 0xDC00"
definition low_surrogate :: "nat \<Rightarrow> bool" where "low_surrogate r \<longleftrightarrow> 0xDC00 \<le> r \<and> r < 0xE000"

text \<open>After \<open>\u\<close>: one escaped code unit, or the pair of a high and a low surrogate.\<close>

definition unquote_u :: "string \<Rightarrow> string \<times> string" where
  "unquote_u ds =
     (let r = hex4 (take 4 ds); rest = drop 4 ds in
      if \<not> (high_surrogate r \<or> low_surrogate r) then (encode_rune r, rest)
      else
        case rest of
          b # u # es \<Rightarrow>
            (let r1 = hex4 (take 4 es) in
             if b = bslash \<and> u = CHR ''u'' \<and> high_surrogate r \<and> low_surrogate r1
             then (encode_rune (65536 + (r - 0xD800) * 1024 + (r1 - 0xDC00)), drop 4 es)
             else (replacement, rest))
        | _ \<Rightarrow> (replacement, rest))"

text \<open>One unit of a literal's inside: what it stands for, and the rest.\<close>

fun unquote_unit :: "string \<Rightarrow> string \<times> string" where
  "unquote_unit [] = ([], [])"
| "unquote_unit (c # cs) =
     (if c = bslash then
        (case cs of
           [] \<Rightarrow> ([], [])
         | d # ds \<Rightarrow> if d = CHR ''u'' then unquote_u ds else ([escape_of d], ds))
      else if rune_len (c # cs) = 0 then (replacement, cs)
      else (take (rune_len (c # cs)) (c # cs), drop (rune_len (c # cs)) (c # cs)))"

lemma unquote_u_shorter: "length (snd (unquote_u ds)) \<le> length ds"
proof -
  have four: "length (drop 4 ds) \<le> length ds" by simp
  show ?thesis
  proof (cases "\<exists>b u es. drop 4 ds = b # u # es")
    case True
    then obtain b u es where es: "drop 4 ds = b # u # es" by blast
    with four have "length (drop 4 es) \<le> length ds" by simp
    with four es show ?thesis by (simp add: unquote_u_def Let_def)
  next
    case False
    then have "snd (unquote_u ds) = drop 4 ds" by (auto simp: unquote_u_def Let_def split: list.splits)
    with four show ?thesis by simp
  qed
qed

lemma unquote_unit_shorter: "length (snd (unquote_unit (c # cs))) < length (c # cs)"
proof (cases "c = bslash")
  case True
  then show ?thesis
  proof (cases cs)
    case (Cons d ds)
    with True unquote_u_shorter [of ds] show ?thesis by simp
  qed simp
next
  case False
  then show ?thesis by (simp del: rune_len.simps)
qed

function unquote :: "string \<Rightarrow> string" where
  "unquote [] = []"
| "unquote (c # cs) = (let (out, rest) = unquote_unit (c # cs) in out @ unquote rest)"
  by pat_completeness auto

termination
  by (relation "measure length") (simp, metis in_measure snd_conv unquote_unit_shorter)

subsection \<open>The scanner\<close>

text \<open>Where a string literal stands: in its text, after a backslash, so many digits before its end.\<close>

datatype string_state = Plain | Escaped | Hex nat

datatype number_state = NNeg | NZero | NInt | NDot | NFrac | NE | NSign | NExp

text \<open>An open array with its elements, an open object with its members and the key read last.\<close>

datatype frame = InArray "json list" | InObject "(string \<times> json) list" string

datatype mode =
  BeginValue
| BeginValueOrEmpty
| BeginKey
| BeginKeyOrEmpty
| EndKey
| InString bool string string_state
| InNumber string number_state
| InLiteral string json
| EndValue json

type_synonym scanner = "mode \<times> frame list"

definition maxNestingDepth :: nat where "maxNestingDepth = 10000"

definition json_space :: "char \<Rightarrow> bool" where
  "json_space c \<longleftrightarrow> c = CHR '' '' \<or> byte c \<in> {9, 10, 13}"

definition dec_digit :: "char \<Rightarrow> bool" where
  "dec_digit c \<longleftrightarrow> 48 \<le> byte c \<and> byte c \<le> 57"

definition push_frame :: "mode \<Rightarrow> frame \<Rightarrow> frame list \<Rightarrow> scanner option" where
  "push_frame m f fs = (if length fs < maxNestingDepth then Some (m, f # fs) else None)"

definition begin_value :: "frame list \<Rightarrow> char \<Rightarrow> scanner option" where
  "begin_value fs c =
     (if c = CHR ''{'' then push_frame BeginKeyOrEmpty (InObject [] []) fs
      else if c = CHR ''['' then push_frame BeginValueOrEmpty (InArray []) fs
      else if c = dquote then Some (InString False [] Plain, fs)
      else if c = CHR ''-'' then Some (InNumber [c] NNeg, fs)
      else if c = CHR ''0'' then Some (InNumber [c] NZero, fs)
      else if dec_digit c then Some (InNumber [c] NInt, fs)
      else if c = CHR ''t'' then Some (InLiteral ''rue'' (JBool True), fs)
      else if c = CHR ''f'' then Some (InLiteral ''alse'' (JBool False), fs)
      else if c = CHR ''n'' then Some (InLiteral ''ull'' JNull, fs)
      else None)"

text \<open>After a value: its place in the enclosing array or object.\<close>

fun end_value :: "json \<Rightarrow> frame list \<Rightarrow> char \<Rightarrow> scanner option" where
  "end_value v [] c = (if json_space c then Some (EndValue v, []) else None)"
| "end_value v (InArray xs # fs) c =
     (if json_space c then Some (EndValue v, InArray xs # fs)
      else if c = CHR '','' then Some (BeginValue, InArray (xs @ [v]) # fs)
      else if c = CHR '']'' then Some (EndValue (JArray (xs @ [v])), fs)
      else None)"
| "end_value v (InObject ms k # fs) c =
     (if json_space c then Some (EndValue v, InObject ms k # fs)
      else if c = CHR '','' then Some (BeginKey, InObject (ms @ [(k, v)]) [] # fs)
      else if c = CHR ''}'' then Some (EndValue (JObject (ms @ [(k, v)])), fs)
      else None)"

text \<open>One more byte of a number: its state then, or that the number has ended before it.\<close>

fun number_step :: "number_state \<Rightarrow> char \<Rightarrow> number_state option" where
  "number_step NNeg c = (if c = CHR ''0'' then Some NZero else if dec_digit c then Some NInt else None)"
| "number_step NZero c =
     (if c = CHR ''.'' then Some NDot else if c = CHR ''e'' \<or> c = CHR ''E'' then Some NE else None)"
| "number_step NInt c =
     (if dec_digit c then Some NInt else if c = CHR ''.'' then Some NDot
      else if c = CHR ''e'' \<or> c = CHR ''E'' then Some NE else None)"
| "number_step NDot c = (if dec_digit c then Some NFrac else None)"
| "number_step NFrac c =
     (if dec_digit c then Some NFrac else if c = CHR ''e'' \<or> c = CHR ''E'' then Some NE else None)"
| "number_step NE c =
     (if c = CHR ''+'' \<or> c = CHR ''-'' then Some NSign else if dec_digit c then Some NExp else None)"
| "number_step NSign c = (if dec_digit c then Some NExp else None)"
| "number_step NExp c = (if dec_digit c then Some NExp else None)"

definition number_ends :: "number_state \<Rightarrow> bool" where
  "number_ends st \<longleftrightarrow> st \<in> {NZero, NInt, NFrac, NExp}"

definition end_string :: "bool \<Rightarrow> string \<Rightarrow> frame list \<Rightarrow> scanner option" where
  "end_string key raw fs =
     (if key then (case fs of InObject ms k # fs' \<Rightarrow> Some (EndKey, InObject ms (unquote raw) # fs') | _ \<Rightarrow> None)
      else Some (EndValue (JString (unquote raw)), fs))"

fun string_step :: "bool \<Rightarrow> string \<Rightarrow> string_state \<Rightarrow> frame list \<Rightarrow> char \<Rightarrow> scanner option" where
  "string_step key raw Plain fs c =
     (if c = dquote then end_string key raw fs
      else if byte c < 32 then None
      else Some (InString key (raw @ [c]) (if c = bslash then Escaped else Plain), fs))"
| "string_step key raw Escaped fs c =
     (if c = CHR ''u'' then Some (InString key (raw @ [c]) (Hex 4), fs)
      else if c \<in> {bslash, dquote, CHR ''/'', CHR ''b'', CHR ''f'', CHR ''n'', CHR ''r'', CHR ''t''}
      then Some (InString key (raw @ [c]) Plain, fs)
      else None)"
| "string_step key raw (Hex n) fs c =
     (if hex_val c = None then None
      else Some (InString key (raw @ [c]) (if n \<le> 1 then Plain else Hex (n - 1)), fs))"

fun scan_step :: "scanner \<Rightarrow> char \<Rightarrow> scanner option" where
  "scan_step (BeginValue, fs) c = (if json_space c then Some (BeginValue, fs) else begin_value fs c)"
| "scan_step (BeginValueOrEmpty, fs) c =
     (if json_space c then Some (BeginValueOrEmpty, fs)
      else if c = CHR '']'' then (case fs of f # fs' \<Rightarrow> Some (EndValue (JArray []), fs') | [] \<Rightarrow> None)
      else begin_value fs c)"
| "scan_step (BeginKey, fs) c =
     (if json_space c then Some (BeginKey, fs)
      else if c = dquote then Some (InString True [] Plain, fs) else None)"
| "scan_step (BeginKeyOrEmpty, fs) c =
     (if json_space c then Some (BeginKeyOrEmpty, fs)
      else if c = CHR ''}'' then (case fs of f # fs' \<Rightarrow> Some (EndValue (JObject []), fs') | [] \<Rightarrow> None)
      else if c = dquote then Some (InString True [] Plain, fs) else None)"
| "scan_step (EndKey, fs) c =
     (if json_space c then Some (EndKey, fs) else if c = CHR '':'' then Some (BeginValue, fs) else None)"
| "scan_step (InString key raw st, fs) c = string_step key raw st fs c"
| "scan_step (InNumber lit st, fs) c =
     (case number_step st c of
        Some st' \<Rightarrow> Some (InNumber (lit @ [c]) st', fs)
      | None \<Rightarrow> if number_ends st then end_value (JNumber lit) fs c else None)"
| "scan_step (InLiteral rest v, fs) c =
     (case rest of
        [] \<Rightarrow> None
      | d # ds \<Rightarrow> if c = d then Some (if ds = [] then EndValue v else InLiteral ds v, fs) else None)"
| "scan_step (EndValue v, fs) c = end_value v fs c"

text \<open>
  Reading one value from the front of a stream. An array or object ends with its bracket,
  whatever follows; a literal or number needs a byte after it, or the end of the stream
  (\<open>Ended\<close>). \<open>Unfinished\<close> says whether anything but white space came before the end.
\<close>

datatype scan_result = Complete json | Ended json | Unfinished bool | Malformed

definition composite :: "json \<Rightarrow> bool" where
  "composite v \<longleftrightarrow> (case v of JArray xs \<Rightarrow> True | JObject ms \<Rightarrow> True | _ \<Rightarrow> False)"

fun ready :: "scanner \<Rightarrow> json option" where
  "ready (EndValue v, []) = Some v"
| "ready (InNumber lit st, []) = (if number_ends st then Some (JNumber lit) else None)"
| "ready s = None"

fun scan :: "scanner \<Rightarrow> bytes \<Rightarrow> scan_result" where
  "scan s [] =
     (case ready s of
        Some v \<Rightarrow> if composite v then Complete v else Ended v
      | None \<Rightarrow> Unfinished (s \<noteq> (BeginValue, [])))"
| "scan s (c # cs) =
     (case ready s of
        Some v \<Rightarrow>
          (if composite v then Complete v
           else case s of
             (InNumber lit st, fs) \<Rightarrow>
               (case number_step st c of Some st' \<Rightarrow> scan (InNumber (lit @ [c]) st', fs) cs | None \<Rightarrow> Complete v)
           | _ \<Rightarrow> Complete v)
      | None \<Rightarrow> (case scan_step s c of None \<Rightarrow> Malformed | Some s' \<Rightarrow> scan s' cs))"

definition scan_value :: "bytes \<Rightarrow> scan_result" where
  "scan_value = scan (BeginValue, [])"

subsection \<open>Printing\<close>

text \<open>\<open>Marshal\<close>, with the escapes for HTML; the members of an object in the order given.\<close>

definition escape_char :: "char \<Rightarrow> string" where
  "escape_char c =
     (let n = byte c in
      if c = bslash \<or> c = dquote then [bslash, c]
      else if n = 8 then [bslash, CHR ''b'']
      else if n = 12 then [bslash, CHR ''f'']
      else if n = 10 then [bslash, CHR ''n'']
      else if n = 13 then [bslash, CHR ''r'']
      else if n = 9 then [bslash, CHR ''t'']
      else if n < 32 \<or> c = CHR ''<'' \<or> c = CHR ''>'' \<or> c = CHR ''&'' then bslash # ''u00'' @ hex_byte c
      else [c])"

definition escape_rune :: "string \<Rightarrow> string" where
  "escape_rune u =
     (if u = byte_string [226, 128, 168] then bslash # ''u2028''
      else if u = byte_string [226, 128, 169] then bslash # ''u2029''
      else u)"

function escape_json :: "string \<Rightarrow> string" where
  "escape_json [] = []"
| "escape_json (c # cs) =
     (let n = rune_len (c # cs) in
      if n = 0 then (bslash # ''ufffd'') @ escape_json cs
      else if n = 1 then escape_char c @ escape_json cs
      else escape_rune (take n (c # cs)) @ escape_json (drop n (c # cs)))"
  by pat_completeness auto

termination
  by (relation "measure length") (auto simp del: rune_len.simps)

definition json_string :: "string \<Rightarrow> string" where
  "json_string s = dquote # escape_json s @ [dquote]"

fun json_text :: "json \<Rightarrow> string" where
  "json_text JNull = ''null''"
| "json_text (JBool b) = (if b then ''true'' else ''false'')"
| "json_text (JNumber lit) = lit"
| "json_text (JString s) = json_string s"
| "json_text (JArray xs) = ''['' @ join_with '','' (map json_text xs) @ '']''"
| "json_text (JObject ms) =
     ''{'' @ join_with '','' (map (\<lambda>(k, v). json_string k @ '':'' @ json_text v) ms) @ ''}''"

subsection \<open>What is printed is read back\<close>

function utf8 :: "string \<Rightarrow> bool" where
  "utf8 [] = True"
| "utf8 (c # cs) =
     (let n = rune_len (c # cs) in if n = 0 then False else utf8 (drop n (c # cs)))"
  by pat_completeness auto

termination
  by (relation "measure length") (auto simp del: rune_len.simps)

fun number_run :: "number_state \<Rightarrow> string \<Rightarrow> bool" where
  "number_run st [] = number_ends st"
| "number_run st (c # cs) = (case number_step st c of None \<Rightarrow> False | Some st' \<Rightarrow> number_run st' cs)"

text \<open>A number of the grammar: it starts with a digit or a minus sign.\<close>

fun number_start :: "char \<Rightarrow> number_state option" where
  "number_start c =
     (if c = CHR ''-'' then Some NNeg else if c = CHR ''0'' then Some NZero
      else if dec_digit c then Some NInt else None)"

definition number_literal :: "string \<Rightarrow> bool" where
  "number_literal lit \<longleftrightarrow>
     (case lit of [] \<Rightarrow> False
      | c # cs \<Rightarrow> (case number_start c of None \<Rightarrow> False | Some st \<Rightarrow> number_run st cs))"

fun json_valid :: "json \<Rightarrow> bool" where
  "json_valid (JNumber lit) = number_literal lit"
| "json_valid (JString s) = utf8 s"
| "json_valid (JArray xs) = list_all json_valid xs"
| "json_valid (JObject ms) = list_all (\<lambda>(k, v). utf8 k \<and> json_valid v) ms"
| "json_valid v = True"

fun json_depth :: "json \<Rightarrow> nat" where
  "json_depth (JArray xs) = Suc (fold max (map json_depth xs) 0)"
| "json_depth (JObject ms) = Suc (fold max (map (\<lambda>(k, v). json_depth v) ms) 0)"
| "json_depth v = 0"

lemma rune_len_take: "rune_len s = Suc n \<Longrightarrow> rune_len (take (Suc n) s @ t) = Suc n"
  by (cases s) (auto split: if_splits list.splits)

lemma byte_char_of: "n < 256 \<Longrightarrow> byte (char_of n) = n"
  by (simp add: byte_def of_char_of)

lemma byte_eq: "byte c = byte d \<longleftrightarrow> c = d"
  by (simp add: byte_def)

lemma byte_less [simp]: "byte c < 256"
  by (simp add: byte_def of_char_lt)

lemma rune_len_1: "rune_len (c # cs) = 1 \<longleftrightarrow> byte c < 128"
  by (auto split: list.splits)

lemma unquote_plain:
  assumes "byte c < 128" and "c \<noteq> bslash"
  shows "unquote (c # cs) = c # unquote cs"
  using assms by simp

lemma unquote_rune:
  assumes "rune_len s = Suc (Suc n)"
  shows "unquote (take (Suc (Suc n)) s @ t) = take (Suc (Suc n)) s @ unquote t"
proof -
  from assms obtain c cs where s: "s = c # cs" by (cases s) auto
  from assms s have c: "c \<noteq> bslash" by (auto simp: bslash_def byte_def of_char_of)
  have "length (take (Suc (Suc n)) s) = Suc (Suc n)" using rune_len_le [of s] assms by simp
  with rune_len_take [of s "Suc n" t] assms s c show ?thesis
    by (simp del: rune_len.simps)
qed

lemma hex_val_digit: "d < 16 \<Longrightarrow> hex_val (hex_digit d) = Some d"
  by (auto simp: hex_val_def byte_def hex_digit_code Let_def)

lemma nibbles: "byte c div 16 < 16" "byte c mod 16 < 16" "16 * (byte c div 16) + byte c mod 16 = byte c"
  by (auto simp: less_mult_imp_div_less)

lemma unquote_hex:
  assumes "byte c < 128"
  shows "unquote (bslash # ''u00'' @ hex_byte c @ t) = c # unquote t"
proof -
  have four: "hex4 (''00'' @ hex_byte c) = byte c"
    using nibbles [of c] by (simp add: hex4_def hex_byte_def hex_val_digit byte_def) (simp add: hex_val_def byte_def)
  have "encode_rune (byte c) = [c]" using assms by (simp add: encode_rune_def byte_string_def byte_def)
  with assms four have "unquote_u (''00'' @ hex_byte c @ t) = ([c], t)"
    by (simp add: unquote_u_def high_surrogate_def low_surrogate_def hex_byte_def)
  then show ?thesis by simp
qed

lemma unquote_short:
  "d \<noteq> CHR ''u'' \<Longrightarrow> unquote (bslash # d # t) = escape_of d # unquote t"
  by simp

lemma byte_is: "n < 256 \<Longrightarrow> byte c = n \<longleftrightarrow> c = char_of n"
  using byte_eq [of c "char_of n"] byte_char_of [of n] by auto

lemma bslash_char: "bslash = CHR 0x5C" "dquote = CHR 0x22"
  by code_simp+

lemma escape_char_cases:
  "c = bslash \<or> c = dquote \<or> byte c = 8 \<or> byte c = 12 \<or> byte c = 10 \<or> byte c = 13 \<or> byte c = 9 \<or>
   escape_char c = bslash # ''u00'' @ hex_byte c \<or> escape_char c = [c] \<and> c \<noteq> bslash \<and> c \<noteq> dquote \<and> \<not> byte c < 32"
  by (simp add: escape_char_def Let_def)

lemma unquote_escape_char:
  assumes "byte c < 128"
  shows "unquote (escape_char c @ t) = c # unquote t"
proof -
  consider "c = bslash \<or> c = dquote" | "byte c = 8" | "byte c = 12" | "byte c = 10" | "byte c = 13" | "byte c = 9"
    | "escape_char c = bslash # ''u00'' @ hex_byte c" | "escape_char c = [c]" "c \<noteq> bslash"
    using escape_char_cases [of c] by blast
  then show ?thesis
  proof cases
    case 1
    then have "escape_char c = [bslash, c]" "escape_of c = c" "c \<noteq> CHR ''u''"
      by (auto simp: escape_char_def escape_of_def bslash_char)
    then show ?thesis by (simp add: unquote_short)
  next
    case 7
    with unquote_hex [OF assms, of t] show ?thesis by simp
  next
    case 8
    with unquote_plain [OF assms] show ?thesis by simp
  qed (auto simp: byte_is escape_char_def byte_char_of escape_of_def unquote_short bslash_def dquote_def)
qed

lemma unquote_escape_rune:
  assumes "rune_len s = Suc (Suc n)"
  shows "unquote (escape_rune (take (Suc (Suc n)) s) @ t) = take (Suc (Suc n)) s @ unquote t"
proof -
  let ?u = "take (Suc (Suc n)) s"
  have sep: "unquote (bslash # CHR ''u'' # ''202'' @ d # t) = byte_string [226, 128, 160 + v] @ unquote t"
    if "hex_val d = Some v" "v = 8 \<or> v = 9" for d v
  proof -
    have "hex4 (''202'' @ [d]) = 8224 + v" using that(1) by (simp add: hex4_def) (simp add: hex_val_def byte_def)
    moreover have "encode_rune (8224 + v) = byte_string [226, 128, 160 + v]"
      using that(2) by (auto simp: encode_rune_def)
    ultimately have "unquote_u (''202'' @ d # t) = (byte_string [226, 128, 160 + v], t)"
      using that(2) by (auto simp: unquote_u_def high_surrogate_def low_surrogate_def)
    then show ?thesis by simp
  qed
  show ?thesis
  proof (cases "?u = byte_string [226, 128, 168] \<or> ?u = byte_string [226, 128, 169]")
    case True
    with sep [of "CHR ''8''" 8] sep [of "CHR ''9''" 9] show ?thesis
      by (auto simp: escape_rune_def hex_val_def byte_def byte_string_def)
  next
    case False
    with unquote_rune [OF assms] show ?thesis by (simp add: escape_rune_def)
  qed
qed

lemma unquote_escape: "utf8 s \<Longrightarrow> unquote (escape_json s @ t) = s @ unquote t"
proof (induction s rule: utf8.induct)
  case 1
  then show ?case by simp
next
  case (2 c cs)
  let ?n = "rune_len (c # cs)"
  from 2 have n: "?n \<noteq> 0" and IH: "unquote (escape_json (drop ?n (c # cs)) @ t) = drop ?n (c # cs) @ unquote t"
    by (auto simp: Let_def simp del: rune_len.simps split: if_splits)
  show ?case
  proof (cases "?n = 1")
    case True
    with IH unquote_escape_char [of c "escape_json cs @ t"] rune_len_1 [of c cs] show ?thesis
      by (simp del: rune_len.simps unquote.simps)
  next
    case False
    with n obtain k where k: "?n = Suc (Suc k)" by (metis One_nat_def not0_implies_Suc)
    with IH unquote_escape_rune [OF k, of "escape_json (drop ?n (c # cs)) @ t"] append_take_drop_id [of ?n "c # cs"]
    show ?thesis by (simp add: Let_def del: rune_len.simps unquote.simps append_take_drop_id)
  qed
qed

text \<open>The scanner in the midst of a value: steps before which no value is ready.\<close>

fun scan_run :: "scanner \<Rightarrow> bytes \<Rightarrow> scanner option" where
  "scan_run s [] = Some s"
| "scan_run s (c # cs) =
     (if ready s \<noteq> None then None
      else case scan_step s c of None \<Rightarrow> None | Some s' \<Rightarrow> scan_run s' cs)"

lemma run_scan: "scan_run s d = Some s' \<Longrightarrow> scan s (d @ t) = scan s' t"
  by (induction s d rule: scan_run.induct) (auto split: if_splits option.splits)

lemma run_frame:
  "scan_run (m, f # fs) (c # cs) =
     (case scan_step (m, f # fs) c of None \<Rightarrow> None | Some s' \<Rightarrow> scan_run s' cs)"
  by (cases m) simp_all

lemma run_in_string:
  "scan_run (InString key raw st, fs) (c # cs) =
     (case string_step key raw st fs c of None \<Rightarrow> None | Some s' \<Rightarrow> scan_run s' cs)"
  by simp

lemma run_plain:
  assumes "\<forall>c\<in>set u. 32 \<le> byte c \<and> c \<noteq> dquote \<and> c \<noteq> bslash"
  shows "scan_run (InString key raw Plain, fs) (u @ t) = scan_run (InString key (raw @ u) Plain, fs) t"
  using assms by (induction u arbitrary: raw) auto

lemma quote_bytes: "byte bslash = 92" "byte dquote = 34"
  by (simp_all add: bslash_char byte_def)

lemma rune_bytes:
  assumes "rune_len s = Suc (Suc n)" and "c \<in> set (take (Suc (Suc n)) s)"
  shows "128 \<le> byte c"
proof (cases s)
  case (Cons a as)
  with assms show ?thesis
    by (auto simp: cont_byte_def second_byte_def split: if_splits list.splits)
qed (use assms in simp)

lemma hex_byte_ok: "hex_byte c = [hex_digit (byte c div 16), hex_digit (byte c mod 16)]"
  by (simp add: hex_byte_def byte_def)

lemma run_hex:
  "scan_run (InString key raw Plain, fs) (bslash # ''u00'' @ hex_byte c @ t) =
     scan_run (InString key (raw @ bslash # ''u00'' @ hex_byte c) Plain, fs) t"
  by (simp add: hex_byte_ok hex_val_digit nibbles quote_bytes)
  (simp add: bslash_char hex_val_def byte_def)


lemma run_escape_char:
  assumes "byte c < 128"
  shows "scan_run (InString key raw Plain, fs) (escape_char c @ t) = scan_run (InString key (raw @ escape_char c) Plain, fs) t"
proof -
  consider "c = bslash \<or> c = dquote" | "byte c = 8" | "byte c = 12" | "byte c = 10" | "byte c = 13" | "byte c = 9"
    | "escape_char c = bslash # ''u00'' @ hex_byte c"
    | "escape_char c = [c]" "c \<noteq> bslash" "c \<noteq> dquote" "\<not> byte c < 32"
    using escape_char_cases [of c] by blast
  then show ?thesis
  proof cases
    case 1
    then have "escape_char c = [bslash, c]" by (auto simp: escape_char_def)
    with 1 show ?thesis by (auto simp: bslash_char byte_def)
  next
    case 7
    with run_hex [of key raw fs c t] show ?thesis by (simp del: scan_run.simps)
  next
    case 8
    with run_plain [of "[c]" key raw fs t] show ?thesis by simp
  qed (auto simp: byte_is escape_char_def byte_char_of bslash_char byte_def)
qed

lemma run_escape_rune:
  assumes "rune_len s = Suc (Suc n)"
  shows "scan_run (InString key raw Plain, fs) (escape_rune (take (Suc (Suc n)) s) @ t) =
    scan_run (InString key (raw @ escape_rune (take (Suc (Suc n)) s)) Plain, fs) t"
proof -
  have digits: "hex_val (CHR ''0'') = Some 0" "hex_val (CHR ''2'') = Some 2"
    by (simp_all add: hex_val_def byte_def)
  have sep: "scan_run (InString key raw Plain, fs) (bslash # ''u202'' @ [d] @ t) =
      scan_run (InString key (raw @ bslash # ''u202'' @ [d]) Plain, fs) t" if "hex_val d \<noteq> None" for d
    using that by (auto simp: quote_bytes digits) (simp_all add: bslash_char)
  have plain: "\<forall>c\<in>set (take (Suc (Suc n)) s). 32 \<le> byte c \<and> c \<noteq> dquote \<and> c \<noteq> bslash"
    using rune_bytes [OF assms] quote_bytes by fastforce
  from sep [of "CHR ''8''"] sep [of "CHR ''9''"] run_plain [OF plain, of key raw fs t]
  show ?thesis by (simp add: escape_rune_def hex_val_def byte_def)
qed

lemma run_escape:
  "utf8 s \<Longrightarrow> scan_run (InString key raw Plain, fs) (escape_json s @ t) = scan_run (InString key (raw @ escape_json s) Plain, fs) t"
proof (induction s arbitrary: raw rule: utf8.induct)
  case 1
  then show ?case by simp
next
  case (2 c cs)
  let ?n = "rune_len (c # cs)"
  from 2 have n: "?n \<noteq> 0"
    and IH: "scan_run (InString key r Plain, fs) (escape_json (drop ?n (c # cs)) @ t) =
      scan_run (InString key (r @ escape_json (drop ?n (c # cs))) Plain, fs) t" for r
    by (auto simp: Let_def simp del: rune_len.simps split: if_splits)
  show ?case
  proof (cases "?n = 1")
    case True
    with IH run_escape_char [of c key raw fs "escape_json cs @ t"] rune_len_1 [of c cs] show ?thesis
      by (simp del: rune_len.simps scan_run.simps)
  next
    case False
    with n obtain k where k: "?n = Suc (Suc k)" by (metis One_nat_def not0_implies_Suc)
    with IH run_escape_rune [OF k, of key raw fs "escape_json (drop ?n (c # cs)) @ t"] show ?thesis
      by (simp add: Let_def del: rune_len.simps scan_run.simps)
  qed
qed

lemma run_string:
  assumes "utf8 s"
  shows "scan_run (InString key [] Plain, fs) (escape_json s @ dquote # t) =
    (case end_string key (escape_json s) fs of None \<Rightarrow> None | Some s' \<Rightarrow> scan_run s' t)"
  using run_escape [OF assms, of key "[]" fs "dquote # t"] by (simp add: run_in_string del: scan_run.simps)

lemma unquote_escaped: "utf8 s \<Longrightarrow> unquote (escape_json s) = s"
  using unquote_escape [of s "[]"] by simp

definition value_end :: "char \<Rightarrow> bool" where
  "value_end c \<longleftrightarrow> c \<in> {CHR '','', CHR '']'', CHR ''}''}"

lemma number_step_end: "value_end c \<Longrightarrow> number_step st c = None"
  by (cases st) (auto simp: value_end_def dec_digit_def byte_def)

lemma run_number:
  assumes "number_run st lit" and "value_end c"
  shows "scan_run (InNumber raw st, f # fs) (lit @ c # t) = scan_run (EndValue (JNumber (raw @ lit)), f # fs) (c # t)"
  using assms(1)
proof (induction lit arbitrary: raw st)
  case Nil
  with number_step_end [OF assms(2)] show ?case by (simp add: run_frame del: scan_run.simps)
next
  case (Cons d ds)
  then obtain st' where st: "number_step st d = Some st'" and run: "number_run st' ds"
    by (auto split: option.splits)
  from Cons.IH [OF run, of "raw @ [d]"] st show ?case
    by (simp add: run_frame del: scan_run.simps)
qed

lemma dec_digit_not:
  assumes "dec_digit c"
  shows "c \<noteq> CHR ''{''" and "c \<noteq> CHR ''[''" and "c \<noteq> CHR '']''" and "c \<noteq> dquote" and "c \<noteq> CHR ''-''" and "\<not> json_space c"
  using assms by (auto simp: dec_digit_def json_space_def bslash_char) (simp_all add: byte_def)

lemma begin_number:
  "number_start c = Some st \<Longrightarrow> begin_value fs c = Some (InNumber [c] st, fs) \<and> \<not> json_space c \<and> c \<noteq> CHR '']''"
  using dec_digit_not [of c]
  by (auto simp: begin_value_def split: if_splits) (auto simp: bslash_char json_space_def byte_def)

lemma json_text_head:
  assumes "json_valid j"
  shows "\<exists>c cs. json_text j = c # cs \<and> \<not> json_space c \<and> c \<noteq> CHR '']''"
proof (cases j)
  case (JNumber lit)
  with assms obtain c cs st where "lit = c # cs" "number_start c = Some st"
    by (auto simp: number_literal_def split: list.splits option.splits)
  with begin_number [of c st "[]"] JNumber show ?thesis by simp
qed (auto simp: json_string_def json_space_def byte_def bslash_char)

lemma run_or_empty:
  assumes "json_valid j"
  shows "scan_run (BeginValueOrEmpty, f # fs) (json_text j @ t) = scan_run (BeginValue, f # fs) (json_text j @ t)"
  using json_text_head [OF assms] by (auto simp: run_frame simp del: scan_run.simps)

lemma run_literal:
  "fs \<noteq> [] \<Longrightarrow> d # ds = w \<Longrightarrow> scan_run (InLiteral w v, fs) (w @ t) = scan_run (EndValue v, fs) t"
proof (induction w arbitrary: d ds)
  case (Cons e es)
  then obtain f fs' where fs: "fs = f # fs'" by (cases fs) auto
  show ?case
  proof (cases es)
    case Nil
    with fs show ?thesis by (simp add: run_frame del: scan_run.simps)
  next
    case (Cons a as)
    with Cons.IH [of a as] Cons.prems fs show ?thesis by (simp add: run_frame del: scan_run.simps)
  qed
qed simp

text \<open>What reading a value back means, inside an array or object and after it.\<close>

definition reads_back :: "json \<Rightarrow> frame list \<Rightarrow> bool" where
  "reads_back j fs \<longleftrightarrow>
     (\<forall>c t. value_end c \<longrightarrow>
        scan_run (BeginValue, fs) (json_text j @ c # t) = scan_run (EndValue j, fs) (c # t))"

lemma run_elements:
  assumes "xs \<noteq> []" and "\<And>x zs. x \<in> set xs \<Longrightarrow> reads_back x (InArray zs # fs)"
  shows "scan_run (BeginValue, InArray ys # fs) (join_with '','' (map json_text xs) @ CHR '']'' # t) =
    scan_run (EndValue (JArray (ys @ xs)), fs) t"
  using assms
proof (induction xs arbitrary: ys rule: list_nonempty_induct)
  case (single x)
  then have "reads_back x (InArray ys # fs)" by simp
  then have "scan_run (BeginValue, InArray ys # fs) (json_text x @ CHR '']'' # t) =
      scan_run (EndValue x, InArray ys # fs) (CHR '']'' # t)"
    unfolding reads_back_def by (simp add: value_end_def del: scan_run.simps)
  then show ?case by (simp add: run_frame json_space_def byte_def del: scan_run.simps)
next
  case (cons x xs)
  from cons.prems have "reads_back x (InArray ys # fs)" by simp
  then have "scan_run (BeginValue, InArray ys # fs) (json_text x @ CHR '','' # r) =
      scan_run (EndValue x, InArray ys # fs) (CHR '','' # r)" for r
    unfolding reads_back_def by (simp add: value_end_def del: scan_run.simps)
  then have step: "scan_run (BeginValue, InArray ys # fs) (json_text x @ CHR '','' # r) =
      scan_run (BeginValue, InArray (ys @ [x]) # fs) r" for r
    by (simp add: run_frame json_space_def byte_def del: scan_run.simps)
  from cons.IH [of "ys @ [x]"] cons.prems step [of "join_with '','' (map json_text xs) @ CHR '']'' # t"] cons.hyps
  show ?case by (cases xs) (simp_all del: scan_run.simps)
qed

lemma run_key:
  assumes "utf8 k"
  shows "scan_run (BeginKey, InObject ms k' # fs) (json_string k @ CHR '':'' # t) =
    scan_run (BeginValue, InObject ms k # fs) t"
  using run_string [OF assms, of True "InObject ms k' # fs" "CHR '':'' # t"]
  by (simp add: json_string_def run_frame json_space_def byte_def bslash_char end_string_def
      unquote_escaped [OF assms] del: scan_run.simps)

lemma run_key_or_empty:
  "scan_run (BeginKeyOrEmpty, f # fs) (json_string k @ t) = scan_run (BeginKey, f # fs) (json_string k @ t)"
  by (simp add: json_string_def run_frame json_space_def byte_def bslash_char del: scan_run.simps)

definition member_text :: "string \<times> json \<Rightarrow> string" where
  "member_text m = json_string (fst m) @ CHR '':'' # json_text (snd m)"

lemma run_members:
  assumes "ms \<noteq> []" and "\<And>k v zs. (k, v) \<in> set ms \<Longrightarrow> utf8 k \<and> reads_back v (InObject zs k # fs)"
  shows "scan_run (BeginKey, InObject ys k' # fs) (join_with '','' (map member_text ms) @ CHR ''}'' # t) =
    scan_run (EndValue (JObject (ys @ ms)), fs) t"
  using assms
proof (induction ms arbitrary: ys k' rule: list_nonempty_induct)
  case (single m)
  obtain k v where m: "m = (k, v)" by (cases m)
  with single have k: "utf8 k" and v: "reads_back v (InObject ys k # fs)" by auto
  from v have "scan_run (BeginValue, InObject ys k # fs) (json_text v @ CHR ''}'' # t) =
      scan_run (EndValue v, InObject ys k # fs) (CHR ''}'' # t)"
    unfolding reads_back_def by (simp add: value_end_def del: scan_run.simps)
  with run_key [OF k, of ys k' fs "json_text v @ CHR ''}'' # t"] m show ?case
    by (simp add: member_text_def run_frame json_space_def byte_def del: scan_run.simps)
next
  case (cons m ms)
  obtain k v where m: "m = (k, v)" by (cases m)
  with cons.prems have k: "utf8 k" and v: "reads_back v (InObject ys k # fs)" by auto
  let ?r = "join_with '','' (map member_text ms) @ CHR ''}'' # t"
  from v have "scan_run (BeginValue, InObject ys k # fs) (json_text v @ CHR '','' # ?r) =
      scan_run (EndValue v, InObject ys k # fs) (CHR '','' # ?r)"
    unfolding reads_back_def by (simp add: value_end_def del: scan_run.simps)
  also have "\<dots> = scan_run (BeginKey, InObject (ys @ [m]) [] # fs) ?r"
    using m by (simp add: run_frame json_space_def byte_def del: scan_run.simps)
  also have "\<dots> = scan_run (EndValue (JObject (ys @ m # ms)), fs) t"
  proof -
    have "\<And>k v zs. (k, v) \<in> set ms \<Longrightarrow> utf8 k \<and> reads_back v (InObject zs k # fs)"
      by (rule cons.prems) simp
    from cons.IH [OF this, of "ys @ [m]" "[]"] show ?thesis by simp
  qed
  finally have "scan_run (BeginKey, InObject ys k' # fs) (member_text m @ CHR '','' # ?r) =
      scan_run (EndValue (JObject (ys @ m # ms)), fs) t"
    using run_key [OF k, of ys k' fs "json_text v @ CHR '','' # ?r"] m
    by (simp add: member_text_def del: scan_run.simps)
  then show ?case using cons.hyps by (cases ms) (simp_all del: scan_run.simps)
qed

lemma json_text_object: "json_text (JObject ms) = ''{'' @ join_with '','' (map member_text ms) @ ''}''"
proof -
  have "(\<lambda>(k, v). json_string k @ '':'' @ json_text v) = member_text"
    by (auto simp: fun_eq_iff member_text_def)
  then show ?thesis by simp
qed

lemma fold_max_ge: "b \<le> fold max xs (b::nat)"
  by (induction xs arbitrary: b) (auto intro: order_trans [OF max.cobounded2])

lemma fold_max: "x \<in> set xs \<Longrightarrow> x \<le> fold max xs (b::nat)"
proof (induction xs arbitrary: b)
  case (Cons y ys)
  then show ?case using fold_max_ge [of "max y b" ys] by auto
qed simp

lemma run_array:
  assumes "list_all json_valid xs" and "length fs < maxNestingDepth"
    and "\<And>x zs. x \<in> set xs \<Longrightarrow> reads_back x (InArray zs # fs)"
  shows "scan_run (BeginValue, fs) (json_text (JArray xs) @ t) = scan_run (EndValue (JArray xs), fs) t"
proof (cases xs)
  case Nil
  with assms(2) show ?thesis
    by (cases fs) (simp_all add: begin_value_def push_frame_def json_space_def byte_def)
next
  case (Cons y ys)
  with assms(2) have "scan_run (BeginValue, fs) (''['' @ r) = scan_run (BeginValueOrEmpty, InArray [] # fs) r" for r
    by (cases fs) (simp_all add: begin_value_def push_frame_def json_space_def byte_def del: scan_run.simps(1))
  moreover have "scan_run (BeginValueOrEmpty, InArray [] # fs) (json_text y @ r) = scan_run (BeginValue, InArray [] # fs) (json_text y @ r)" for r
    using assms(1) Cons by (intro run_or_empty) simp
  moreover have "\<exists>r. join_with '','' (map json_text xs) @ CHR '']'' # t = json_text y @ r"
    using Cons by (cases ys) auto
  moreover have "scan_run (BeginValue, InArray [] # fs) (join_with '','' (map json_text xs) @ CHR '']'' # t) =
      scan_run (EndValue (JArray ([] @ xs)), fs) t"
    by (rule run_elements) (use Cons assms(3) in auto)
  ultimately show ?thesis by (auto simp del: scan_run.simps)
qed

lemma run_object:
  assumes "length fs < maxNestingDepth"
    and "\<And>k v zs. (k, v) \<in> set ms \<Longrightarrow> utf8 k \<and> reads_back v (InObject zs k # fs)"
  shows "scan_run (BeginValue, fs) (json_text (JObject ms) @ t) = scan_run (EndValue (JObject ms), fs) t"
proof (cases ms)
  case Nil
  with assms(1) show ?thesis
    by (cases fs) (simp_all add: begin_value_def push_frame_def json_space_def byte_def)
next
  case (Cons m ns)
  with assms(1) have "scan_run (BeginValue, fs) (''{'' @ r) = scan_run (BeginKeyOrEmpty, InObject [] [] # fs) r" for r
    by (cases fs) (simp_all add: begin_value_def push_frame_def json_space_def byte_def del: scan_run.simps(1))
  moreover have "\<exists>k r. join_with '','' (map member_text ms) @ CHR ''}'' # t = json_string k @ r"
    using Cons by (cases ns) (auto simp: member_text_def)
  moreover have "scan_run (BeginKey, InObject [] [] # fs) (join_with '','' (map member_text ms) @ CHR ''}'' # t) =
      scan_run (EndValue (JObject ([] @ ms)), fs) t"
    by (rule run_members) (use Cons assms(2) in auto)
  ultimately show ?thesis using run_key_or_empty [of "InObject [] []" fs]
    by (auto simp: json_text_object simp del: scan_run.simps json_text.simps)
qed

lemmas run_leaf_simps = reads_back_def run_frame begin_value_def json_space_def byte_def bslash_char

lemma reads_back_number:
  assumes "number_literal lit"
  shows "reads_back (JNumber lit) (f # fs)"
proof -
  from assms obtain c cs st where lit: "lit = c # cs" and c: "number_start c = Some st" and run: "number_run st cs"
    by (auto simp: number_literal_def split: list.splits option.splits)
  show ?thesis
    using run_number [OF run, of _ "[c]" f fs] begin_number [OF c, of "f # fs"] lit
    by (simp add: reads_back_def run_frame del: scan_run.simps)
qed

lemma reads_back_string: "utf8 s \<Longrightarrow> reads_back (JString s) (f # fs)"
  using run_string [of s False "f # fs"]
  by (simp add: run_leaf_simps json_string_def end_string_def unquote_escaped del: scan_run.simps)

lemma reads_back_constant: "reads_back JNull (f # fs)" "reads_back (JBool b) (f # fs)"
  by (simp_all add: run_leaf_simps dec_digit_def del: scan_run.simps)

lemma run_back:
  assumes "json_valid j" and "length fs + json_depth j \<le> maxNestingDepth"
  shows "(composite j \<longrightarrow> (\<forall>t. scan_run (BeginValue, fs) (json_text j @ t) = scan_run (EndValue j, fs) t)) \<and>
    (fs \<noteq> [] \<longrightarrow> reads_back j fs)"
  using assms
proof (induction j arbitrary: fs rule: json_text.induct)
  case (5 xs)
  have "reads_back x (InArray zs # fs)" if "x \<in> set xs" for x zs
  proof -
    have "length (InArray zs # fs) + json_depth x \<le> maxNestingDepth"
      using fold_max [of "json_depth x" "map json_depth xs" 0] that 5(3) by simp
    with that 5(2) show ?thesis using 5(1) [OF that, of "InArray zs # fs"] by (auto simp: list_all_iff)
  qed
  with 5(2,3) run_array [of xs fs] show ?case
    by (simp add: reads_back_def composite_def del: scan_run.simps json_text.simps)
next
  case (6 ms)
  have "utf8 k \<and> reads_back v (InObject zs k # fs)" if "(k, v) \<in> set ms" for k v zs
  proof -
    from that 6(2) have "utf8 k" "json_valid v" by (auto simp: list_all_iff)
    moreover have "length (InObject zs k # fs) + json_depth v \<le> maxNestingDepth"
      using fold_max [of "json_depth v" "map (\<lambda>(k, v). json_depth v) ms" 0] that 6(3) by force
    ultimately show ?thesis using 6(1) [OF that refl, of "InObject zs k # fs"] by blast
  qed
  with 6(3) run_object [of fs ms] show ?case
    by (simp add: reads_back_def composite_def del: scan_run.simps json_text.simps)
qed (auto simp: composite_def neq_Nil_conv reads_back_constant reads_back_number reads_back_string)

lemma run_text:
  assumes "json_valid j" and "composite j" and "json_depth j \<le> maxNestingDepth"
  shows "scan_run (BeginValue, []) (json_text j) = Some (EndValue j, [])"
proof -
  have "\<forall>t. scan_run (BeginValue, []) (json_text j @ t) = scan_run (EndValue j, []) t"
    using run_back [of j "[]"] assms by (simp del: scan_run.simps)
  from this [rule_format, of "[]"] show ?thesis by simp
qed

lemma scan_value_text:
  assumes "json_valid j" and "composite j" and "json_depth j \<le> maxNestingDepth"
  shows "scan_value (json_text j @ t) = Complete j"
proof -
  have "scan_value (json_text j @ t) = scan (EndValue j, []) t"
    unfolding scan_value_def by (rule run_scan [OF run_text [OF assms]])
  with assms(2) show ?thesis by (cases t) simp_all
qed

end
