(* ===== verification/Go_Url.thy ===== *)
theory Go_Url
  imports Host Go_Json
begin

text \<open>
  Query strings and form bodies: what the source uses of \<open>net/url\<close> (\<open>ParseQuery\<close> and
  \<open>Values.Get\<close>, which \<open>router.go\<close> and \<open>gateway/slack/bot.go\<close> call), and the encoding a client
  uses, with the proof that it is read back.
\<close>

subsection \<open>Percent encoding\<close>

definition percent :: char where "percent = CHR 0x25"

definition EscapeError :: "string \<Rightarrow> error" where
  "EscapeError s = NewError (''invalid URL escape '' @ quote (take 3 s))"

fun QueryUnescape :: "string \<Rightarrow> string result" where
  "QueryUnescape [] = Inr []"
| "QueryUnescape (c # s) =
     (if c = percent then
        (case s of
           a # b # rest \<Rightarrow>
             (case (hex_val a, hex_val b) of
                (Some m, Some n) \<Rightarrow> map_sum id (Cons (char_of (16 * m + n))) (QueryUnescape rest)
              | _ \<Rightarrow> Inl (EscapeError (c # s)))
         | _ \<Rightarrow> Inl (EscapeError (c # s)))
      else map_sum id (Cons (if c = CHR ''+'' then CHR '' '' else c)) (QueryUnescape s))"

text \<open>\<open>url.QueryEscape\<close>: what is not unreserved becomes a plus or a percent escape.\<close>

definition unreserved :: "char \<Rightarrow> bool" where
  "unreserved c \<longleftrightarrow>
     (let n = byte c in 97 \<le> n \<and> n \<le> 122 \<or> 65 \<le> n \<and> n \<le> 90 \<or> 48 \<le> n \<and> n \<le> 57) \<or>
     c \<in> {CHR ''-'', CHR ''_'', CHR ''.'', CHR ''~''}"

definition upper_hex :: "nat \<Rightarrow> char" where
  "upper_hex d = char_of (if d < 10 then 48 + d else 55 + d)"

definition escape_query_char :: "char \<Rightarrow> string" where
  "escape_query_char c =
     (if unreserved c then [c] else if c = CHR '' '' then ''+''
      else [percent, upper_hex (byte c div 16), upper_hex (byte c mod 16)])"

definition QueryEscape :: "string \<Rightarrow> string" where
  "QueryEscape s = concat (map escape_query_char s)"

subsection \<open>Queries\<close>

text \<open>
  A query is cut at ampersands; a piece with a semicolon or a bad escape is left out and makes
  an error. \<open>Values\<close> is the list of the pairs in their order: \<open>Get\<close> takes the first of a key.
\<close>

type_synonym url_values = "(string \<times> string) list"

definition Values_Get :: "url_values \<Rightarrow> string \<Rightarrow> string" where
  "Values_Get vs k = (case map_of vs k of None \<Rightarrow> [] | Some v \<Rightarrow> v)"

text \<open>\<open>strings.Cut\<close> at the first equals sign.\<close>

definition cut_pair :: "string \<Rightarrow> string \<times> string" where
  "cut_pair s = (case SplitN2 s (CHR ''='') of [k, v] \<Rightarrow> (k, v) | _ \<Rightarrow> (s, []))"

definition query_pair :: "string \<Rightarrow> (string \<times> string) result" where
  "query_pair seg =
     (let (k0, v0) = cut_pair seg in
      case QueryUnescape k0 of
        Inl e \<Rightarrow> Inl e
      | Inr k \<Rightarrow> map_sum id (Pair k) (QueryUnescape v0))"

definition semicolon_error :: error where
  "semicolon_error = NewError ''invalid semicolon separator in query''"

fun parse_query_loop :: "error option \<Rightarrow> string list \<Rightarrow> url_values \<times> error option" where
  "parse_query_loop err [] = ([], err)"
| "parse_query_loop err (seg # segs) =
     (if CHR '';'' \<in> set seg then parse_query_loop (Some semicolon_error) segs
      else if seg = [] then parse_query_loop err segs
      else
        case query_pair seg of
          Inl e \<Rightarrow> parse_query_loop (if err = None then Some e else err) segs
        | Inr kv \<Rightarrow> (let (vs, err') = parse_query_loop err segs in (kv # vs, err')))"

text \<open>The limit on the number of pieces is the default of the library (\<open>urlmaxqueryparams\<close> unset).\<close>

definition defaultMaxParams :: nat where "defaultMaxParams = 10000"

definition url_parseQuery :: "string \<Rightarrow> url_values \<times> error option" where
  "url_parseQuery query =
     (let segs = split_on (CHR ''&'') query in
      if defaultMaxParams < length segs
      then ([], Some (NewError ''number of URL query parameters exceeded limit''))
      else parse_query_loop None segs)"

text \<open>\<open>ParseQuery\<close> as a caller uses it that looks at the error, and \<open>URL.Query\<close>, which drops it.\<close>

definition ParseQuery :: "bytes \<Rightarrow> (string \<Rightarrow> string) result" where
  "ParseQuery body =
     (case url_parseQuery body of
        (vs, None) \<Rightarrow> Inr (Values_Get vs)
      | (vs, Some e) \<Rightarrow> Inl e)"

definition URL_Query :: "string \<Rightarrow> url_values" where
  "URL_Query raw = fst (url_parseQuery raw)"

text \<open>The form a client sends: pairs, encoded.\<close>

definition encode_pair :: "string \<times> string \<Rightarrow> string" where
  "encode_pair kv = QueryEscape (fst kv) @ ''='' @ QueryEscape (snd kv)"

definition encode_query :: "url_values \<Rightarrow> string" where
  "encode_query kvs = join_with ''&'' (map encode_pair kvs)"

subsection \<open>What is encoded is read back\<close>

lemma percent_not: "percent \<noteq> CHR ''+''" "percent \<noteq> CHR ''&''" "percent \<noteq> CHR ''=''" "percent \<noteq> CHR '';''"
  by (simp_all add: percent_def)

lemma byte_upper_hex: "d < 16 \<Longrightarrow> byte (upper_hex d) = (if d < 10 then 48 + d else 55 + d)"
  by (simp add: upper_hex_def byte_char_of)

lemma hex_val_upper: "d < 16 \<Longrightarrow> hex_val (upper_hex d) = Some d"
  by (auto simp: hex_val_def byte_upper_hex Let_def)

lemma unreserved_byte: "unreserved c \<Longrightarrow> byte c \<notin> {37, 38, 43, 59, 61}"
  by (auto simp: unreserved_def Let_def) (auto simp: byte_def)

lemma unreserved_not: "unreserved c \<Longrightarrow> c \<notin> {percent, CHR ''+'', CHR ''&'', CHR '';'', CHR ''=''}"
  using unreserved_byte [of c] by (auto simp: byte_def percent_def)

lemma unescape_escape_char:
  "QueryUnescape (escape_query_char c @ s) = map_sum id (Cons c) (QueryUnescape s)"
proof (cases "unreserved c")
  case True
  with unreserved_not [OF True] show ?thesis by (simp add: escape_query_char_def)
next
  case False
  have "char_of (16 * (byte c div 16) + byte c mod 16) = c" by (simp add: nibbles byte_def)
  with False show ?thesis
    by (simp add: escape_query_char_def hex_val_upper nibbles) (simp add: percent_def)
qed

lemma unescape_escape: "QueryUnescape (QueryEscape s) = Inr s"
proof (induction s)
  case Nil
  show ?case by (simp add: QueryEscape_def)
next
  case (Cons c s)
  then show ?case by (simp add: QueryEscape_def unescape_escape_char)
qed

text \<open>The encoding of a piece has none of the separators.\<close>

lemma escape_char_set: "set (escape_query_char c) \<inter> {CHR ''&'', CHR '';'', CHR ''=''} = {}"
proof -
  have hex: "byte (upper_hex d) \<notin> {38, 59, 61}" if "d < 16" for d
    using that by (simp add: byte_upper_hex)
  have "upper_hex d \<notin> {CHR ''&'', CHR '';'', CHR ''=''}" if "d < 16" for d
    using hex [OF that] by (auto simp: byte_def)
  from this [of "byte c div 16"] this [of "byte c mod 16"] unreserved_not [of c] percent_not show ?thesis
    by (auto simp: escape_query_char_def nibbles)
qed

lemma QueryEscape_set: "set (QueryEscape s) \<inter> {CHR ''&'', CHR '';'', CHR ''=''} = {}"
  using escape_char_set unfolding QueryEscape_def by (induction s) auto

lemma encode_pair_set: "CHR ''&'' \<notin> set (encode_pair kv)" "CHR '';'' \<notin> set (encode_pair kv)"
  using QueryEscape_set [of "fst kv"] QueryEscape_set [of "snd kv"] by (auto simp: encode_pair_def)

lemma encode_pair_ne: "encode_pair kv \<noteq> []"
  by (simp add: encode_pair_def)

lemma query_pair_encode: "query_pair (encode_pair kv) = Inr kv"
proof -
  have "CHR ''='' \<notin> set (QueryEscape (fst kv))" using QueryEscape_set [of "fst kv"] by auto
  then have "cut_pair (encode_pair kv) = (QueryEscape (fst kv), QueryEscape (snd kv))"
    by (simp add: cut_pair_def encode_pair_def SplitN2_append)
  then show ?thesis by (simp add: query_pair_def unescape_escape)
qed

lemma parse_loop_encode: "parse_query_loop err (map encode_pair kvs) = (kvs, err)"
  by (induction kvs) (simp_all add: encode_pair_set encode_pair_ne query_pair_encode)

lemma split_on_plain: "sep \<notin> set w \<Longrightarrow> split_on sep w = [w]"
  by (induction w) auto

lemma split_on_cons: "sep \<notin> set w \<Longrightarrow> split_on sep (w @ sep # s) = w # split_on sep s"
  by (induction w) auto

lemma split_on_join:
  "ws \<noteq> [] \<Longrightarrow> (\<And>w. w \<in> set ws \<Longrightarrow> sep \<notin> set w) \<Longrightarrow> split_on sep (join_with [sep] ws) = ws"
proof (induction ws rule: list_nonempty_induct)
  case (single w)
  then show ?case by (simp add: split_on_plain)
next
  case (cons w ws)
  then show ?case by (cases ws) (simp_all add: split_on_cons)
qed

text \<open>\<open>url.ParseQuery\<close> reads an encoded form back, pair by pair.\<close>

lemma parse_encode:
  assumes "length kvs \<le> defaultMaxParams"
  shows "url_parseQuery (encode_query kvs) = (kvs, None)"
proof (cases "kvs = []")
  case True
  then show ?thesis by (simp add: encode_query_def url_parseQuery_def defaultMaxParams_def)
next
  case False
  then have "split_on (CHR ''&'') (encode_query kvs) = map encode_pair kvs"
    unfolding encode_query_def by (intro split_on_join) (auto simp: encode_pair_set)
  with assms show ?thesis by (simp add: url_parseQuery_def parse_loop_encode)
qed

lemma ParseQuery_encode:
  "length kvs \<le> defaultMaxParams \<Longrightarrow> ParseQuery (encode_query kvs) = Inr (Values_Get kvs)"
  by (simp add: ParseQuery_def parse_encode)

lemma URL_Query_encode: "length kvs \<le> defaultMaxParams \<Longrightarrow> URL_Query (encode_query kvs) = kvs"
  by (simp add: URL_Query_def parse_encode)

lemma URL_Query_Nil [simp]: "URL_Query [] = []"
  using URL_Query_encode [of "[]"] by (simp add: encode_query_def defaultMaxParams_def)

end
