(* ===== verification/Http.thy ===== *)
theory Http
  imports Task_Service Go_Url
begin

text \<open>
  Requests, responses and the middleware of \<open>internal/api\<close> (\<open>middleware.go\<close>, \<open>auth.go\<close>,
  \<open>health.go\<close>, the helpers of \<open>router.go\<close>) and the single-page application of \<open>web/spa.go\<close>.
  A handler maps a request and the world to a response and a world.
\<close>

subsection \<open>Requests and responses\<close>

text \<open>A body as its reader delivers it: bytes, then an error or (\<open>None\<close>) the end.\<close>

record body_reader =
  br_data :: bytes
  br_err :: "error option"

text \<open>
  The path is given by its segments, each already unescaped; a trailing slash is an empty
  last segment. \<open>rq_Canonical\<close> says that the escaped path is already clean (no empty,
  \<open>.\<close> or \<open>..\<close> segment to remove). \<open>rq_Header\<close> is the \<open>Get\<close> method of the headers and
  \<open>rq_Query\<close> that of \<open>URL.Query()\<close>; both read a missing key as the empty string.
\<close>

record http_request =
  rq_Method :: string
  rq_Segments :: "string list"
  rq_Canonical :: bool
  rq_Header :: "string \<Rightarrow> string"
  rq_RawQuery :: string
  rq_Body :: body_reader

definition rq_Query :: "http_request \<Rightarrow> string \<Rightarrow> string" where
  "rq_Query r = Values_Get (URL_Query (rq_RawQuery r))"

lemma rq_Query_none [simp]: "rq_RawQuery r = [] \<Longrightarrow> rq_Query r k = []"
  by (simp add: rq_Query_def Values_Get_def)

definition url_Path :: "http_request \<Rightarrow> string" where
  "url_Path r = concat (map (\<lambda>s. ''/'' @ s) (rq_Segments r))"

text \<open>What a response carries: text, an encoded object, encoded domain values, or a file.\<close>

datatype body =
  BText string
| BObject "(string \<times> string) list"
| BSkills "skill list"
| BSkill skill
| BTasks "task list"
| BTask task
| BEvents "event list"
| BFile string
| BEmpty

record http_response =
  rs_Status :: int
  rs_ContentType :: string
  rs_RequestID :: "string option"
  rs_Body :: body

type_synonym 'w handler = "http_request \<Rightarrow> 'w \<Rightarrow> http_response \<times> 'w"

definition StatusOK :: int where [go_consts]: "StatusOK = 200"
definition StatusCreated :: int where [go_consts]: "StatusCreated = 201"
definition StatusMovedPermanently :: int where [go_consts]: "StatusMovedPermanently = 301"
definition StatusBadRequest :: int where [go_consts]: "StatusBadRequest = 400"
definition StatusUnauthorized :: int where [go_consts]: "StatusUnauthorized = 401"
definition StatusForbidden :: int where [go_consts]: "StatusForbidden = 403"
definition StatusNotFound :: int where [go_consts]: "StatusNotFound = 404"
definition StatusMethodNotAllowed :: int where [go_consts]: "StatusMethodNotAllowed = 405"
definition StatusRequestEntityTooLarge :: int where [go_consts]: "StatusRequestEntityTooLarge = 413"
definition StatusInternalServerError :: int where [go_consts]: "StatusInternalServerError = 500"
definition StatusNotImplemented :: int where [go_consts]: "StatusNotImplemented = 501"
definition StatusServiceUnavailable :: int where [go_consts]: "StatusServiceUnavailable = 503"

definition http_Error :: "string \<Rightarrow> int \<Rightarrow> http_response" where
  "http_Error msg code =
     \<lparr>rs_Status = code, rs_ContentType = ''text/plain; charset=utf-8'', rs_RequestID = None,
      rs_Body = BText msg\<rparr>"

definition writeJSON :: "int \<Rightarrow> body \<Rightarrow> http_response" where
  "writeJSON status v =
     \<lparr>rs_Status = status, rs_ContentType = ''application/json'', rs_RequestID = None, rs_Body = v\<rparr>"

definition writeError :: "int \<Rightarrow> string \<Rightarrow> http_response" where
  "writeError status msg = writeJSON status (BObject [(''error'', msg)])"

definition stub :: "string \<Rightarrow> 'w handler" where
  "stub route r w = (writeError StatusNotImplemented (''not implemented: '' @ route), w)"

subsection \<open>Health\<close>

definition handleHealthz :: "'w handler" where
  "handleHealthz r w = (writeJSON StatusOK (BObject [(''status'', ''ok'')]), w)"

definition handleReadyz :: "'w server \<Rightarrow> 'w handler" where
  "handleReadyz s r w =
     (case Ping (sv_store s) w of
        (Some err, w1) \<Rightarrow>
          (writeJSON StatusServiceUnavailable
             (BObject [(''ready'', ''false''), (''reason'', ''database not ready'')]), w1)
      | (None, w1) \<Rightarrow> (writeJSON StatusOK (BObject [(''ready'', ''true'')]), w1))"

definition handleReadyzStub :: "'w handler" where
  "handleReadyzStub r w =
     (writeJSON StatusOK (BObject [(''mode'', ''dev-stub''), (''ready'', ''true'')]), w)"

subsection \<open>The embedded application\<close>

text \<open>
  \<open>files\<close> says which names of the embedded file system open; the file server of the
  standard library is left as the name of the path it is asked for.
\<close>

definition serve_file :: "string \<Rightarrow> http_response" where
  "serve_file path =
     \<lparr>rs_Status = StatusOK, rs_ContentType = [], rs_RequestID = None, rs_Body = BFile path\<rparr>"

definition TrimPrefix :: "string \<Rightarrow> string \<Rightarrow> string" where
  "TrimPrefix s p = (if HasPrefix s p then drop (length p) s else s)"

definition spaHandler :: "(string \<Rightarrow> bool) \<Rightarrow> 'w handler" where
  "spaHandler files r w =
     (if HasPrefix (url_Path r) ''/v1/'' \<or> url_Path r = ''/healthz''
      then (http_Error ''404 page not found'' StatusNotFound, w)
      else
        let path = (if url_Path r = ''/'' then ''/index.html'' else url_Path r) in
        if files (TrimPrefix path ''/'') then (serve_file (url_Path r), w)
        else (serve_file ''/'', w))"

subsection \<open>Middleware\<close>

text \<open>\<open>uuid\<close> is \<open>uuid.New().String()\<close>, which draws from the process.\<close>

definition RequestIDMiddleware ::
  "(host \<Rightarrow> string \<times> host) \<Rightarrow> 'x world_scheme handler \<Rightarrow> 'x world_scheme handler" where
  "RequestIDMiddleware uuid nxt r w =
     (let (id, w1) = (if rq_Header r ''X-Request-ID'' = [] then with_host uuid w
                      else (rq_Header r ''X-Request-ID'', w));
          (resp, w2) = nxt r w1
      in (resp\<lparr>rs_RequestID := Some id\<rparr>, w2))"

definition log_access :: "string \<times> string \<times> int \<times> int \<Rightarrow> host \<Rightarrow> unit \<times> host" where
  "log_access e h = ((), h\<lparr>h_access := h_access h @ [e]\<rparr>)"

definition LoggingMiddleware :: "'x world_scheme handler \<Rightarrow> 'x world_scheme handler" where
  "LoggingMiddleware nxt r w =
     (let (start, w1) = with_host Now w;
          (resp, w2) = nxt r w1;
          (stop, w3) = with_host Now w2;
          (_, w4) = with_host (log_access (rq_Method r, url_Path r, rs_Status resp, stop - start)) w3
      in (resp, w4))"

definition maxBodySize :: nat where [go_consts]: "maxBodySize = 2 ^ 20"

definition body_too_large :: error where
  "body_too_large = NewError ''http: request body too large''"

text \<open>\<open>http.MaxBytesReader\<close>: the first bytes, and an error when there are more.\<close>

definition MaxBytesReader :: "nat \<Rightarrow> body_reader \<Rightarrow> body_reader" where
  "MaxBytesReader n b =
     (if length (br_data b) > n then \<lparr>br_data = take n (br_data b), br_err = Some body_too_large\<rparr>
      else b)"

definition limitBody :: "'w handler \<Rightarrow> 'w handler" where
  "limitBody nxt r w = nxt (r\<lparr>rq_Body := MaxBytesReader maxBodySize (rq_Body r)\<rparr>) w"

definition wrapMiddleware ::
  "(host \<Rightarrow> string \<times> host) \<Rightarrow> 'x world_scheme handler \<Rightarrow> 'x world_scheme handler" where
  "wrapMiddleware uuid h = RequestIDMiddleware uuid (LoggingMiddleware (limitBody h))"

text \<open>The token is read once, when the handler is built; no token means no check.\<close>

definition check_bearer :: "string \<Rightarrow> 'w handler \<Rightarrow> 'w handler" where
  "check_bearer token nxt r w =
     (let auth = rq_Header r ''Authorization'' in
      if auth = [] then (http_Error ''{\"error\":\"missing Authorization header\"}'' StatusUnauthorized, w)
      else
        let parts = SplitN2 auth CHR '' '' in
        if length parts \<noteq> 2 \<or> \<not> EqualFold (parts ! 0) ''Bearer''
        then (http_Error ''{\"error\":\"invalid Authorization header, expected: Bearer <token>\"}''
                StatusUnauthorized, w)
        else if \<not> ConstantTimeEq (parts ! 1) token
        then (http_Error ''{\"error\":\"invalid token\"}'' StatusForbidden, w)
        else nxt r w)"

definition auth_handler :: "string \<Rightarrow> 'w handler \<Rightarrow> 'w handler" where
  "auth_handler token nxt r w =
     (if url_Path r = ''/healthz'' \<or> url_Path r = ''/readyz'' then nxt r w
      else if \<not> HasPrefix (url_Path r) ''/v1/'' then nxt r w
      else if rq_Method r = ''POST'' \<and> url_Path r = ''/v1/events'' then nxt r w
      else check_bearer token nxt r w)"

definition authMiddleware :: "host \<Rightarrow> 'w handler \<Rightarrow> 'w handler" where
  "authMiddleware h nxt =
     (let token = Getenv h ''HERMESMANAGER_API_TOKEN'' in
      if token = [] then nxt else auth_handler token nxt)"

end
