(* ===== verification/Api.thy ===== *)
theory Api
  imports Http
begin

text \<open>
  The request handlers and routes of \<open>internal/api/router.go\<close>. The JSON decoder and the
  date parser are parameters (\<open>codec\<close>): every statement holds for any of them.
\<close>

record create_event_request =
  cer_ID :: string
  cer_TaskID :: string
  cer_Type :: string
  cer_Payload :: json_map

record codec =
  cd_task :: "body_reader \<Rightarrow> create_task_request result"
  cd_event :: "body_reader \<Rightarrow> create_event_request result"
  cd_rfc3339 :: "string \<Rightarrow> go_time option"

subsection \<open>Skills\<close>

definition handleListSkills :: "'w server \<Rightarrow> 'w handler" where
  "handleListSkills s r w =
     (case ListSkills (sv_store s) w of
        (Inl err, w1) \<Rightarrow>
          (writeError StatusInternalServerError (''failed to list skills: '' @ Error_text err), w1)
      | (Inr skills, w1) \<Rightarrow> (writeJSON StatusOK (BSkills (slice skills)), w1))"

definition handleGetSkill :: "'w server \<Rightarrow> string \<Rightarrow> 'w handler" where
  "handleGetSkill s name r w =
     (case GetSkill (sv_store s) name w of
        (Inl err, w1) \<Rightarrow>
          (writeError StatusInternalServerError (''failed to get skill: '' @ Error_text err), w1)
      | (Inr None, w1) \<Rightarrow>
          (writeError StatusNotFound (''skill '' @ quote name @ '' not found''), w1)
      | (Inr (Some sk), w1) \<Rightarrow> (writeJSON StatusOK (BSkill sk), w1))"

subsection \<open>Tasks\<close>

text \<open>The status and text of a failed creation.\<close>

definition create_error_response :: "error \<Rightarrow> http_response" where
  "create_error_response err =
     (case IsPolicyDenied err of
        Some ruleID \<Rightarrow> writeError StatusForbidden (''blocked by policy rule: '' @ ruleID)
      | None \<Rightarrow>
          if Contains (Error_text err) ''not found'' then writeError StatusBadRequest (Error_text err)
          else writeError StatusInternalServerError (Error_text err))"

definition created_response :: "create_task_result \<Rightarrow> http_response" where
  "created_response res =
     writeJSON StatusCreated (BObject
       ((if res_ExternalID res \<noteq> [] then [(''external_id'', res_ExternalID res), (''runtime'', res_Runtime res)]
         else []) @ [(''task_id'', res_TaskID res), (''token'', res_Token res)]))"

definition handleCreateTask :: "codec \<Rightarrow> 'x world_scheme server \<Rightarrow> 'x world_scheme handler" where
  "handleCreateTask c s r w =
     (case cd_task c (rq_Body r) of
        Inl err \<Rightarrow> (writeError StatusBadRequest (''invalid request body: '' @ Error_text err), w)
      | Inr req \<Rightarrow>
          if ctr_SkillName req = [] then (writeError StatusBadRequest ''skill_name is required'', w)
          else
            (case Server_CreateTask s req w of
               (Inl err, w1) \<Rightarrow> (create_error_response err, w1)
             | (Inr res, w1) \<Rightarrow> (created_response res, w1)))"

text \<open>The paging parameters, shared by both listings.\<close>

definition maxPageSize :: int where [go_consts]: "maxPageSize = 100"

definition query_limit :: "http_request \<Rightarrow> int" where
  "query_limit r =
     (let limit =
        (if rq_Query r ''limit'' \<noteq> [] then
           (case Atoi (rq_Query r ''limit'') of None \<Rightarrow> 50 | Some n \<Rightarrow> if n > 0 then n else 50)
         else 50)
      in if limit > maxPageSize then maxPageSize else limit)"

lemma query_limit_bounds: "1 \<le> query_limit r \<and> query_limit r \<le> 100"
  by (auto simp: query_limit_def Let_def maxPageSize_def split: option.split)

definition query_offset :: "http_request \<Rightarrow> int" where
  "query_offset r =
     (if rq_Query r ''offset'' \<noteq> [] then
        (case Atoi (rq_Query r ''offset'') of None \<Rightarrow> 0 | Some n \<Rightarrow> if n \<ge> 0 then n else 0)
      else 0)"

lemma query_offset_nonneg: "0 \<le> query_offset r"
  by (simp add: query_offset_def split: option.split)

definition query_opt :: "http_request \<Rightarrow> string \<Rightarrow> string option" where
  "query_opt r k = (if rq_Query r k \<noteq> [] then Some (rq_Query r k) else None)"

definition task_filter_of :: "http_request \<Rightarrow> task_filter" where
  "task_filter_of r =
     \<lparr>tf_State = query_opt r ''state'', tf_Limit = query_limit r, tf_Offset = query_offset r\<rparr>"

definition handleListTasks :: "'w server \<Rightarrow> 'w handler" where
  "handleListTasks s r w =
     (case ListTasks (sv_store s) (task_filter_of r) w of
        (Inl err, w1) \<Rightarrow>
          (writeError StatusInternalServerError (''failed to list tasks: '' @ Error_text err), w1)
      | (Inr tasks, w1) \<Rightarrow> (writeJSON StatusOK (BTasks (slice tasks)), w1))"

definition handleGetTask :: "'w server \<Rightarrow> string \<Rightarrow> 'w handler" where
  "handleGetTask s i r w =
     (case GetTask (sv_store s) i w of
        (Inl err, w1) \<Rightarrow>
          (writeError StatusInternalServerError (''failed to get task: '' @ Error_text err), w1)
      | (Inr None, w1) \<Rightarrow>
          (writeError StatusNotFound (''task '' @ quote i @ '' not found''), w1)
      | (Inr (Some t), w1) \<Rightarrow> (writeJSON StatusOK (BTask t), w1))"

subsection \<open>Events\<close>

text \<open>The state a task moves to on an event, and whether the event ends the task.\<close>

definition event_transition :: "string \<Rightarrow> (string \<times> bool) option" where
  "event_transition ty =
     (if ty = EventTaskCompleted then Some (TaskStateCompleted, True)
      else if ty = EventTaskFailed then Some (TaskStateFailed, True)
      else if ty = EventTaskTimeout then Some (TaskStateTimeout, True)
      else if ty = EventTaskStarted then Some (TaskStateRunning, False)
      else None)"

text \<open>The switch after the event is stored: \<open>Some\<close> an error response, or \<open>None\<close> to go on.\<close>

definition finalize_event ::
  "'w store \<Rightarrow> string \<Rightarrow> string \<Rightarrow> 'w \<Rightarrow> http_response option \<times> 'w" where
  "finalize_event st taskID ty w =
     (case event_transition ty of
        None \<Rightarrow> (None, w)
      | Some (state, terminal) \<Rightarrow>
          (case UpdateTaskState st taskID state w of
             (Some err, w1) \<Rightarrow>
               (Some (writeError StatusInternalServerError
                  (if terminal then ''failed to finalize task state'' else ''failed to update task state'')),
                w1)
           | (None, w1) \<Rightarrow>
               if terminal then (let (_, w2) = RevokeAgentToken st taskID w1 in (None, w2))
               else (None, w1)))"

definition store_event ::
  "'x world_scheme store \<Rightarrow> create_event_request \<Rightarrow> 'x world_scheme \<Rightarrow> http_response \<times> 'x world_scheme" where
  "store_event st req w =
     (let (eventID, w1) = (if cer_ID req = [] then generateID ''evt'' w else (cer_ID req, w));
          (now, w2) = with_host Now w1;
          event = \<lparr>e_ID = eventID, e_TaskID = cer_TaskID req, e_Type = cer_Type req,
                   e_Payload = cer_Payload req, e_CreatedAt = now\<rparr>
      in case AppendEvent st event w2 of
           (Some err, w3) \<Rightarrow>
             (writeError StatusInternalServerError (''failed to store event: '' @ Error_text err), w3)
         | (None, w3) \<Rightarrow>
             (case finalize_event st (cer_TaskID req) (cer_Type req) w3 of
                (Some resp, w4) \<Rightarrow> (resp, w4)
              | (None, w4) \<Rightarrow> (writeJSON StatusCreated (BObject [(''id'', eventID)]), w4)))"

definition handleCreateEvent :: "codec \<Rightarrow> 'x world_scheme server \<Rightarrow> 'x world_scheme handler" where
  "handleCreateEvent c s r w =
     (let token = rq_Header r ''Authorization'' in
      if length token < 8 \<or> take 7 token \<noteq> ''Bearer ''
      then (writeError StatusUnauthorized ''missing or invalid Authorization header'', w)
      else
        let bearerToken = drop 7 token in
        case cd_event c (rq_Body r) of
          Inl err \<Rightarrow> (writeError StatusBadRequest (''invalid request body: '' @ Error_text err), w)
        | Inr req \<Rightarrow>
            if cer_TaskID req = [] then (writeError StatusBadRequest ''task_id is required'', w)
            else
              (case VerifyAgentToken (sv_store s) (cer_TaskID req) (Sum256 bearerToken) w of
                 (Inl err, w1) \<Rightarrow>
                   (writeError StatusInternalServerError
                      (''token verification failed: '' @ Error_text err), w1)
               | (Inr valid, w1) \<Rightarrow>
                   if \<not> valid then (writeError StatusUnauthorized ''invalid or revoked agent token'', w1)
                   else store_event (sv_store s) req w1))"

definition event_filter_of :: "codec \<Rightarrow> http_request \<Rightarrow> event_filter" where
  "event_filter_of c r =
     \<lparr>ef_TaskID = query_opt r ''task_id'', ef_EventType = query_opt r ''type'',
      ef_Since = Option.bind (query_opt r ''since'') (cd_rfc3339 c),
      ef_Limit = query_limit r, ef_Offset = query_offset r\<rparr>"

definition handleListEvents :: "codec \<Rightarrow> 'w server \<Rightarrow> 'w handler" where
  "handleListEvents c s r w =
     (case ListEvents (sv_store s) (event_filter_of c r) w of
        (Inl err, w1) \<Rightarrow>
          (writeError StatusInternalServerError (''failed to list events: '' @ Error_text err), w1)
      | (Inr events, w1) \<Rightarrow> (writeJSON StatusOK (BEvents (slice events)), w1))"

subsection \<open>Routes\<close>

text \<open>
  The patterns that both routers register, and the one a request selects: a literal segment
  before a wildcard, \<open>{name}\<close> one non-empty segment, \<open>GET\<close> also for \<open>HEAD\<close>. A path that is
  not canonical is redirected; the catch-all \<open>GET /{path...}\<close> makes every other miss one of
  the method.
\<close>

datatype route =
  Healthz | Readyz | ListSkillsRoute | GetSkillRoute string | CreateTaskRoute | ListTasksRoute
| GetTaskRoute string | CreateEventRoute | ListEventsRoute | SpaRoute | Redirect | MethodNotAllowed

definition is_get :: "string \<Rightarrow> bool" where
  "is_get m \<longleftrightarrow> m = ''GET'' \<or> m = ''HEAD''"

fun get_route :: "string list \<Rightarrow> route" where
  "get_route [a] = (if a = ''healthz'' then Healthz else if a = ''readyz'' then Readyz else SpaRoute)"
| "get_route [v, a] =
     (if v = ''v1'' \<and> a = ''skills'' then ListSkillsRoute
      else if v = ''v1'' \<and> a = ''tasks'' then ListTasksRoute
      else if v = ''v1'' \<and> a = ''events'' then ListEventsRoute
      else SpaRoute)"
| "get_route [v, a, x] =
     (if v = ''v1'' \<and> a = ''skills'' \<and> x \<noteq> [] then GetSkillRoute x
      else if v = ''v1'' \<and> a = ''tasks'' \<and> x \<noteq> [] then GetTaskRoute x
      else SpaRoute)"
| "get_route segs = SpaRoute"

definition mux_route :: "http_request \<Rightarrow> route" where
  "mux_route r =
     (if \<not> rq_Canonical r \<and> rq_Method r \<noteq> ''CONNECT'' then Redirect
      else if is_get (rq_Method r) then get_route (rq_Segments r)
      else if rq_Method r = ''POST'' \<and> rq_Segments r = [''v1'', ''tasks''] then CreateTaskRoute
      else if rq_Method r = ''POST'' \<and> rq_Segments r = [''v1'', ''events''] then CreateEventRoute
      else MethodNotAllowed)"

definition redirect_response :: http_response where
  "redirect_response =
     \<lparr>rs_Status = StatusMovedPermanently, rs_ContentType = [], rs_RequestID = None, rs_Body = BEmpty\<rparr>"

record assets =
  as_files :: "string \<Rightarrow> bool"
  as_uuid :: "host \<Rightarrow> string \<times> host"

definition server_mux :: "assets \<Rightarrow> codec \<Rightarrow> 'x world_scheme server \<Rightarrow> 'x world_scheme handler" where
  "server_mux x c s r w =
     (case mux_route r of
        Healthz \<Rightarrow> handleHealthz r w
      | Readyz \<Rightarrow> handleReadyz s r w
      | ListSkillsRoute \<Rightarrow> handleListSkills s r w
      | GetSkillRoute name \<Rightarrow> handleGetSkill s name r w
      | CreateTaskRoute \<Rightarrow> handleCreateTask c s r w
      | ListTasksRoute \<Rightarrow> handleListTasks s r w
      | GetTaskRoute i \<Rightarrow> handleGetTask s i r w
      | CreateEventRoute \<Rightarrow> handleCreateEvent c s r w
      | ListEventsRoute \<Rightarrow> handleListEvents c s r w
      | SpaRoute \<Rightarrow> spaHandler (as_files x) r w
      | Redirect \<Rightarrow> (redirect_response, w)
      | MethodNotAllowed \<Rightarrow> (http_Error ''Method Not Allowed'' StatusMethodNotAllowed, w))"

text \<open>\<open>Handler\<close> is built in the host \<open>h\<close>, where the API token is read.\<close>

definition Server_Handler ::
  "host \<Rightarrow> assets \<Rightarrow> codec \<Rightarrow> 'x world_scheme server \<Rightarrow> 'x world_scheme handler" where
  "Server_Handler h x c s = authMiddleware h (wrapMiddleware (as_uuid x) (server_mux x c s))"

definition stub_mux :: "assets \<Rightarrow> 'w handler" where
  "stub_mux x r w =
     (case mux_route r of
        Healthz \<Rightarrow> handleHealthz r w
      | Readyz \<Rightarrow> handleReadyzStub r w
      | ListSkillsRoute \<Rightarrow> stub ''GET /v1/skills'' r w
      | GetSkillRoute name \<Rightarrow> stub ''GET /v1/skills/{name}'' r w
      | CreateTaskRoute \<Rightarrow> stub ''POST /v1/tasks'' r w
      | ListTasksRoute \<Rightarrow> stub ''GET /v1/tasks'' r w
      | GetTaskRoute i \<Rightarrow> stub ''GET /v1/tasks/{id}'' r w
      | CreateEventRoute \<Rightarrow> stub ''POST /v1/events'' r w
      | ListEventsRoute \<Rightarrow> stub ''GET /v1/events'' r w
      | SpaRoute \<Rightarrow> spaHandler (as_files x) r w
      | Redirect \<Rightarrow> (redirect_response, w)
      | MethodNotAllowed \<Rightarrow> (http_Error ''Method Not Allowed'' StatusMethodNotAllowed, w))"

definition NewRouter :: "assets \<Rightarrow> 'x world_scheme handler" where
  "NewRouter x = wrapMiddleware (as_uuid x) (stub_mux x)"

subsection \<open>Who may do what\<close>

text \<open>The presented token of an agent, when the header has the form the handler asks for.\<close>

definition agent_bearer :: "http_request \<Rightarrow> string option" where
  "agent_bearer r =
     (let token = rq_Header r ''Authorization'' in
      if length token < 8 \<or> take 7 token \<noteq> ''Bearer '' then None else Some (drop 7 token))"

lemma handleCreateEvent_bearer:
  "handleCreateEvent c s r w =
     (case agent_bearer r of
        None \<Rightarrow> (writeError StatusUnauthorized ''missing or invalid Authorization header'', w)
      | Some tok \<Rightarrow>
          (case cd_event c (rq_Body r) of
             Inl err \<Rightarrow> (writeError StatusBadRequest (''invalid request body: '' @ Error_text err), w)
           | Inr req \<Rightarrow>
               if cer_TaskID req = [] then (writeError StatusBadRequest ''task_id is required'', w)
               else
                 (case VerifyAgentToken (sv_store s) (cer_TaskID req) (Sum256 tok) w of
                    (Inl err, w1) \<Rightarrow>
                      (writeError StatusInternalServerError
                         (''token verification failed: '' @ Error_text err), w1)
                  | (Inr valid, w1) \<Rightarrow>
                      if \<not> valid then (writeError StatusUnauthorized ''invalid or revoked agent token'', w1)
                      else store_event (sv_store s) req w1)))"
  by (simp add: handleCreateEvent_def agent_bearer_def Let_def)

text \<open>The request an API client sends with the right token.\<close>

definition api_authorized :: "string \<Rightarrow> http_request \<Rightarrow> bool" where
  "api_authorized token r \<longleftrightarrow>
     (case SplitN2 (rq_Header r ''Authorization'') CHR '' '' of
        [scheme, tok] \<Rightarrow> EqualFold scheme ''Bearer'' \<and> tok = token
      | _ \<Rightarrow> False)"

text \<open>What the authentication leaves to the handlers: probes, assets, agent events.\<close>

definition auth_exempt :: "http_request \<Rightarrow> bool" where
  "auth_exempt r \<longleftrightarrow>
     url_Path r = ''/healthz'' \<or> url_Path r = ''/readyz'' \<or> \<not> HasPrefix (url_Path r) ''/v1/'' \<or>
     (rq_Method r = ''POST'' \<and> url_Path r = ''/v1/events'')"

lemma SplitN2_length: "length (SplitN2 s c) = 2 \<longleftrightarrow> (\<exists>a b. SplitN2 s c = [a, b])"
  by (auto simp: SplitN2_def split: option.splits)

lemma check_bearer_pass:
  "api_authorized token r \<Longrightarrow> check_bearer token nxt r w = nxt r w"
  by (auto simp: api_authorized_def check_bearer_def Let_def SplitN2_def split: list.splits option.splits)

lemma check_bearer_stop:
  assumes "\<not> api_authorized token r"
  shows "\<exists>msg code. check_bearer token nxt r w = (http_Error msg code, w) \<and>
    (code = StatusUnauthorized \<or> code = StatusForbidden)"
  using assms
  by (auto simp: api_authorized_def check_bearer_def Let_def SplitN2_def split: list.splits option.splits)

lemma auth_handler_cases:
  "auth_handler token nxt r w =
     (if auth_exempt r then nxt r w else check_bearer token nxt r w)"
  by (auto simp: auth_handler_def auth_exempt_def)

text \<open>The world after a reading handler is the one after its store call.\<close>

lemma handler_worlds:
  "snd (handleHealthz r w) = w"
  "snd (spaHandler files r w) = w"
  "snd (handleReadyz s r w) = snd (Ping (sv_store s) w)"
  "snd (handleListSkills s r w) = snd (ListSkills (sv_store s) w)"
  "snd (handleGetSkill s n r w) = snd (GetSkill (sv_store s) n w)"
  "snd (handleListTasks s r w) = snd (ListTasks (sv_store s) (task_filter_of r) w)"
  "snd (handleGetTask s n r w) = snd (GetTask (sv_store s) n w)"
  "snd (handleListEvents c s r w) = snd (ListEvents (sv_store s) (event_filter_of c r) w)"
  by (simp_all add: handleHealthz_def spaHandler_def handleReadyz_def handleListSkills_def
      handleGetSkill_def handleListTasks_def handleGetTask_def handleListEvents_def Let_def
      split: prod.split sum.split option.split)

end
