(* ===== verification/Docker_Driver.thy ===== *)
theory Docker_Driver
  imports Runtime_Registry
begin

text \<open>
  The Docker driver (\<open>internal/runtime/docker/docker.go\<close>), a stub that never dispatches, and
  the setting all drivers share: the callback port.
\<close>

definition defaultPort :: string where [go_consts]: "defaultPort = ''8080''"
definition envPort :: string where [go_consts]: "envPort = ''HERMESMANAGER_PORT''"
definition envDocker :: string where [go_consts]: "envDocker = ''DOCKER_HOST''"

definition docker_port :: "host \<Rightarrow> string" where
  "docker_port h = (let port = Getenv h envPort in if port = [] then defaultPort else port)"

definition docker_unset :: error where
  "docker_unset = Errorf [] (Sentinel ErrRuntimeUnavailable) '': DOCKER_HOST not set''"

definition docker_unimplemented :: error where
  "docker_unimplemented =
     Errorf [] (Sentinel ErrRuntimeUnavailable) '': docker dispatch not yet implemented''"

definition Docker_Dispatch :: "task \<Rightarrow> skill \<Rightarrow> 'x world_scheme \<Rightarrow> handle result \<times> 'x world_scheme" where
  "Docker_Dispatch t sk w =
     (if Getenv (w_host w) envDocker = [] then (Inl docker_unset, w)
      else (Inl docker_unimplemented, w))"

definition Docker_Status :: "'w \<Rightarrow> (int \<times> int) result \<times> 'w" where
  "Docker_Status w = (Inr (0, 5), w)"

definition docker_New :: "host \<Rightarrow> 'x world_scheme runtime" where
  "docker_New h =
     \<lparr>rt_Name = ''docker'',
      rt_CallbackURL = ''http://host.docker.internal:'' @ docker_port h @ ''/v1/events'',
      rt_Dispatch = Docker_Dispatch, rt_Status = Docker_Status\<rparr>"

definition docker_factory :: "'x world_scheme factory" where
  "docker_factory h = Inr (docker_New h)"

end
