(* ===== verification/Local_Driver.thy ===== *)
theory Local_Driver
  imports Docker_Driver
begin

text \<open>
  The local-process driver (\<open>internal/runtime/local/local.go\<close>). Its state is the atomic
  counter, the table of handles and what it makes the operating system hold: the temporary
  directories and the processes. A process is bound to the context of the request that
  dispatched it, and is killed when that request ends; a goroutine per process waits for
  its exit and then gives the slot back.
\<close>

definition maxConcurrency :: int where [go_consts]: "maxConcurrency = 10"

subsection \<open>State\<close>

record task_json =
  tj_TaskID :: string
  tj_Skill :: string
  tj_Parameters :: json_map
  tj_PolicyContext :: policy_context
  tj_DeadlineSeconds :: int

definition task_json_of :: "task \<Rightarrow> task_json" where
  "task_json_of t =
     \<lparr>tj_TaskID = t_ID t, tj_Skill = t_SkillName t, tj_Parameters = t_Parameters t,
      tj_PolicyContext = t_PolicyContext t, tj_DeadlineSeconds = t_DeadlineSecs t\<rparr>"

record process =
  ps_Pid :: int
  ps_TaskID :: string
  ps_Entrypoint :: string
  ps_Dir :: string
  ps_Env :: "(string \<times> string) list"
  ps_Request :: nat
  ps_Running :: bool

text \<open>
  The operating system's answers are choices, indexed by a counter that every operation of
  a dispatch advances: the name of a new directory, the failure of a step (making the
  directory, encoding, writing, starting) and the pid of a new process. \<open>lo_procs\<close> are the processes whose
  goroutine has not finished, started first.
\<close>

datatype local_step = MkTemp | Marshal | WriteTask | Start

record local_state =
  lo_active :: int
  lo_handles :: "(string \<times> int) list"
  lo_dirs :: "(string \<times> task_json option) list"
  lo_procs :: "process list"
  lo_request :: nat
  lo_ticks :: nat
  lo_fault :: "nat \<Rightarrow> local_step \<Rightarrow> error option"
  lo_tmp :: "nat \<Rightarrow> string"
  lo_pid :: "nat \<Rightarrow> int"

definition local_CallbackURL :: "string \<Rightarrow> string" where
  "local_CallbackURL port = ''http://127.0.0.1:'' @ port @ ''/v1/events''"

subsection \<open>Dispatch\<close>

definition local_at_capacity :: "int \<Rightarrow> error" where
  "local_at_capacity n =
     Errorf [] (Sentinel ErrRuntimeUnavailable)
       ('': local driver at capacity ('' @ Itoa n @ ''/'' @ Itoa maxConcurrency @ '')'')"

text \<open>The registration of a started process: counter, handle, process.\<close>

definition local_started :: "process \<Rightarrow> local_state \<Rightarrow> local_state" where
  "local_started p l =
     l\<lparr>lo_active := lo_active l + 1,
       lo_handles := upsert_by fst (\<lambda>old. (fst old, ps_Pid p)) (ps_TaskID p, ps_Pid p) (lo_handles l),
       lo_procs := lo_procs l @ [p]\<rparr>"

text \<open>The command, its environment (the additions to the server's own) and its context.\<close>

definition agent_process ::
  "string \<Rightarrow> task \<Rightarrow> skill \<Rightarrow> int \<Rightarrow> string \<Rightarrow> string \<Rightarrow> local_state \<Rightarrow> process" where
  "agent_process port t sk pid tmpDir agentToken l =
     \<lparr>ps_Pid = pid, ps_TaskID = t_ID t, ps_Entrypoint = sk_Entrypoint sk, ps_Dir = tmpDir,
      ps_Env =
        [(''HERMESMANAGER_TASK_ID'', t_ID t),
         (''HERMESMANAGER_CALLBACK_URL'', local_CallbackURL port),
         (''HERMESMANAGER_AGENT_TOKEN'', agentToken)],
      ps_Request = lo_request l, ps_Running = True\<rparr>"

text \<open>The name that \<open>os.MkdirTemp\<close> gives a directory under \<open>os.TempDir()\<close>.\<close>

definition local_tmpDir :: "host \<Rightarrow> task \<Rightarrow> string \<Rightarrow> string" where
  "local_tmpDir h t sfx =
     (let tmp = Getenv h ''TMPDIR'';
          root = (if tmp = [] then ''/tmp'' else tmp)
      in root @ (if last root = CHR 0x2F then [] else ''/'') @ ''hermesmanager-task-'' @ t_ID t @ ''-'' @ sfx)"

text \<open>From the temporary directory to the started process, for an admitted dispatch.\<close>

definition local_spawn :: "string \<Rightarrow> task \<Rightarrow> skill \<Rightarrow> host \<times> local_state \<Rightarrow> handle result \<times> host \<times> local_state" where
  "local_spawn port t sk hl =
     (let (h, l0) = hl;
          n = lo_ticks l0;
          l = l0\<lparr>lo_ticks := Suc n\<rparr>
      in case lo_fault l n MkTemp of
           Some err \<Rightarrow> (Inl (Errorf ''local: create temp dir: '' err []), h, l)
         | None \<Rightarrow>
             (let tmpDir = local_tmpDir h t (lo_tmp l n);
                  l1 = l\<lparr>lo_dirs := lo_dirs l @ [(tmpDir, None)]\<rparr>
              in case lo_fault l n Marshal of
                   Some err \<Rightarrow> (Inl (Errorf ''local: marshal task json: '' err []), h, l1)
                 | None \<Rightarrow>
                     (case lo_fault l n WriteTask of
                        Some err \<Rightarrow> (Inl (Errorf ''local: write task.json: '' err []), h, l1)
                      | None \<Rightarrow>
                          (let l2 = l\<lparr>lo_dirs := lo_dirs l @ [(tmpDir, Some (task_json_of t))]\<rparr> in
                           case rand_Read 32 h of
                             ((_, Some err), h1) \<Rightarrow>
                               (Inl (Errorf ''local: generate agent token: '' err []), h1, l2)
                           | ((tokenBytes, None), h1) \<Rightarrow>
                               (case lo_fault l n Start of
                                  Some err \<Rightarrow> (Inl (Errorf ''local: start process: '' err []), h1, l2)
                                | None \<Rightarrow>
                                    (let p = agent_process port t sk (lo_pid l n) tmpDir (EncodeToString tokenBytes) l
                                     in (Inr \<lparr>hd_RuntimeName = ''local'', hd_ExternalID = Itoa (ps_Pid p)\<rparr>,
                                         h1, local_started p l2)))))))"

definition local_admits :: "local_state \<Rightarrow> bool" where
  "local_admits l \<longleftrightarrow> \<not> lo_active l \<ge> maxConcurrency"

definition Local_Dispatch :: "string \<Rightarrow> task \<Rightarrow> skill \<Rightarrow> host \<times> local_state \<Rightarrow> handle result \<times> host \<times> local_state" where
  "Local_Dispatch port t sk hl =
     (if \<not> local_admits (snd hl) then (Inl (local_at_capacity (lo_active (snd hl))), hl)
      else local_spawn port t sk hl)"

definition Local_Status :: "local_state \<Rightarrow> (int \<times> int) result \<times> local_state" where
  "Local_Status l = (Inr (lo_active l, maxConcurrency), l)"

subsection \<open>Processes and their contexts\<close>

text \<open>The end of a request cancels its context, which kills its processes.\<close>

definition local_cancel :: "nat \<Rightarrow> local_state \<Rightarrow> local_state" where
  "local_cancel q l =
     l\<lparr>lo_procs := map (\<lambda>p. if ps_Request p = q then p\<lparr>ps_Running := False\<rparr> else p) (lo_procs l)\<rparr>"

text \<open>A process exits by itself.\<close>

definition local_exit :: "int \<Rightarrow> local_state \<Rightarrow> local_state" where
  "local_exit pid l =
     l\<lparr>lo_procs := map (\<lambda>p. if ps_Pid p = pid then p\<lparr>ps_Running := False\<rparr> else p) (lo_procs l)\<rparr>"

text \<open>
  The goroutine of the process at position \<open>i\<close>, once the process has stopped: the slot, the
  handle and the directory are given back.
\<close>

definition local_reap :: "nat \<Rightarrow> local_state \<Rightarrow> local_state" where
  "local_reap i l =
     (if i < length (lo_procs l) \<and> \<not> ps_Running (lo_procs l ! i) then
        let p = lo_procs l ! i in
        l\<lparr>lo_active := lo_active l - 1,
          lo_handles := filter (\<lambda>h. fst h \<noteq> ps_TaskID p) (lo_handles l),
          lo_dirs := filter (\<lambda>d. fst d \<noteq> ps_Dir p) (lo_dirs l),
          lo_procs := take i (lo_procs l) @ drop (Suc i) (lo_procs l)\<rparr>
      else l)"

text \<open>\<open>New\<close>: the port; the counter starts at zero and no handle is held.\<close>

definition local_port :: "host \<Rightarrow> string" where
  "local_port h = (let port = Getenv h envPort in if port = [] then defaultPort else port)"

definition local_new :: "local_state \<Rightarrow> bool" where
  "local_new l \<longleftrightarrow> lo_active l = 0 \<and> lo_handles l = [] \<and> lo_procs l = []"

subsection \<open>What a dispatch does\<close>

lemma agent_process_sel:
  "ps_Pid (agent_process port t sk pid dir tok l) = pid"
  "ps_TaskID (agent_process port t sk pid dir tok l) = t_ID t"
  "ps_Entrypoint (agent_process port t sk pid dir tok l) = sk_Entrypoint sk"
  "ps_Dir (agent_process port t sk pid dir tok l) = dir"
  "map_of (ps_Env (agent_process port t sk pid dir tok l)) ''HERMESMANAGER_AGENT_TOKEN'' = Some tok"
  "map_of (ps_Env (agent_process port t sk pid dir tok l)) ''HERMESMANAGER_CALLBACK_URL'' =
     Some (local_CallbackURL port)"
  "ps_Request (agent_process port t sk pid dir tok l) = lo_request l"
  "ps_Running (agent_process port t sk pid dir tok l)"
  by (simp_all add: agent_process_def)

lemma agent_process_ticks:
  "agent_process port t sk pid dir tok (l\<lparr>lo_ticks := n\<rparr>) = agent_process port t sk pid dir tok l"
  by (simp add: agent_process_def)

lemma local_spawn_cases:
  assumes "local_spawn port t sk (h, l) = (r, h', l')"
  obtains (failed) e where "r = Inl e" and "lo_procs l' = lo_procs l" and "lo_active l' = lo_active l"
      and "lo_handles l' = lo_handles l"
  | (started) pid dir tok where
      "r = Inr \<lparr>hd_RuntimeName = ''local'', hd_ExternalID = Itoa pid\<rparr>"
      and "lo_procs l' = lo_procs l @ [agent_process port t sk pid dir (EncodeToString tok) l]"
      and "lo_active l' = lo_active l + 1"
      and "rand_Read 32 h = ((tok, None), h')"
      and "(dir, Some (task_json_of t)) \<in> set (lo_dirs l')"
      and "map_of (lo_handles l') = (map_of (lo_handles l))(t_ID t \<mapsto> pid)"
  using assms
  by (auto simp: local_spawn_def Let_def local_started_def map_of_upsert agent_process_sel
      agent_process_ticks
      split: option.splits prod.splits)

subsection \<open>Interleavings\<close>

text \<open>
  Dispatches run in concurrent request handlers, at most \<open>N\<close> at a time. The capacity check
  and the registration are separate steps: \<open>k\<close> counts the dispatches between the two.
\<close>

inductive local_inter :: "nat \<Rightarrow> nat \<times> local_state \<Rightarrow> nat \<times> local_state \<Rightarrow> bool" for N where
  admit: "local_admits l \<Longrightarrow> k < N \<Longrightarrow> local_inter N (k, l) (Suc k, l)"
| spawn: "local_spawn port t sk (h, l) = (r, h', l') \<Longrightarrow> local_inter N (Suc k, l) (k, l')"
| request: "local_inter N (k, l) (k, l\<lparr>lo_request := q\<rparr>)"
| cancel: "local_inter N (k, l) (k, local_cancel q l)"
| exit: "local_inter N (k, l) (k, local_exit pid l)"
| reap: "local_inter N (k, l) (k, local_reap i l)"

inductive_cases local_interE: "local_inter N s s'"

definition local_reach :: "nat \<Rightarrow> local_state \<Rightarrow> nat \<times> local_state \<Rightarrow> bool" where
  "local_reach N l0 s \<longleftrightarrow> (local_inter N)\<^sup>*\<^sup>* (0, l0) s"

text \<open>The counter is the number of unreaped processes; the slots may be oversubscribed by \<open>N - 1\<close>.\<close>

definition local_inv :: "nat \<Rightarrow> nat \<times> local_state \<Rightarrow> bool" where
  "local_inv N s \<longleftrightarrow>
     lo_active (snd s) = int (length (lo_procs (snd s))) \<and> fst s \<le> N \<and>
     lo_active (snd s) + int (fst s) \<le> maxConcurrency - 1 + int N"

lemma local_reap_procs:
  "local_reap i l = l \<or>
   (lo_active (local_reap i l) = lo_active l - 1 \<and>
    length (lo_procs (local_reap i l)) = length (lo_procs l) - 1 \<and> lo_procs l \<noteq> [])"
  by (auto simp: local_reap_def Let_def)

lemma local_inter_inv: "local_inter N s s' \<Longrightarrow> local_inv N s \<Longrightarrow> local_inv N s'"
proof (induction rule: local_inter.induct)
  case (admit l k)
  then show ?case by (simp add: local_inv_def local_admits_def)
next
  case (spawn t sk h l r h' l' k)
  from spawn(1) show ?case
    by (cases rule: local_spawn_cases) (use spawn(2) in \<open>simp_all add: local_inv_def\<close>)
next
  case (reap k l i)
  then show ?case
    using local_reap_procs [of i l] by (cases "lo_procs l") (auto simp: local_inv_def)
qed (simp_all add: local_inv_def local_cancel_def local_exit_def)

lemma local_reach_inv: "local_inv N (0, l) \<Longrightarrow> local_reach N l s \<Longrightarrow> local_inv N s"
  unfolding local_reach_def by (rotate_tac 1, induction rule: rtranclp_induct) (auto intro: local_inter_inv)

lemma local_new_inv: "local_new l \<Longrightarrow> local_inv N (0, l)"
  by (simp add: local_inv_def local_new_def maxConcurrency_def)

subsection \<open>Processes die with their request\<close>

definition running_for :: "nat \<Rightarrow> local_state \<Rightarrow> process list" where
  "running_for q l = filter (\<lambda>p. ps_Request p = q \<and> ps_Running p) (lo_procs l)"

lemma filter_cancelled_self:
  "filter (\<lambda>p. ps_Request p = q \<and> ps_Running p)
     (map (\<lambda>p. if ps_Request p = q then p\<lparr>ps_Running := False\<rparr> else p) ps) = []"
  by (induction ps) simp_all

lemma running_for_cancel: "running_for q (local_cancel q l) = []"
  by (simp add: running_for_def local_cancel_def filter_cancelled_self)

lemma filter_cancelled:
  "q' \<noteq> q \<Longrightarrow>
     filter (\<lambda>p. ps_Request p = q' \<and> ps_Running p)
       (map (\<lambda>p. if ps_Request p = q then p\<lparr>ps_Running := False\<rparr> else p) ps) =
     filter (\<lambda>p. ps_Request p = q' \<and> ps_Running p) ps"
  by (induction ps) simp_all

lemma running_for_cancel_other: "q' \<noteq> q \<Longrightarrow> running_for q' (local_cancel q l) = running_for q' l"
  by (simp add: running_for_def local_cancel_def filter_cancelled)

subsection \<open>Concrete states\<close>

definition ex_local :: local_state where
  "ex_local =
     \<lparr>lo_active = 0, lo_handles = [], lo_dirs = [], lo_procs = [], lo_request = 0, lo_ticks = 0,
      lo_fault = (\<lambda>n st. None), lo_tmp = (\<lambda>n. nat_dec n), lo_pid = (\<lambda>n. 100 + int n)\<rparr>"

definition ex_agent_task :: task where
  "ex_agent_task =
     \<lparr>t_ID = ''t1'', t_SkillName = ''hello'', t_Parameters = None,
      t_PolicyContext = \<lparr>pc_User = ''bob'', pc_Team = ''dev'', pc_ModelAllowed = None\<rparr>,
      t_Runtime = ''local'', t_State = TaskStatePending, t_CreatedAt = 5, t_UpdatedAt = 0,
      t_DeadlineSecs = 300\<rparr>"

definition ex_agent_skill :: skill where
  "ex_agent_skill =
     \<lparr>sk_Name = ''hello'', sk_Version = ''1'', sk_Description = [], sk_Entrypoint = ''run.py'',
      sk_Parameters = None, sk_RequiredTools = None, sk_RequiredModels = None,
      sk_SourceFile = [], sk_LoadedAt = 0\<rparr>"

lemma ex_local_new: "local_new ex_local"
  by (simp add: local_new_def ex_local_def)

text \<open>Without faults an admitted dispatch starts its process.\<close>

lemma local_dispatch_ok:
  assumes "local_admits l" and "lo_fault l = (\<lambda>n st. None)"
  shows "\<exists>hdl h' l'. Local_Dispatch port t sk (h, l) = (Inr hdl, h', l')"
  using assms by (auto simp: Local_Dispatch_def local_spawn_def rand_Read_def Let_def)

lemma local_spawn_starts:
  assumes "lo_fault l = (\<lambda>n st. None)"
  shows "\<exists>hdl h' l'. local_spawn port t sk (h, l) = (Inr hdl, h', l') \<and>
    lo_active l' = lo_active l + 1 \<and> lo_fault l' = lo_fault l"
  using assms by (simp add: local_spawn_def rand_Read_def Let_def local_started_def)

lemma local_fill:
  assumes "int n \<le> maxConcurrency"
  shows "\<exists>l. local_reach 2 ex_local (0, l) \<and> lo_active l = int n \<and> lo_fault l = (\<lambda>n st. None)"
  using assms
proof (induction n)
  case 0
  have "local_reach 2 ex_local (0, ex_local)" by (simp add: local_reach_def)
  moreover have "lo_active ex_local = int 0" "lo_fault ex_local = (\<lambda>n st. None)" by (simp_all add: ex_local_def)
  ultimately show ?case by blast
next
  case (Suc n)
  then obtain l where l: "local_reach 2 ex_local (0, l)" "lo_active l = int n" "lo_fault l = (\<lambda>n st. None)"
    by auto
  obtain hdl h' l' where sp: "local_spawn [] ex_agent_task ex_agent_skill (ex_host, l) = (Inr hdl, h', l')"
    and a: "lo_active l' = lo_active l + 1" "lo_fault l' = lo_fault l"
    using local_spawn_starts [OF l(3)] by blast
  have "local_admits l" using l(2) Suc.prems by (simp add: local_admits_def)
  then have "local_inter 2 (0, l) (Suc 0, l)" by (rule local_inter.admit) simp
  then have "local_reach 2 ex_local (0, l')"
    using l(1) local_inter.spawn [OF sp] unfolding local_reach_def by (meson rtranclp.rtrancl_into_rtrancl)
  with a l show ?case by (intro exI [of _ l']) simp
qed

subsection \<open>Properties\<close>

text \<open>
  C30: The local driver's slots. In every interleaving of dispatches, exits, request ends and
  reaping goroutines, the counter is the number of unreaped processes, and with at most
  \<open>N\<close> dispatches in flight it never exceeds the capacity by more than \<open>N - 1\<close>.
\<close>

theorem local_capacity:
  assumes "local_new l0" and "local_reach N l0 (k, l)"
  shows "lo_active l = int (length (lo_procs l)) \<and> lo_active l + int k \<le> maxConcurrency - 1 + int N"
  using local_reach_inv [OF local_new_inv [OF assms(1)] assms(2)] by (simp add: local_inv_def)

theorem local_capacity_witness:
  "\<exists>l. local_reach 2 ex_local (0, l) \<and> lo_active l = 10 \<and> length (lo_procs l) = 10"
proof -
  obtain l where l: "local_reach 2 ex_local (0, l)" "lo_active l = int 10"
    using local_fill [of 10] by (auto simp: maxConcurrency_def)
  from local_capacity [OF ex_local_new l(1)] l show ?thesis by auto
qed

text \<open>
  The capacity check is not atomic with the registration: with two dispatches in flight
  the driver reaches eleven processes, one more than its capacity of ten.
\<close>

lemma local_overshoot:
  "\<exists>l. local_reach 2 ex_local (0, l) \<and> lo_active l = maxConcurrency + 1"
proof -
  obtain l where l: "local_reach 2 ex_local (0, l)" "lo_active l = int 9" "lo_fault l = (\<lambda>n st. None)"
    using local_fill [of 9] by (auto simp: maxConcurrency_def)
  have adm: "local_admits l" using l(2) by (simp add: local_admits_def maxConcurrency_def)
  obtain hdl1 h1 l1 where 1: "local_spawn [] ex_agent_task ex_agent_skill (ex_host, l) = (Inr hdl1, h1, l1)"
    "lo_active l1 = lo_active l + 1" "lo_fault l1 = (\<lambda>n st. None)"
    using local_spawn_starts [OF l(3)] l(3) by metis
  obtain hdl2 h2 l2 where 2: "local_spawn [] ex_agent_task ex_agent_skill (ex_host, l1) = (Inr hdl2, h2, l2)"
    "lo_active l2 = lo_active l1 + 1"
    using local_spawn_starts [OF 1(3)] by metis
  have "local_inter 2 (0, l) (1, l)" "local_inter 2 (1, l) (2, l)"
    using local_inter.admit [OF adm, of 0 2] local_inter.admit [OF adm, of 1 2] by (simp_all add: numeral_2_eq_2)
  moreover have "local_inter 2 (2, l) (1, l1)" "local_inter 2 (1, l1) (0, l2)"
    using local_inter.spawn [OF 1(1), of 2 1] local_inter.spawn [OF 2(1), of 2 0]
    by (simp_all add: numeral_2_eq_2)
  ultimately have "(local_inter 2)\<^sup>*\<^sup>* (0, l) (0, l2)" by (meson converse_rtranclp_into_rtranclp rtranclp.rtrancl_refl)
  then have "local_reach 2 ex_local (0, l2)" using l(1) unfolding local_reach_def by (rule rtranclp_trans [rotated])
  with 1 2 l(2) show ?thesis by (intro exI [of _ l2]) (simp add: maxConcurrency_def)
qed

text \<open>
  An agent process does not outlive the request that dispatched it. A dispatch that
  succeeds leaves the agent running under the request's context, and the end of the request
  stops every process of the request.
\<close>

lemma agent_dies_with_request:
  assumes "Local_Dispatch port t sk (h, l) = (Inr hdl, h', l')"
  shows "list_ex (\<lambda>p. ps_TaskID p = t_ID t \<and> hd_ExternalID hdl = Itoa (ps_Pid p)) (running_for (lo_request l) l') \<and>
    running_for (lo_request l) (local_cancel (lo_request l) l') = []"
proof -
  from assms have sp: "local_spawn port t sk (h, l) = (Inr hdl, h', l')"
    by (simp add: Local_Dispatch_def split: if_splits)
  then show ?thesis
    by (cases rule: local_spawn_cases)
      (simp_all add: running_for_cancel, simp add: running_for_def agent_process_sel)
qed

lemma agent_dies_with_request_witness:
  "\<exists>h l. Local_Dispatch [] ex_agent_task ex_agent_skill (ex_host, ex_local) =
     (Inr \<lparr>hd_RuntimeName = ''local'', hd_ExternalID = ''100''\<rparr>, h, l) \<and> running_for 0 (local_cancel 0 l) = []"
proof -
  have "Itoa 100 = ''100''" by code_simp
  then obtain h l where d: "Local_Dispatch [] ex_agent_task ex_agent_skill (ex_host, ex_local) =
     (Inr \<lparr>hd_RuntimeName = ''local'', hd_ExternalID = ''100''\<rparr>, h, l)"
    by (simp add: Local_Dispatch_def local_admits_def local_spawn_def rand_Read_def Let_def ex_host_def
        ex_local_def maxConcurrency_def agent_process_def)
  from agent_dies_with_request [OF d] d show ?thesis by (auto simp: ex_local_def)
qed

end
