(* ===== verification/K8s_Driver.thy ===== *)
theory K8s_Driver
  imports Local_Driver
begin

text \<open>
  The Kubernetes driver (\<open>internal/runtime/k8s/driver.go\<close>). The client of the API server is
  a record of the calls the driver makes over the client's state \<open>'c\<close>; what the driver relies
  on is the locale \<open>kube_contract\<close>. The cluster of the development, an object table per kind
  whose calls fail as an oracle says, keeps that contract.
\<close>

subsection \<open>Objects\<close>

record owner_ref =
  or_APIVersion :: string
  or_Kind :: string
  or_Name :: string
  or_UID :: string
  or_Controller :: bool

record object_meta =
  om_Name :: string
  om_Namespace :: string
  om_Labels :: "(string \<times> string) list"
  om_OwnerReferences :: "owner_ref list"
  om_UID :: string

record config_map =
  cm_Meta :: object_meta
  cm_Data :: "(string \<times> task_json) list"

text \<open>An environment variable of a container: a value, or a key of a secret.\<close>

datatype env_value = EnvLiteral string | EnvSecret string string

record volume_mount =
  vm_Name :: string
  vm_MountPath :: string
  vm_ReadOnly :: bool

record container =
  ct_Name :: string
  ct_Image :: string
  ct_Env :: "(string \<times> env_value) list"
  ct_VolumeMounts :: "volume_mount list"

record job =
  jb_Meta :: object_meta
  jb_BackoffLimit :: int
  jb_PodLabels :: "(string \<times> string) list"
  jb_RestartPolicy :: string
  jb_Containers :: "container list"
  jb_Volumes :: "(string \<times> string) list"
  jb_Active :: int

record secret =
  sc_Meta :: object_meta
  sc_StringData :: "(string \<times> string) list"

text \<open>The calls of \<open>kubernetes.Interface\<close> that the driver makes; the first string is the namespace.\<close>

record 'c kube_client =
  kc_CreateConfigMap :: "string \<Rightarrow> config_map \<Rightarrow> 'c \<Rightarrow> config_map result \<times> 'c"
  kc_DeleteConfigMap :: "string \<Rightarrow> string \<Rightarrow> 'c \<Rightarrow> error option \<times> 'c"
  kc_CreateJob :: "string \<Rightarrow> job \<Rightarrow> 'c \<Rightarrow> job result \<times> 'c"
  kc_DeleteJob :: "string \<Rightarrow> string \<Rightarrow> 'c \<Rightarrow> error option \<times> 'c"
  kc_ListJobs :: "string \<Rightarrow> (string \<times> string) \<Rightarrow> 'c \<Rightarrow> job list result \<times> 'c"
  kc_CreateSecret :: "string \<Rightarrow> secret \<Rightarrow> 'c \<Rightarrow> secret result \<times> 'c"

subsection \<open>The driver\<close>

definition defaultNamespace :: string where [go_consts]: "defaultNamespace = ''default''"
definition defaultImage :: string where [go_consts]: "defaultImage = ''hermesmanager/demo-agent:latest''"
definition envNamespace :: string where [go_consts]: "envNamespace = ''HERMESMANAGER_NAMESPACE''"
definition envImage :: string where [go_consts]: "envImage = ''HERMESMANAGER_AGENT_IMAGE''"
definition k8s_maxConcurrency :: int where [go_consts]: "k8s_maxConcurrency = 50"
definition labelManaged :: string where [go_consts]: "labelManaged = ''hermesmanager.io/managed''"
definition labelTaskID :: string where [go_consts]: "labelTaskID = ''hermesmanager.io/task-id''"

record 'c driver =
  dr_client :: "'c kube_client option"
  dr_namespace :: string
  dr_port :: string
  dr_image :: string

type_synonym 'c driver_option = "'c driver \<Rightarrow> 'c driver"

definition WithClient :: "'c kube_client \<Rightarrow> 'c driver_option" where
  "WithClient c d = d\<lparr>dr_client := Some c\<rparr>"

definition WithNamespace :: "string \<Rightarrow> 'c driver_option" where
  "WithNamespace ns d = d\<lparr>dr_namespace := ns\<rparr>"

definition WithPort :: "string \<Rightarrow> 'c driver_option" where
  "WithPort port d = d\<lparr>dr_port := port\<rparr>"

definition WithImage :: "string \<Rightarrow> 'c driver_option" where
  "WithImage img d = d\<lparr>dr_image := img\<rparr>"

text \<open>
  \<open>New\<close>. \<open>in_cluster\<close> is what \<open>rest.InClusterConfig\<close> and \<open>kubernetes.NewForConfig\<close> give:
  the error of the first, the error of the second, or a client.
\<close>

datatype 'c in_cluster = NotInCluster error | NoClient error | InCluster "'c kube_client"

definition k8s_New :: "'c in_cluster \<Rightarrow> host \<Rightarrow> 'c driver_option list \<Rightarrow> 'c driver result" where
  "k8s_New inc h opts =
     (let d0 = \<lparr>dr_client = None,
                dr_namespace = envOr h envNamespace defaultNamespace,
                dr_port = envOr h envPort defaultPort,
                dr_image = envOr h envImage defaultImage\<rparr>;
          d = fold (\<lambda>opt d. opt d) opts d0
      in case dr_client d of
           Some _ \<Rightarrow> Inr d
         | None \<Rightarrow>
             (case inc of
                NotInCluster err \<Rightarrow> Inl (Errorf ''k8s: in-cluster config: '' err [])
              | NoClient err \<Rightarrow> Inl (Errorf ''k8s: create client: '' err [])
              | InCluster c \<Rightarrow> Inr (d\<lparr>dr_client := Some c\<rparr>)))"

definition k8s_CallbackURL :: "'c driver \<Rightarrow> string" where
  "k8s_CallbackURL d =
     ''http://hermesmanager.'' @ dr_namespace d @ ''.svc.cluster.local:'' @ dr_port d @ ''/v1/events''"

definition job_name :: "task \<Rightarrow> string" where
  "job_name t = ''hermesmanager-'' @ t_ID t"

definition task_labels :: "task \<Rightarrow> (string \<times> string) list" where
  "task_labels t = [(labelManaged, ''true''), (labelTaskID, t_ID t)]"

definition task_config_map :: "'c driver \<Rightarrow> task \<Rightarrow> config_map" where
  "task_config_map d t =
     \<lparr>cm_Meta = \<lparr>om_Name = job_name t @ ''-config'', om_Namespace = dr_namespace d,
                 om_Labels = task_labels t, om_OwnerReferences = [], om_UID = []\<rparr>,
      cm_Data = [(''task.json'', task_json_of t)]\<rparr>"

definition task_job :: "'c driver \<Rightarrow> task \<Rightarrow> config_map \<Rightarrow> job" where
  "task_job d t createdCM =
     \<lparr>jb_Meta = \<lparr>om_Name = job_name t, om_Namespace = dr_namespace d, om_Labels = task_labels t,
                 om_OwnerReferences = [], om_UID = []\<rparr>,
      jb_BackoffLimit = 0,
      jb_PodLabels = task_labels t,
      jb_RestartPolicy = ''Never'',
      jb_Containers =
        [\<lparr>ct_Name = ''agent'', ct_Image = dr_image d,
          ct_Env =
            [(''HERMESMANAGER_TASK_ID'', EnvLiteral (t_ID t)),
             (''HERMESMANAGER_CALLBACK_URL'', EnvLiteral (k8s_CallbackURL d)),
             (''HERMESMANAGER_AGENT_TOKEN'', EnvSecret (job_name t @ ''-token'') ''token'')],
          ct_VolumeMounts =
            [\<lparr>vm_Name = ''task-config'', vm_MountPath = ''/etc/hermesmanager'', vm_ReadOnly = True\<rparr>]\<rparr>],
      jb_Volumes = [(''task-config'', om_Name (cm_Meta createdCM))],
      jb_Active = 0\<rparr>"

definition task_secret :: "'c driver \<Rightarrow> task \<Rightarrow> job \<Rightarrow> string \<Rightarrow> secret" where
  "task_secret d t createdJob agentToken =
     \<lparr>sc_Meta = \<lparr>om_Name = job_name t @ ''-token'', om_Namespace = dr_namespace d,
                 om_Labels = task_labels t,
                 om_OwnerReferences =
                   [\<lparr>or_APIVersion = ''batch/v1'', or_Kind = ''Job'',
                     or_Name = om_Name (jb_Meta createdJob), or_UID = om_UID (jb_Meta createdJob),
                     or_Controller = True\<rparr>],
                 om_UID = []\<rparr>,
      sc_StringData = [(''token'', agentToken)]\<rparr>"

text \<open>The three creations and their cleanups, after the token is drawn; \<open>c\<close> is the client.\<close>

definition k8s_create ::
  "'c kube_client \<Rightarrow> 'c driver \<Rightarrow> task \<Rightarrow> string \<Rightarrow> 'c \<Rightarrow> handle result \<times> 'c" where
  "k8s_create c d t agentToken w =
     (let ns = dr_namespace d; cm = task_config_map d t in
      case kc_CreateConfigMap c ns cm w of
        (Inl err, w1) \<Rightarrow> (Inl (Errorf ''k8s: create configmap: '' err []), w1)
      | (Inr createdCM, w1) \<Rightarrow>
          (case kc_CreateJob c ns (task_job d t createdCM) w1 of
             (Inl err, w2) \<Rightarrow>
               (let (_, w3) = kc_DeleteConfigMap c ns (om_Name (cm_Meta cm)) w2
                in (Inl (Errorf ''k8s: create job: '' err []), w3))
           | (Inr createdJob, w2) \<Rightarrow>
               (case kc_CreateSecret c ns (task_secret d t createdJob agentToken) w2 of
                  (Inl err, w3) \<Rightarrow>
                    (let (_, w4) = kc_DeleteJob c ns (om_Name (jb_Meta createdJob)) w3;
                         (_, w5) = kc_DeleteConfigMap c ns (om_Name (cm_Meta cm)) w4
                     in (Inl (Errorf ''k8s: create secret: '' err []), w5))
                | (Inr _, w3) \<Rightarrow>
                    (Inr \<lparr>hd_RuntimeName = ''k8s'', hd_ExternalID = job_name t\<rparr>, w3))))"

text \<open>\<open>json.Marshal\<close> of the task fails where \<open>marshal\<close> says so.\<close>

definition K8s_Dispatch ::
  "(task_json \<Rightarrow> error option) \<Rightarrow> 'c kube_client \<Rightarrow> 'c driver \<Rightarrow> task \<Rightarrow> host \<times> 'c \<Rightarrow>
     handle result \<times> host \<times> 'c" where
  "K8s_Dispatch marshal c d t hw =
     (case rand_Read 32 (fst hw) of
        ((_, Some err), h1) \<Rightarrow> (Inl (Errorf ''k8s: generate agent token: '' err []), h1, snd hw)
      | ((tokenBytes, None), h1) \<Rightarrow>
          (case marshal (task_json_of t) of
             Some err \<Rightarrow> (Inl (Errorf ''k8s: marshal task json: '' err []), h1, snd hw)
           | None \<Rightarrow>
               (let (r, w1) = k8s_create c d t (EncodeToString tokenBytes) (snd hw) in (r, h1, w1))))"

definition K8s_Status :: "'c kube_client \<Rightarrow> 'c driver \<Rightarrow> 'c \<Rightarrow> (int \<times> int) result \<times> 'c" where
  "K8s_Status c d w =
     (case kc_ListJobs c (dr_namespace d) (labelManaged, ''true'') w of
        (Inl err, w1) \<Rightarrow> (Inl (Errorf ''k8s: list jobs: '' err []), w1)
      | (Inr jobs, w1) \<Rightarrow>
          (Inr (int (length (filter (\<lambda>j. jb_Active j > 0) jobs)), k8s_maxConcurrency), w1))"

lemma driver_ns:
  "om_Namespace (cm_Meta (task_config_map d t)) = dr_namespace d"
  "om_Namespace (jb_Meta (task_job d t cm)) = dr_namespace d"
  "om_Namespace (sc_Meta (task_secret d t j tok)) = dr_namespace d"
  by (simp_all add: task_config_map_def task_job_def task_secret_def)

subsection \<open>What the driver relies on\<close>

record cluster_view =
  cv_config :: "string \<times> string \<Rightarrow> config_map option"
  cv_jobs :: "string \<times> string \<Rightarrow> job option"
  cv_secrets :: "string \<times> string \<Rightarrow> secret option"

definition meta_key :: "object_meta \<Rightarrow> string \<times> string" where
  "meta_key m = (om_Namespace m, om_Name m)"

definition config_created :: "config_map \<Rightarrow> config_map \<Rightarrow> cluster_view \<Rightarrow> cluster_view \<Rightarrow> bool" where
  "config_created x x' v v' \<longleftrightarrow>
     cv_config v (meta_key (cm_Meta x)) = None \<and>
     (\<exists>u. x' = x\<lparr>cm_Meta := cm_Meta x\<lparr>om_UID := u\<rparr>\<rparr>) \<and>
     v' = v\<lparr>cv_config := (cv_config v)(meta_key (cm_Meta x) \<mapsto> x')\<rparr>"

definition job_created :: "job \<Rightarrow> job \<Rightarrow> cluster_view \<Rightarrow> cluster_view \<Rightarrow> bool" where
  "job_created x x' v v' \<longleftrightarrow>
     cv_jobs v (meta_key (jb_Meta x)) = None \<and>
     (\<exists>u. x' = x\<lparr>jb_Meta := jb_Meta x\<lparr>om_UID := u\<rparr>\<rparr>) \<and>
     v' = v\<lparr>cv_jobs := (cv_jobs v)(meta_key (jb_Meta x) \<mapsto> x')\<rparr>"

definition secret_created :: "secret \<Rightarrow> secret \<Rightarrow> cluster_view \<Rightarrow> cluster_view \<Rightarrow> bool" where
  "secret_created x x' v v' \<longleftrightarrow>
     cv_secrets v (meta_key (sc_Meta x)) = None \<and>
     (\<exists>u. x' = x\<lparr>sc_Meta := sc_Meta x\<lparr>om_UID := u\<rparr>\<rparr>) \<and>
     v' = v\<lparr>cv_secrets := (cv_secrets v)(meta_key (sc_Meta x) \<mapsto> x')\<rparr>"

text \<open>A creation that answers has created the object it returns, with the name it was sent.\<close>

locale kube_contract =
  fixes c :: "'c kube_client" and objs :: "'c \<Rightarrow> cluster_view"
  assumes create_config:
      "om_Namespace (cm_Meta x) = ns \<Longrightarrow> kc_CreateConfigMap c ns x w = (Inr x', w') \<Longrightarrow>
         config_created x x' (objs w) (objs w')"
    and create_job:
      "om_Namespace (jb_Meta j) = ns \<Longrightarrow> kc_CreateJob c ns j w = (Inr j', w') \<Longrightarrow>
         job_created j j' (objs w) (objs w')"
    and create_secret:
      "om_Namespace (sc_Meta s) = ns \<Longrightarrow> kc_CreateSecret c ns s w = (Inr s', w') \<Longrightarrow>
         secret_created s s' (objs w) (objs w')"
begin

text \<open>A dispatch that succeeds has added exactly the three objects of the task.\<close>

lemma create_ok:
  assumes "k8s_create c d t tok w = (Inr h, w')"
  shows "h = \<lparr>hd_RuntimeName = ''k8s'', hd_ExternalID = job_name t\<rparr> \<and>
    (\<exists>cm j s v1 v2. config_created (task_config_map d t) cm (objs w) v1 \<and>
       job_created (task_job d t cm) j v1 v2 \<and> secret_created (task_secret d t j tok) s v2 (objs w'))"
proof -
  let ?ns = "dr_namespace d"
  from assms obtain cm w1 j w2 s where
      1: "kc_CreateConfigMap c ?ns (task_config_map d t) w = (Inr cm, w1)"
    and 2: "kc_CreateJob c ?ns (task_job d t cm) w1 = (Inr j, w2)"
    and 3: "kc_CreateSecret c ?ns (task_secret d t j tok) w2 = (Inr s, w')"
    and h: "h = \<lparr>hd_RuntimeName = ''k8s'', hd_ExternalID = job_name t\<rparr>"
    by (auto simp: k8s_create_def Let_def split: prod.splits sum.splits)
  from create_config [OF driver_ns(1) 1] create_job [OF driver_ns(2) 2]
    create_secret [OF driver_ns(3) 3] h
  show ?thesis by blast
qed

end

subsection \<open>A cluster\<close>

text \<open>
  The objects an API server holds, with the failures of its round trips, the uids it deals
  out, the order of its listings and whether a deletion takes effect at once as choices. The
  pods of a job are not objects of it: what becomes of them is not the program's doing.
\<close>

record cluster =
  cl_configs :: "config_map list"
  cl_jobs :: "job list"
  cl_secrets :: "secret list"
  cl_ticks :: nat
  cl_fault :: "nat \<Rightarrow> fault option"
  cl_uid :: "nat \<Rightarrow> string"
  cl_scan :: "nat \<Rightarrow> job list \<Rightarrow> job list"
  cl_lingers :: "nat \<Rightarrow> bool"

abbreviation config_key :: "config_map \<Rightarrow> string \<times> string" where
  "config_key x \<equiv> meta_key (cm_Meta x)"
abbreviation job_key :: "job \<Rightarrow> string \<times> string" where
  "job_key x \<equiv> meta_key (jb_Meta x)"
abbreviation secret_key :: "secret \<Rightarrow> string \<times> string" where
  "secret_key x \<equiv> meta_key (sc_Meta x)"

definition already_exists :: "string \<Rightarrow> string \<Rightarrow> error" where
  "already_exists kind name = NewError (kind @ '' '' @ quote name @ '' already exists'')"

definition not_found_in :: "string \<Rightarrow> string \<Rightarrow> error" where
  "not_found_in kind name = NewError (kind @ '' '' @ quote name @ '' not found'')"

definition namespace_mismatch :: error where
  "namespace_mismatch =
     NewError ''the namespace of the provided object does not match the namespace sent on the request''"

text \<open>One round trip: \<open>f\<close> maps the tick and the objects to an error or an answer and new objects.\<close>

definition api_call :: "(nat \<Rightarrow> cluster \<Rightarrow> ('a \<times> cluster) result) \<Rightarrow> cluster \<Rightarrow> 'a result \<times> cluster" where
  "api_call f w =
     (let n = cl_ticks w; w0 = w\<lparr>cl_ticks := Suc n\<rparr> in
      case f n w0 of
        Inl e \<Rightarrow> (case cl_fault w n of None \<Rightarrow> (Inl e, w0) | Some (LostBefore x) \<Rightarrow> (Inl x, w0)
                 | Some (LostAfter x) \<Rightarrow> (Inl x, w0))
      | Inr (a, w1) \<Rightarrow> (case cl_fault w n of None \<Rightarrow> (Inr a, w1) | Some (LostBefore x) \<Rightarrow> (Inl x, w0)
                 | Some (LostAfter x) \<Rightarrow> (Inl x, w1)))"

definition create_config_map :: "string \<Rightarrow> config_map \<Rightarrow> nat \<Rightarrow> cluster \<Rightarrow> (config_map \<times> cluster) result" where
  "create_config_map ns x n w =
     (if om_Namespace (cm_Meta x) \<noteq> ns then Inl namespace_mismatch
      else if has_key config_key (config_key x) (cl_configs w)
        then Inl (already_exists ''configmaps'' (om_Name (cm_Meta x)))
      else let x' = x\<lparr>cm_Meta := cm_Meta x\<lparr>om_UID := cl_uid w n\<rparr>\<rparr>
           in Inr (x', w\<lparr>cl_configs := cl_configs w @ [x']\<rparr>))"

definition create_job_object :: "string \<Rightarrow> job \<Rightarrow> nat \<Rightarrow> cluster \<Rightarrow> (job \<times> cluster) result" where
  "create_job_object ns x n w =
     (if om_Namespace (jb_Meta x) \<noteq> ns then Inl namespace_mismatch
      else if has_key job_key (job_key x) (cl_jobs w)
        then Inl (already_exists ''jobs.batch'' (om_Name (jb_Meta x)))
      else let x' = x\<lparr>jb_Meta := jb_Meta x\<lparr>om_UID := cl_uid w n\<rparr>\<rparr>
           in Inr (x', w\<lparr>cl_jobs := cl_jobs w @ [x']\<rparr>))"

definition create_secret_object :: "string \<Rightarrow> secret \<Rightarrow> nat \<Rightarrow> cluster \<Rightarrow> (secret \<times> cluster) result" where
  "create_secret_object ns x n w =
     (if om_Namespace (sc_Meta x) \<noteq> ns then Inl namespace_mismatch
      else if has_key secret_key (secret_key x) (cl_secrets w)
        then Inl (already_exists ''secrets'' (om_Name (sc_Meta x)))
      else let x' = x\<lparr>sc_Meta := sc_Meta x\<lparr>om_UID := cl_uid w n\<rparr>\<rparr>
           in Inr (x', w\<lparr>cl_secrets := cl_secrets w @ [x']\<rparr>))"

definition delete_config_map :: "string \<Rightarrow> string \<Rightarrow> nat \<Rightarrow> cluster \<Rightarrow> (unit \<times> cluster) result" where
  "delete_config_map ns name n w =
     (if has_key config_key (ns, name) (cl_configs w)
      then Inr ((), if cl_lingers w n then w else w\<lparr>cl_configs := delete_by config_key (ns, name) (cl_configs w)\<rparr>)
      else Inl (not_found_in ''configmaps'' name))"

definition delete_job_object :: "string \<Rightarrow> string \<Rightarrow> nat \<Rightarrow> cluster \<Rightarrow> (unit \<times> cluster) result" where
  "delete_job_object ns name n w =
     (if has_key job_key (ns, name) (cl_jobs w)
      then Inr ((), if cl_lingers w n then w else w\<lparr>cl_jobs := delete_by job_key (ns, name) (cl_jobs w)\<rparr>)
      else Inl (not_found_in ''jobs.batch'' name))"

definition list_job_objects :: "string \<Rightarrow> string \<times> string \<Rightarrow> nat \<Rightarrow> cluster \<Rightarrow> (job list \<times> cluster) result" where
  "list_job_objects ns label n w =
     Inr (filter (\<lambda>j. om_Namespace (jb_Meta j) = ns \<and>
                      map_of (om_Labels (jb_Meta j)) (fst label) = Some (snd label))
            (scan_rows (cl_scan w n) (cl_jobs w)), w)"

definition error_of :: "unit result \<times> 'c \<Rightarrow> error option \<times> 'c" where
  "error_of r = (case r of (Inl e, w) \<Rightarrow> (Some e, w) | (Inr _, w) \<Rightarrow> (None, w))"

definition cluster_client :: "cluster kube_client" where
  "cluster_client =
     \<lparr>kc_CreateConfigMap = \<lambda>ns x. api_call (create_config_map ns x),
      kc_DeleteConfigMap = \<lambda>ns name w. error_of (api_call (delete_config_map ns name) w),
      kc_CreateJob = \<lambda>ns x. api_call (create_job_object ns x),
      kc_DeleteJob = \<lambda>ns name w. error_of (api_call (delete_job_object ns name) w),
      kc_ListJobs = \<lambda>ns label. api_call (list_job_objects ns label),
      kc_CreateSecret = \<lambda>ns x. api_call (create_secret_object ns x)\<rparr>"

definition cluster_objs :: "cluster \<Rightarrow> cluster_view" where
  "cluster_objs w =
     \<lparr>cv_config = \<lambda>k. lookup_by config_key k (cl_configs w),
      cv_jobs = \<lambda>k. lookup_by job_key k (cl_jobs w),
      cv_secrets = \<lambda>k. lookup_by secret_key k (cl_secrets w)\<rparr>"

lemma api_call_ok:
  "api_call f w = (Inr a, w') \<Longrightarrow> f (cl_ticks w) (w\<lparr>cl_ticks := Suc (cl_ticks w)\<rparr>) = Inr (a, w')"
  by (auto simp: api_call_def Let_def split: sum.splits prod.splits option.splits fault.splits)

lemma lookup_by_has_None: "\<not> has_key key k rs \<Longrightarrow> lookup_by key k rs = None"
  by (simp add: lookup_by_None)

lemma create_objects:
  "create_config_map ns x n w = Inr (x', w') \<Longrightarrow>
     config_created x x' (cluster_objs w) (cluster_objs w')"
  "create_job_object ns j n w = Inr (j', w') \<Longrightarrow>
     job_created j j' (cluster_objs w) (cluster_objs w')"
  "create_secret_object ns s n w = Inr (s', w') \<Longrightarrow>
     secret_created s s' (cluster_objs w) (cluster_objs w')"
  by (auto simp: create_config_map_def create_job_object_def create_secret_object_def Let_def
      config_created_def job_created_def secret_created_def cluster_objs_def meta_key_def
      lookup_by_append lookup_by_Cons lookup_by_has_None fun_eq_iff split: if_splits option.split)

lemma cluster_objs_ticks [simp]: "cluster_objs (w\<lparr>cl_ticks := n\<rparr>) = cluster_objs w"
  by (simp add: cluster_objs_def)

interpretation kube: kube_contract cluster_client cluster_objs
  by unfold_locales (auto simp: cluster_client_def dest!: api_call_ok create_objects)

subsection \<open>Properties\<close>

definition ex_cluster :: cluster where
  "ex_cluster =
     \<lparr>cl_configs = [], cl_jobs = [], cl_secrets = [], cl_ticks = 0, cl_fault = (\<lambda>n. None),
      cl_uid = (\<lambda>n. ''uid-'' @ nat_dec n), cl_scan = (\<lambda>n js. js),
      cl_lingers = (\<lambda>n. False)\<rparr>"

definition ex_driver :: "cluster driver" where
  "ex_driver =
     \<lparr>dr_client = Some cluster_client, dr_namespace = ''default'', dr_port = ''8080'', dr_image = ''img''\<rparr>"

text \<open>The three objects of a task hang together: names, references, owner and token.\<close>

definition task_objects ::
  "'c driver \<Rightarrow> task \<Rightarrow> bytes \<Rightarrow> cluster_view \<Rightarrow> cluster_view \<Rightarrow> bool" where
  "task_objects d t tok v v' \<longleftrightarrow>
     (\<exists>cm j s.
        v' = v\<lparr>cv_config := (cv_config v)((dr_namespace d, job_name t @ ''-config'') \<mapsto> cm),
               cv_jobs := (cv_jobs v)((dr_namespace d, job_name t) \<mapsto> j),
               cv_secrets := (cv_secrets v)((dr_namespace d, job_name t @ ''-token'') \<mapsto> s)\<rparr> \<and>
        cv_config v (dr_namespace d, job_name t @ ''-config'') = None \<and>
        cv_jobs v (dr_namespace d, job_name t) = None \<and>
        cv_secrets v (dr_namespace d, job_name t @ ''-token'') = None \<and>
        cm_Data cm = [(''task.json'', task_json_of t)] \<and>
        jb_Volumes j = [(''task-config'', om_Name (cm_Meta cm))] \<and>
        map (\<lambda>c. map_of (ct_Env c) ''HERMESMANAGER_AGENT_TOKEN'') (jb_Containers j) =
          [Some (EnvSecret (om_Name (sc_Meta s)) ''token'')] \<and>
        map_of (sc_StringData s) ''token'' = Some (EncodeToString tok) \<and>
        map or_UID (om_OwnerReferences (sc_Meta s)) = [om_UID (jb_Meta j)])"

text \<open>
  C28: A Kubernetes dispatch that succeeds has created exactly the three objects of the task,
  none of which existed: the config map with the task, the job that mounts it, and the secret
  that the job's container reads its token from, owned by the job and holding a fresh random
  token in hex.
\<close>

theorem k8s_dispatch_objects:
  assumes "K8s_Dispatch marshal cluster_client d t (h, c) = (Inr hdl, h', c')"
  shows "hdl = \<lparr>hd_RuntimeName = ''k8s'', hd_ExternalID = job_name t\<rparr> \<and>
    (\<exists>tok. rand_Read 32 h = ((tok, None), h') \<and>
       task_objects d t tok (cluster_objs c) (cluster_objs c'))"
proof -
  from assms obtain tok where r: "rand_Read 32 h = ((tok, None), h')"
    and k: "k8s_create cluster_client d t (EncodeToString tok) c = (Inr hdl, c')"
    by (auto simp: K8s_Dispatch_def Let_def split: prod.splits option.splits)
  from kube.create_ok [OF k] obtain cm j s v1 v2
    where h: "hdl = \<lparr>hd_RuntimeName = ''k8s'', hd_ExternalID = job_name t\<rparr>"
    and 1: "config_created (task_config_map d t) cm (cluster_objs c) v1"
    and 2: "job_created (task_job d t cm) j v1 v2"
    and 3: "secret_created (task_secret d t j (EncodeToString tok)) s v2 (cluster_objs c')" by blast
  from 1 obtain u where cm: "cm = (task_config_map d t)\<lparr>cm_Meta := (cm_Meta (task_config_map d t))\<lparr>om_UID := u\<rparr>\<rparr>"
    by (auto simp: config_created_def)
  from 2 obtain u where j: "j = (task_job d t cm)\<lparr>jb_Meta := (jb_Meta (task_job d t cm))\<lparr>om_UID := u\<rparr>\<rparr>"
    by (auto simp: job_created_def)
  from 3 obtain u where s: "s = (task_secret d t j (EncodeToString tok))\<lparr>sc_Meta := (sc_Meta (task_secret d t j (EncodeToString tok)))\<lparr>om_UID := u\<rparr>\<rparr>"
    by (auto simp: secret_created_def)
  have "task_objects d t tok (cluster_objs c) (cluster_objs c')"
    unfolding task_objects_def
    using 1 2 3
    by (intro exI [of _ cm] exI [of _ j] exI [of _ s])
      (simp add: config_created_def job_created_def secret_created_def meta_key_def
        task_config_map_def task_job_def task_secret_def cm j s)
  with h r show ?thesis by blast
qed

lemma ex_k8s_dispatch:
  "\<exists>h' c'. K8s_Dispatch (\<lambda>j. None) cluster_client ex_driver ex_agent_task (ex_host, ex_cluster) =
     (Inr \<lparr>hd_RuntimeName = ''k8s'', hd_ExternalID = ''hermesmanager-t1''\<rparr>, h', c')"
  by (simp add: K8s_Dispatch_def rand_Read_def ex_host_def k8s_create_def cluster_client_def api_call_def
      ex_cluster_def create_config_map_def create_job_object_def create_secret_object_def
      driver_ns Let_def job_name_def ex_agent_task_def ex_driver_def)

theorem k8s_dispatch_objects_witness:
  "\<exists>hdl h' c' tok. K8s_Dispatch (\<lambda>j. None) cluster_client ex_driver ex_agent_task (ex_host, ex_cluster) = (Inr hdl, h', c') \<and>
     task_objects ex_driver ex_agent_task tok (cluster_objs ex_cluster) (cluster_objs c')"
  using ex_k8s_dispatch k8s_dispatch_objects by blast

text \<open>
  A client that writes down, beside what it does, which objects the API server has acknowledged
  and for which a deletion was asked for.
\<close>

datatype kube_op = Made string string string | Dropped string string string

definition note_made :: "string \<Rightarrow> object_meta \<Rightarrow> 'a result \<times> 'c \<Rightarrow> kube_op list \<Rightarrow> 'a result \<times> 'c \<times> kube_op list" where
  "note_made kind m rw ops =
     (case rw of (Inl e, w) \<Rightarrow> (Inl e, w, ops) | (Inr x, w) \<Rightarrow> (Inr x, w, ops @ [Made kind (om_Namespace m) (om_Name m)]))"

definition recording :: "'c kube_client \<Rightarrow> ('c \<times> kube_op list) kube_client" where
  "recording c =
     \<lparr>kc_CreateConfigMap = \<lambda>ns x (w, ops). note_made ''ConfigMap'' (cm_Meta x) (kc_CreateConfigMap c ns x w) ops,
      kc_DeleteConfigMap = \<lambda>ns n (w, ops). (let (e, w1) = kc_DeleteConfigMap c ns n w in (e, w1, ops @ [Dropped ''ConfigMap'' ns n])),
      kc_CreateJob = \<lambda>ns x (w, ops). note_made ''Job'' (jb_Meta x) (kc_CreateJob c ns x w) ops,
      kc_DeleteJob = \<lambda>ns n (w, ops). (let (e, w1) = kc_DeleteJob c ns n w in (e, w1, ops @ [Dropped ''Job'' ns n])),
      kc_ListJobs = \<lambda>ns l (w, ops). (let (r, w1) = kc_ListJobs c ns l w in (r, w1, ops)),
      kc_CreateSecret = \<lambda>ns x (w, ops). note_made ''Secret'' (sc_Meta x) (kc_CreateSecret c ns x w) ops\<rparr>"

text \<open>Every object made before is asked to be deleted after, and nothing else is.\<close>

definition cleaned_up :: "kube_op list \<Rightarrow> bool" where
  "cleaned_up ops \<longleftrightarrow>
     (\<forall>k ns n i. i < length ops \<longrightarrow> ops ! i = Made k ns n \<longrightarrow> (\<exists>j. i < j \<and> j < length ops \<and> ops ! j = Dropped k ns n)) \<and>
     (\<forall>k ns n j. j < length ops \<longrightarrow> ops ! j = Dropped k ns n \<longrightarrow> (\<exists>i < j. ops ! i = Made k ns n))"

lemma cleaned_up_cases:
  "cleaned_up []" "cleaned_up [Made k ns n, Dropped k ns n]"
  "cleaned_up [Made k ns n, Made k2 ns2 n2, Dropped k2 ns2 n2, Dropped k ns n]"
  by (auto simp: cleaned_up_def less_Suc_eq nth_Cons numeral_eq_Suc split: nat.splits)

text \<open>What the API server is relied on for: a job is answered under the name it was sent.\<close>

definition keeps_job_names :: "'c kube_client \<Rightarrow> bool" where
  "keeps_job_names c \<longleftrightarrow>
     (\<forall>ns x w x' w'. kc_CreateJob c ns x w = (Inr x', w') \<longrightarrow> om_Name (jb_Meta x') = om_Name (jb_Meta x))"

lemma k8s_create_ops:
  assumes "keeps_job_names c"
    and "k8s_create (recording c) d t tok (w, []) = (Inl e, w', ops)"
  shows "cleaned_up ops"
proof -
  let ?ns = "dr_namespace d"
  let ?cm = "task_config_map d t"
  obtain r1 w1 where 1: "kc_CreateConfigMap c ?ns ?cm w = (r1, w1)" by (metis prod.exhaust)
  show ?thesis
  proof (cases r1)
    case (Inl x)
    with assms(2) 1 have "ops = []" by (simp add: k8s_create_def recording_def note_made_def)
    then show ?thesis by (simp add: cleaned_up_cases)
  next
    case cm: (Inr cm)
    obtain r2 w2 where 2: "kc_CreateJob c ?ns (task_job d t cm) w1 = (r2, w2)" by (metis prod.exhaust)
    show ?thesis
    proof (cases r2)
      case (Inl x)
      with assms(2) 1 2 cm have "ops = [Made ''ConfigMap'' ?ns (om_Name (cm_Meta ?cm)), Dropped ''ConfigMap'' ?ns (om_Name (cm_Meta ?cm))]"
        by (auto simp: k8s_create_def recording_def note_made_def driver_ns Let_def split: prod.splits)
      then show ?thesis by (simp add: cleaned_up_cases)
    next
      case j: (Inr j)
      from assms(1) 2 j have name: "om_Name (jb_Meta j) = om_Name (jb_Meta (task_job d t cm))"
        unfolding keeps_job_names_def by blast
      obtain r3 w3 where 3: "kc_CreateSecret c ?ns (task_secret d t j tok) w2 = (r3, w3)" by (metis prod.exhaust)
      with assms(2) 1 2 cm j have "ops = [Made ''ConfigMap'' ?ns (om_Name (cm_Meta ?cm)), Made ''Job'' ?ns (om_Name (jb_Meta j)),
          Dropped ''Job'' ?ns (om_Name (jb_Meta j)), Dropped ''ConfigMap'' ?ns (om_Name (cm_Meta ?cm))]"
        by (cases r3) (auto simp: k8s_create_def recording_def note_made_def driver_ns name Let_def split: prod.splits)
      then show ?thesis by (simp add: cleaned_up_cases)
    qed
  qed
qed

text \<open>
  C29: A Kubernetes dispatch that fails asks for the deletion of every object whose creation the
  API server has acknowledged, after its creation, and of nothing else: in particular of no
  object that was there before. This holds over every API client that answers a job under the
  name it was sent, whatever of its calls fails and whatever it makes of a deletion.
\<close>

theorem k8s_failure_cleans_up:
  assumes "keeps_job_names c"
    and "K8s_Dispatch marshal (recording c) d t (h, w, []) = (Inl e, h', w', ops)"
  shows "cleaned_up ops"
proof -
  from assms(2) have "ops = [] \<or> (\<exists>tok. k8s_create (recording c) d t tok (w, []) = (Inl e, w', ops))"
    by (auto simp: K8s_Dispatch_def Let_def split: prod.splits option.splits)
  then show ?thesis using k8s_create_ops [OF assms(1)] cleaned_up_cases(1) by blast
qed

text \<open>A secret of the same name is in the way: the job and the config map are to go again.\<close>

definition ex_cluster_secret :: cluster where
  "ex_cluster_secret =
     ex_cluster\<lparr>cl_secrets := [task_secret ex_driver ex_agent_task
       (task_job ex_driver ex_agent_task (task_config_map ex_driver ex_agent_task)) ''old'']\<rparr>"

definition ex_recorded :: "(cluster \<times> kube_op list) driver" where
  "ex_recorded =
     \<lparr>dr_client = Some (recording cluster_client), dr_namespace = ''default'', dr_port = ''8080'', dr_image = ''img''\<rparr>"

lemma cluster_job_names: "keeps_job_names cluster_client"
  by (auto simp: keeps_job_names_def cluster_client_def create_job_object_def Let_def dest!: api_call_ok split: if_splits)

theorem k8s_failure_cleans_up_witness:
  "\<exists>e h' c' ops. K8s_Dispatch (\<lambda>j. None) (recording cluster_client) ex_recorded ex_agent_task (ex_host, ex_cluster_secret, []) =
     (Inl (Errorf ''k8s: create secret: '' e []), h', c', ops) \<and> length ops = 4 \<and> cleaned_up ops"
proof -
  obtain e h' c' ops where d: "K8s_Dispatch (\<lambda>j. None) (recording cluster_client) ex_recorded ex_agent_task (ex_host, ex_cluster_secret, []) =
     (Inl (Errorf ''k8s: create secret: '' e []), h', c', ops)" and four: "length ops = 4"
    by (simp add: K8s_Dispatch_def rand_Read_def ex_host_def k8s_create_def recording_def note_made_def cluster_client_def api_call_def
      ex_cluster_secret_def ex_cluster_def create_config_map_def create_job_object_def create_secret_object_def
      driver_ns Let_def error_of_def delete_config_map_def delete_job_object_def has_key_Cons has_key_append
      task_secret_def meta_key_def ex_recorded_def ex_driver_def)
  from k8s_failure_cleans_up [OF cluster_job_names d] d four show ?thesis by blast
qed

end
