(* ===== verification/Api_Laws.thy ===== *)
theory Api_Laws
  imports Api
begin

text \<open>
  What the handlers do to the store, over the interfaces of \<open>task_service\<close>: every request
  keeps the store well formed, a reading request changes nothing, and a request to a
  database that answers makes one step of the abstract life cycle \<open>life\<close> of tasks and tokens.
\<close>

subsection \<open>The life cycle of tasks and tokens\<close>

text \<open>What an accepted event of type \<open>ty\<close> does to its task \<open>i\<close> and to the task's token.\<close>

definition finalized :: "string \<Rightarrow> string \<Rightarrow> abs_store \<Rightarrow> abs_store \<Rightarrow> bool" where
  "finalized i ty a a' \<longleftrightarrow>
     (case event_transition ty of
        None \<Rightarrow> a' = a
      | Some (state, terminal) \<Rightarrow>
          (\<exists>b. state_updated i state a b \<and> (if terminal then token_revoked i b a' else a' = b)))"

definition event_recorded :: "string \<Rightarrow> event \<Rightarrow> abs_store \<Rightarrow> abs_store \<Rightarrow> bool" where
  "event_recorded ev e a a' \<longleftrightarrow>
     as_events a ev = None \<and> e_ID e = ev \<and> e_Type e \<in> set event_types \<and> as_tasks a (e_TaskID e) \<noteq> None \<and>
     finalized (e_TaskID e) (e_Type e) (a\<lparr>as_events := (as_events a)(ev \<mapsto> e)\<rparr>) a'"

text \<open>
  The steps a request can make: a task that runs with its token, a task that was rolled back,
  or an event under the task's valid token.
\<close>

inductive life :: "abs_store \<Rightarrow> abs_store \<Rightarrow> bool" where
  stay: "life a a"
| created: "as_tasks a i = None \<Longrightarrow> only_task i a a' \<Longrightarrow>
    map_option t_State (as_tasks a' i) = Some state \<Longrightarrow> state \<in> {TaskStatePending, TaskStateRunning} \<Longrightarrow>
    token_valid a' i h \<Longrightarrow> life a a'"
| rolled_back: "rolled_back i a a' \<Longrightarrow> life a a'"
| event: "token_valid a (e_TaskID e) h \<Longrightarrow> event_recorded ev e a a' \<Longrightarrow> life a a'"

text \<open>A task in a final state has no valid token.\<close>

definition closed_tasks :: "abs_store \<Rightarrow> bool" where
  "closed_tasks a \<longleftrightarrow>
     (\<forall>i t h. as_tasks a i = Some t \<longrightarrow> terminal_state (t_State t) \<longrightarrow> \<not> token_valid a i h)"

text \<open>A task without a valid token.\<close>

definition frozen :: "string \<Rightarrow> task \<Rightarrow> abs_store \<Rightarrow> bool" where
  "frozen i t a \<longleftrightarrow> as_tasks a i = Some t \<and> (\<forall>h. \<not> token_valid a i h)"

lemma revoked_invalid: "token_revoked i a a' \<Longrightarrow> \<not> token_valid a' i h"
  by (auto simp: token_revoked_def token_valid_def split: option.splits)

lemma finalized_only:
  assumes "finalized i ty a a'"
  shows "only_task i a a'"
proof (cases "event_transition ty")
  case None
  with assms show ?thesis by (simp add: finalized_def)
next
  case (Some st)
  with assms obtain b where "state_updated i (fst st) a b" and "if snd st then token_revoked i b a' else a' = b"
    by (auto simp: finalized_def split_def)
  with only_task_effects(2) [of i "fst st" a b] only_task_effects(4) [of i b a'] show ?thesis
    using only_task_trans [of i a b a'] by (auto split: if_splits)
qed

lemma finalized_events: "finalized i ty a a' \<Longrightarrow> as_events a' = as_events a"
  using finalized_only by (auto simp: only_task_def)

lemma finalized_task:
  assumes "finalized i ty a a'" and "event_transition ty = Some (state, terminal)"
  shows "\<exists>t u. as_tasks a i = Some t \<and> as_tasks a' i = Some (t\<lparr>t_State := state, t_UpdatedAt := u\<rparr>)"
    and "terminal \<Longrightarrow> \<not> token_valid a' i h"
  using assms revoked_invalid
  by (auto simp: finalized_def state_updated_def token_revoked_def split: if_splits)

lemma event_transition_terminal:
  "event_transition ty = Some (state, terminal) \<Longrightarrow> terminal_state state \<longleftrightarrow> terminal"
  by (auto simp: event_transition_def terminal_state_def go_consts split: if_splits)

lemma only_task_token: "only_task i a a' \<Longrightarrow> j \<noteq> i \<Longrightarrow> token_valid a' j h = token_valid a j h"
  by (simp add: only_task_def token_valid_def)

lemma only_task_task: "only_task i a a' \<Longrightarrow> j \<noteq> i \<Longrightarrow> as_tasks a' j = as_tasks a j"
  by (simp add: only_task_def)

lemma event_recorded_other:
  assumes "event_recorded ev e a a'" and "j \<noteq> e_TaskID e"
  shows "as_tasks a' j = as_tasks a j" and "token_valid a' j h = token_valid a j h"
  using assms finalized_only [of "e_TaskID e" "e_Type e"]
  by (auto simp: event_recorded_def only_task_def token_valid_def)

text \<open>Only a step under a task's valid token changes an existing task.\<close>

lemma life_frozen: "life a a' \<Longrightarrow> frozen i t a \<Longrightarrow> frozen i t a'"
proof (induction rule: life.induct)
  case (created a j a' state h)
  then show ?case using only_task_task only_task_token by (cases "i = j") (auto simp: frozen_def)
next
  case (rolled_back j a a')
  then show ?case using only_task_task only_task_token
    by (cases "i = j") (auto simp: frozen_def rolled_back_def)
next
  case (event a e h ev a')
  then show ?case using event_recorded_other [OF event(2)]
    by (cases "i = e_TaskID e") (auto simp: frozen_def)
qed

lemma event_recorded_closed:
  assumes "event_recorded ev e a a'" and "token_valid a (e_TaskID e) h" and "closed_tasks a"
  shows "closed_tasks a'"
  unfolding closed_tasks_def
proof (intro allI impI)
  fix i t h'
  assume t: "as_tasks a' i = Some t" and fin: "terminal_state (t_State t)"
  show "\<not> token_valid a' i h'"
  proof (cases "i = e_TaskID e")
    case False
    note same = event_recorded_other [OF assms(1) False]
    from same t have "as_tasks a i = Some t" by simp
    with same fin assms(3) show ?thesis unfolding closed_tasks_def by blast
  next
    case True
    show ?thesis
    proof (cases "event_transition (e_Type e)")
      case None
      with assms(1) t True have "as_tasks a i = Some t"
        by (auto simp: event_recorded_def finalized_def)
      with assms(2,3) fin True show ?thesis by (auto simp: closed_tasks_def)
    next
      case (Some st)
      then obtain state terminal where tr: "event_transition (e_Type e) = Some (state, terminal)"
        by (cases st) auto
      with assms(1) t True have "t_State t = state" and c: "terminal \<Longrightarrow> \<forall>h. \<not> token_valid a' i h"
        using finalized_task [OF _ tr] by (fastforce simp: event_recorded_def)+
      with event_transition_terminal [OF tr] fin show ?thesis by blast
    qed
  qed
qed

lemma life_closed: "life a a' \<Longrightarrow> closed_tasks a \<Longrightarrow> closed_tasks a'"
proof (induction rule: life.induct)
  case (stay a)
  then show ?case .
next
  case (created a j a' state h)
  have "\<not> terminal_state state" using created(4) by (auto simp: terminal_state_def go_consts)
  with created show ?case unfolding closed_tasks_def
    by (metis (no_types, lifting) only_task_task only_task_token option.simps(9) option.inject)
next
  case (rolled_back j a a')
  then have "\<forall>h. \<not> token_valid a' j h" by (auto simp: rolled_back_def token_valid_def)
  with rolled_back show ?case unfolding closed_tasks_def rolled_back_def
    by (metis only_task_task only_task_token)
next
  case (event a e h ev a')
  then show ?case using event_recorded_closed by blast
qed

text \<open>How far a task has come; the states of a finished task are on one level.\<close>

datatype phase = Waiting | Active | Finished

instantiation phase :: linorder
begin

fun phase_rank :: "phase \<Rightarrow> nat" where
  "phase_rank Waiting = 0"
| "phase_rank Active = 1"
| "phase_rank Finished = 2"

definition less_eq_phase :: "phase \<Rightarrow> phase \<Rightarrow> bool" where
  "less_eq_phase p q \<longleftrightarrow> phase_rank p \<le> phase_rank q"

definition less_phase :: "phase \<Rightarrow> phase \<Rightarrow> bool" where
  "less_phase p q \<longleftrightarrow> phase_rank p < phase_rank q"

instance
proof
  fix p q :: phase
  show "p \<le> q \<Longrightarrow> q \<le> p \<Longrightarrow> p = q"
    by (cases p; cases q) (simp_all add: less_eq_phase_def)
qed (auto simp: less_eq_phase_def less_phase_def)

end

definition phase_of :: "string \<Rightarrow> phase" where
  "phase_of s = (if s = TaskStatePending then Waiting else if terminal_state s then Finished else Active)"

lemma Finished_top [simp]: "p \<le> Finished"
  by (cases p) (simp_all add: less_eq_phase_def)

text \<open>The row of a task later on: only its state and its date have changed, and the state forward.\<close>

definition advanced :: "task \<Rightarrow> task \<Rightarrow> bool" where
  "advanced t t' \<longleftrightarrow>
     (\<exists>s u. t' = t\<lparr>t_State := s, t_UpdatedAt := u\<rparr>) \<and> phase_of (t_State t) \<le> phase_of (t_State t')"

lemma advanced_refl [simp]: "advanced t t"
  unfolding advanced_def by (intro conjI exI [of _ "t_State t"] exI [of _ "t_UpdatedAt t"]) simp_all

lemma advanced_trans:
  assumes "advanced t t1" and "advanced t1 t2"
  shows "advanced t t2"
proof -
  from assms obtain s u s' u' where "t1 = t\<lparr>t_State := s, t_UpdatedAt := u\<rparr>" and "t2 = t1\<lparr>t_State := s', t_UpdatedAt := u'\<rparr>"
    by (auto simp: advanced_def)
  then have "t2 = t\<lparr>t_State := s', t_UpdatedAt := u'\<rparr>" by simp
  then have "\<exists>s u. t2 = t\<lparr>t_State := s, t_UpdatedAt := u\<rparr>" by (intro exI [of _ s'] exI [of _ u'])
  moreover have "phase_of (t_State t) \<le> phase_of (t_State t2)"
    using assms unfolding advanced_def by (elim conjE) (rule order_trans)
  ultimately show ?thesis unfolding advanced_def by (rule conjI)
qed

lemma event_phase:
  assumes "event_transition ty = Some (state, terminal)" and "phase_of s \<noteq> Finished"
  shows "phase_of s \<le> phase_of state"
  using assms
  by (auto simp: event_transition_def phase_of_def terminal_state_def less_eq_phase_def go_consts split: if_splits)

lemma life_advances:
  assumes "life a a'" and "closed_tasks a" and "as_tasks a i = Some t"
  shows "\<exists>t'. as_tasks a' i = Some t' \<and> advanced t t'"
  using assms
proof (cases rule: life.cases)
  case (created j state h)
  with assms(3) only_task_task [OF created(2)] show ?thesis by (cases "i = j") auto
next
  case (rolled_back j)
  then have "as_tasks a j = None" "only_task j a a'" by (auto simp: rolled_back_def)
  with assms(3) only_task_task [of j a a' i] show ?thesis by (cases "i = j") auto
next
  case (event e h ev)
  show ?thesis
  proof (cases "i = e_TaskID e \<and> event_transition (e_Type e) \<noteq> None")
    case False
    with event assms(3) event_recorded_other(1) [OF event(2), of i] have "as_tasks a' i = Some t"
      by (cases "event_transition (e_Type e)") (auto simp: event_recorded_def finalized_def)
    then show ?thesis by simp
  next
    case True
    then obtain state terminal where tr: "event_transition (e_Type e) = Some (state, terminal)" by auto
    from event(2) finalized_task(1) [OF _ tr] True assms(3)
    obtain u where "as_tasks a' i = Some (t\<lparr>t_State := state, t_UpdatedAt := u\<rparr>)"
      by (fastforce simp: event_recorded_def)
    moreover have "phase_of (t_State t) \<noteq> Finished"
      using event(1) assms(2,3) True by (auto simp: closed_tasks_def phase_of_def split: if_splits)
    ultimately show ?thesis using event_phase [OF tr] by (auto simp: advanced_def)
  qed
qed auto

text \<open>The routes that the authentication leaves open.\<close>

lemma exempt_routes:
  assumes "auth_exempt r"
  shows "mux_route r \<in> {Healthz, Readyz, SpaRoute, CreateEventRoute, Redirect, MethodNotAllowed}"
proof (cases "is_get (rq_Method r)")
  case True
  then have "rq_Method r \<noteq> ''POST''" by (auto simp: is_get_def)
  with assms have "url_Path r = ''/healthz'' \<or> url_Path r = ''/readyz'' \<or> \<not> HasPrefix (url_Path r) ''/v1/''"
    by (simp add: auth_exempt_def)
  then have no_api: "\<And>a xs. rq_Segments r = ''v1'' # a # xs \<Longrightarrow> False"
    by (auto simp: url_Path_def)
  have "get_route (rq_Segments r) \<in> {Healthz, Readyz, SpaRoute}"
  proof (cases "rq_Segments r" rule: get_route.cases)
    case (2 v a)
    with no_api [of a "[]"] have "v \<noteq> ''v1''" by blast
    with 2 show ?thesis by simp
  next
    case (3 v a x)
    with no_api [of a "[x]"] have "v \<noteq> ''v1''" by blast
    with 3 show ?thesis by simp
  qed simp_all
  with True show ?thesis by (auto simp: mux_route_def)
next
  case False
  with assms show ?thesis by (auto simp: mux_route_def auth_exempt_def url_Path_def)
qed

subsection \<open>The handlers over the store's contract\<close>

context task_service
begin

lemma reads_keep:
  assumes "wf w" and "is_get (rq_Method r)" and "server_mux x c s r w = (resp, w')"
  shows "wf w' \<and> view w' = view w"
proof -
  have w': "w' = snd (server_mux x c s r w)" by (simp add: assms(3))
  note laws = list_skills [OF assms(1)] get_skill [OF assms(1)] list_tasks [OF assms(1)]
    get_task [OF assms(1)] list_events [OF assms(1)] ping [OF assms(1)]
  from assms(2) have "mux_route r \<noteq> CreateTaskRoute" "mux_route r \<noteq> CreateEventRoute"
    by (auto simp: mux_route_def split: if_splits elim: get_route.elims)
  then show ?thesis unfolding w' server_mux_def
    by (cases "mux_route r") (simp_all add: handler_worlds assms(1) laws [OF surjective_pairing])
qed

text \<open>Only the holder of the task's valid token changes anything through the event endpoint.\<close>

lemma event_needs_token:
  assumes "wf w" and "handleCreateEvent c s r w = (resp, w')"
    and "view w' \<noteq> view w \<or> rs_Status resp = StatusCreated"
  shows "\<exists>tok req. agent_bearer r = Some tok \<and> cd_event c (rq_Body r) = Inr req \<and>
    token_valid (view w) (cer_TaskID req) (Sum256 tok) \<and>
    (\<exists>w1. view w1 = view w \<and> wf w1 \<and> (up w \<longrightarrow> up w1) \<and> store_event (sv_store s) req w1 = (resp, w'))"
proof -
  from assms(2,3) obtain tok req v w1 where t: "agent_bearer r = Some tok"
    and req: "cd_event c (rq_Body r) = Inr req"
    and ver: "VerifyAgentToken (sv_store s) (cer_TaskID req) (Sum256 tok) w = (v, w1)"
    and st: "v = Inr True \<and> store_event (sv_store s) req w1 = (resp, w') \<or> v \<noteq> Inr True \<and> w' = w1 \<and> rs_Status resp \<noteq> StatusCreated"
    by (auto simp: handleCreateEvent_bearer writeError_def writeJSON_def go_consts
        split: option.splits sum.splits if_splits prod.splits)
  note v = verify_token [OF assms(1) ver] live_verify [OF _ ver]
  with st assms(3) show ?thesis using t req by auto
qed

lemma event_closed:
  assumes "wf w" and "up w" and "cd_event c (rq_Body r) = Inr req"
    and "\<forall>h. \<not> token_valid (view w) (cer_TaskID req) h" and "handleCreateEvent c s r w = (resp, w')"
    and "cer_TaskID req \<noteq> []"
  shows "rs_Status resp = StatusUnauthorized \<and> view w' = view w"
proof (cases "agent_bearer r")
  case None
  with assms(5) show ?thesis by (auto simp: handleCreateEvent_bearer writeError_def writeJSON_def)
next
  case (Some tok)
  obtain v w1 where ver: "VerifyAgentToken (sv_store s) (cer_TaskID req) (Sum256 tok) w = (v, w1)"
    by (metis prod.exhaust)
  from verify_token [OF assms(1) ver] live_verify [OF assms(2) ver] assms(4)
  have "v = Inr False" "view w1 = view w" by (cases v; simp)+
  with assms(3,5,6) Some ver show ?thesis
    by (simp add: handleCreateEvent_bearer writeError_def writeJSON_def)
       (auto simp: writeError_def writeJSON_def)
qed

text \<open>The middleware around a handler: its own steps concern the process only.\<close>

lemma wrap_view:
  assumes "wrapMiddleware uuid nxt r w = (resp, w')"
  shows "\<exists>w0 resp0 w1.
    nxt (r\<lparr>rq_Body := MaxBytesReader maxBodySize (rq_Body r)\<rparr>) w0 = (resp0, w1) \<and>
    view w0 = view w \<and> (wf w0 \<longleftrightarrow> wf w) \<and> (up w0 \<longleftrightarrow> up w) \<and>
    view w' = view w1 \<and> (wf w' \<longleftrightarrow> wf w1) \<and> (up w' \<longleftrightarrow> up w1) \<and>
    rs_Status resp = rs_Status resp0 \<and> rs_Body resp = rs_Body resp0 \<and> rs_RequestID resp \<noteq> None"
proof -
  obtain i wa where a: "(if rq_Header r ''X-Request-ID'' = [] then with_host uuid w
      else (rq_Header r ''X-Request-ID'', w)) = (i, wa)" by (metis prod.exhaust)
  have 1: "view wa = view w \<and> (wf wa \<longleftrightarrow> wf w) \<and> (up wa \<longleftrightarrow> up w)"
    using a host_step [of uuid w i wa] by (auto split: if_splits)
  obtain start w0 where b: "with_host Now wa = (start, w0)" by (metis prod.exhaust)
  obtain resp0 w1 where c: "nxt (r\<lparr>rq_Body := MaxBytesReader maxBodySize (rq_Body r)\<rparr>) w0 = (resp0, w1)"
    by (metis prod.exhaust)
  obtain stop w2 where d: "with_host Now w1 = (stop, w2)" by (metis prod.exhaust)
  obtain u w3 where e: "with_host (log_access (rq_Method r, url_Path r, rs_Status resp0, stop - start)) w2 = (u, w3)"
    by (metis prod.exhaust)
  have "resp = resp0\<lparr>rs_RequestID := Some i\<rparr>" "w' = w3"
    using assms a b c d e
    by (simp_all add: wrapMiddleware_def RequestIDMiddleware_def LoggingMiddleware_def limitBody_def)
  with 1 host_step [OF b] host_step [OF d] host_step [OF e] c show ?thesis
    by (intro exI [of _ w0] exI [of _ resp0] exI [of _ w1]) simp
qed


text \<open>The switch on the event's type, on a database that answers.\<close>

lemma event_transition_states: "event_transition ty = Some (state, terminal) \<Longrightarrow> state \<in> set task_states"
  by (auto simp: event_transition_def task_states_def split: if_splits)

lemma finalize_live:
  assumes "wf w" and "up w" and "as_tasks (view w) i \<noteq> None"
    and "finalize_event (sv_store s) i ty w = (r, w')"
  shows "r = None \<and> wf w' \<and> up w' \<and> finalized i ty (view w) (view w')"
proof (cases "event_transition ty")
  case None
  with assms show ?thesis by (simp add: finalize_event_def finalized_def)
next
  case (Some st)
  then obtain state terminal where tr: "event_transition ty = Some (state, terminal)" by (cases st) auto
  obtain e1 w1 where u: "UpdateTaskState (sv_store s) i state w = (e1, w1)" by (metis prod.exhaust)
  from live_update [OF assms(2) u] assms(3) event_transition_states [OF tr] have 1: "e1 = None" "up w1" by auto
  with update_state [OF assms(1) u] have 2: "wf w1" "state_updated i state (view w) (view w1)" by auto
  obtain e2 w2 where r: "RevokeAgentToken (sv_store s) i w1 = (e2, w2)" by (metis prod.exhaust)
  from live_revoke [OF 1(2) r] revoke_token [OF 2(1) r]
  have 3: "up w2" "wf w2" "token_revoked i (view w1) (view w2)" by auto
  show ?thesis
  proof (cases terminal)
    case False
    with assms(4) tr u 1 have "r = None" "w' = w1" by (auto simp: finalize_event_def)
    with 1 2 tr False show ?thesis by (auto simp: finalized_def)
  next
    case True
    with assms(4) tr u 1 r have rw: "r = None" "w' = w2" by (auto simp: finalize_event_def)
    with 2(2) 3 tr True show ?thesis by (auto simp: finalized_def)
  qed
qed

text \<open>The run of an event under an accepted token.\<close>

lemma store_event_run:
  assumes "store_event (sv_store s) req w = (resp, w')"
  obtains i now w1 a w2 f w3 where
    "view w1 = view w" "wf w1 \<longleftrightarrow> wf w" "up w1 \<longleftrightarrow> up w" "cer_ID req \<noteq> [] \<longrightarrow> i = cer_ID req"
    "AppendEvent (sv_store s) \<lparr>e_ID = i, e_TaskID = cer_TaskID req, e_Type = cer_Type req,
       e_Payload = cer_Payload req, e_CreatedAt = now\<rparr> w1 = (a, w2)"
    "finalize_event (sv_store s) (cer_TaskID req) (cer_Type req) w2 = (f, w3)"
    "(resp, w') =
       (case a of
          Some err \<Rightarrow> (writeError StatusInternalServerError (''failed to store event: '' @ Error_text err), w2)
        | None \<Rightarrow> (case f of Some r \<Rightarrow> r | None \<Rightarrow> writeJSON StatusCreated (BObject [(''id'', i)]), w3))"
proof -
  obtain i w0 where g: "(if cer_ID req = [] then generateID ''evt'' w else (cer_ID req, w)) = (i, w0)"
    by (metis prod.exhaust)
  have 0: "view w0 = view w \<and> (wf w0 \<longleftrightarrow> wf w) \<and> (up w0 \<longleftrightarrow> up w)" "cer_ID req \<noteq> [] \<longrightarrow> i = cer_ID req"
    using g generateID_step [of "''evt''" w i w0] by (auto split: if_splits)
  obtain now w1 where clock: "with_host Now w0 = (now, w1)" by (metis prod.exhaust)
  obtain a w2 where ap: "AppendEvent (sv_store s)
      \<lparr>e_ID = i, e_TaskID = cer_TaskID req, e_Type = cer_Type req, e_Payload = cer_Payload req, e_CreatedAt = now\<rparr> w1 = (a, w2)"
    by (metis prod.exhaust)
  obtain f w3 where fin: "finalize_event (sv_store s) (cer_TaskID req) (cer_Type req) w2 = (f, w3)"
    by (metis prod.exhaust)
  from assms have "(resp, w') = store_event (sv_store s) req w" by simp
  also have "\<dots> = (case a of
        Some err \<Rightarrow> (writeError StatusInternalServerError (''failed to store event: '' @ Error_text err), w2)
      | None \<Rightarrow> (case f of Some r \<Rightarrow> r | None \<Rightarrow> writeJSON StatusCreated (BObject [(''id'', i)]), w3))"
    using g clock ap fin by (simp add: store_event_def split: option.split)
  finally show thesis using 0(1) host_step [OF clock] by (intro that [OF _ _ _ 0(2) ap fin]) auto
qed

text \<open>An accepted token's event, on a database that answers: recorded, or refused without effect.\<close>

lemma store_event_live:
  assumes "wf w" and "up w" and "store_event (sv_store s) req w = (resp, w')"
  shows "wf w' \<and> up w' \<and>
    (rs_Status resp = StatusInternalServerError \<and> view w' = view w \<or>
     rs_Status resp = StatusCreated \<and>
       (\<exists>ev e. rs_Body resp = BObject [(''id'', ev)] \<and> e_TaskID e = cer_TaskID req \<and>
          e_Type e = cer_Type req \<and> e_Payload e = cer_Payload req \<and>
          (cer_ID req \<noteq> [] \<longrightarrow> ev = cer_ID req) \<and> event_recorded ev e (view w) (view w')))"
proof -
  from assms(3) obtain i now w1 a w2 f w3 where
      1: "view w1 = view w" "wf w1 \<longleftrightarrow> wf w" "up w1 \<longleftrightarrow> up w" and id: "cer_ID req \<noteq> [] \<longrightarrow> i = cer_ID req"
    and ap: "AppendEvent (sv_store s) \<lparr>e_ID = i, e_TaskID = cer_TaskID req, e_Type = cer_Type req,
       e_Payload = cer_Payload req, e_CreatedAt = now\<rparr> w1 = (a, w2)"
    and fin: "finalize_event (sv_store s) (cer_TaskID req) (cer_Type req) w2 = (f, w3)"
    and run: "(resp, w') =
       (case a of
          Some err \<Rightarrow> (writeError StatusInternalServerError (''failed to store event: '' @ Error_text err), w2)
        | None \<Rightarrow> (case f of Some r \<Rightarrow> r | None \<Rightarrow> writeJSON StatusCreated (BObject [(''id'', i)]), w3))"
    by (rule store_event_run)
  from 1 assms(1,2) have w1: "wf w1" "up w1" by auto
  note w2 = append_event [OF w1(1) ap] live_append [OF w1(2) ap]
  show ?thesis
  proof (cases a)
    case (Some err)
    with live_append_err [OF w1(2)] ap w2 1(1) run show ?thesis by (auto simp: writeError_def writeJSON_def)
  next
    case None
    define e where "e d = \<lparr>e_ID = i, e_TaskID = cer_TaskID req, e_Type = cer_Type req,
       e_Payload = cer_Payload req, e_CreatedAt = d\<rparr>" for d
    from w2 None 1(1) obtain d where v2: "view w2 = (view w)\<lparr>as_events := (as_events (view w))(i \<mapsto> e d)\<rparr>"
      and row: "as_events (view w) i = None" "as_tasks (view w) (cer_TaskID req) \<noteq> None" "cer_Type req \<in> set event_types"
      by (auto simp: event_appended_def e_def)
    with w2 finalize_live [OF _ _ _ fin] have "f = None" and w3: "wf w3" "up w3"
      and tr: "finalized (cer_TaskID req) (cer_Type req) (view w2) (view w3)" by auto
    from tr row have "event_recorded i (e d) (view w) (view w3)"
      unfolding event_recorded_def v2 by (simp add: e_def)
    with run None \<open>f = None\<close> w3 id show ?thesis
      by (intro conjI disjI2 exI [of _ i] exI [of _ "e d"]) (auto simp: writeJSON_def e_def)
  qed
qed

text \<open>Well-formedness through the event endpoint, failures included.\<close>

lemma finalize_keeps:
  assumes "finalize_event (sv_store s) i ty w = (r, w')"
  shows "(wf w \<longrightarrow> wf w') \<and> (up w \<longrightarrow> up w')"
proof (cases "event_transition ty")
  case None
  with assms show ?thesis by (simp add: finalize_event_def)
next
  case (Some st)
  then obtain state terminal where tr: "event_transition ty = Some (state, terminal)" by (cases st) auto
  obtain e1 w1 where u: "UpdateTaskState (sv_store s) i state w = (e1, w1)" by (metis prod.exhaust)
  obtain e2 w2 where r: "RevokeAgentToken (sv_store s) i w1 = (e2, w2)" by (metis prod.exhaust)
  have "w' = w1 \<or> w' = w2"
    using assms tr u r by (auto simp: finalize_event_def split: option.splits if_splits)
  with update_state [OF _ u] live_update [OF _ u] revoke_token [OF _ r] live_revoke [OF _ r] show ?thesis by auto
qed

lemma store_event_keeps:
  assumes "store_event (sv_store s) req w = (resp, w')"
  shows "(wf w \<longrightarrow> wf w') \<and> (up w \<longrightarrow> up w')"
  using assms
proof (cases rule: store_event_run)
  case (1 i now w1 a w2 f w3)
  have "w' = w2 \<or> w' = w3" using 1(7) by (auto split: option.splits)
  with 1(2,3) append_event [OF _ 1(5)] live_append [OF _ 1(5)] finalize_keeps [OF 1(6)]
  show ?thesis by auto
qed

lemma create_event_keeps:
  assumes "handleCreateEvent c s r w = (resp, w')"
  shows "(wf w \<longrightarrow> wf w') \<and> (up w \<longrightarrow> up w')"
proof -
  have "w' = w \<or> (\<exists>i h v w1. VerifyAgentToken (sv_store s) i h w = (v, w1) \<and>
      (w' = w1 \<or> (\<exists>req. store_event (sv_store s) req w1 = (resp, w'))))"
    using assms unfolding handleCreateEvent_bearer
    by (fastforce split: option.splits sum.splits if_splits prod.splits)
  then show ?thesis
  proof (elim disjE exE conjE)
    fix i h v w1
    assume v: "VerifyAgentToken (sv_store s) i h w = (v, w1)" and "w' = w1"
    with verify_token [OF _ v] live_verify [OF _ v] show ?thesis by auto
  next
    fix i h v w1 req
    assume v: "VerifyAgentToken (sv_store s) i h w = (v, w1)" and "store_event (sv_store s) req w1 = (resp, w')"
    with verify_token [OF _ v] live_verify [OF _ v] store_event_keeps show ?thesis by blast
  qed simp
qed

subsection \<open>Whole requests\<close>

text \<open>A creation, on a database that answers: one step of the life cycle.\<close>

lemma create_life:
  assumes "wf w" and "up w" and "Server_CreateTask s req w = (r, w')"
  shows "life (view w) (view w')"
proof (cases r)
  case (Inl err)
  with create_failure [OF assms(1,2)] assms(3) show ?thesis
    using life.stay life.rolled_back by metis
next
  case (Inr res)
  with assms(3) have run: "Server_CreateTask s req w = (Inr res, w')" by simp
  note made = create_success [OF assms(1) run]
  have "map_option t_State (as_tasks (view w') (res_TaskID res)) =
      Some (if sv_scheduler s = None then TaskStatePending else TaskStateRunning)"
    using made by auto
  with made show ?thesis
    using life.created [of "view w" "res_TaskID res" "view w'"
        "if sv_scheduler s = None then TaskStatePending else TaskStateRunning"]
    by auto
qed

lemma create_event_life:
  assumes "wf w" and "up w" and "handleCreateEvent c s r w = (resp, w')"
  shows "life (view w) (view w')"
proof (cases "view w' = view w")
  case True
  then show ?thesis by (simp add: life.stay)
next
  case False
  with event_needs_token [OF assms(1,3)] assms(2) obtain tok req w1
    where ok: "token_valid (view w) (cer_TaskID req) (Sum256 tok)"
      and w1: "view w1 = view w" "wf w1" "up w1" and st: "store_event (sv_store s) req w1 = (resp, w')"
    by blast
  from store_event_live [OF w1(2,3) st] False w1(1) obtain ev e
    where "e_TaskID e = cer_TaskID req" and rec: "event_recorded ev e (view w) (view w')" by auto
  with ok show ?thesis using life.event [OF _ rec] by simp
qed

text \<open>The handlers behind the middleware.\<close>

lemma reads_stay:
  "wf w \<Longrightarrow> wf (snd (Ping (sv_store s) w))" "up w \<Longrightarrow> up (snd (Ping (sv_store s) w))"
  "wf w \<Longrightarrow> wf (snd (ListSkills (sv_store s) w))" "up w \<Longrightarrow> up (snd (ListSkills (sv_store s) w))"
  "wf w \<Longrightarrow> wf (snd (GetSkill (sv_store s) n w))" "up w \<Longrightarrow> up (snd (GetSkill (sv_store s) n w))"
  "wf w \<Longrightarrow> wf (snd (ListTasks (sv_store s) f w))" "up w \<Longrightarrow> up (snd (ListTasks (sv_store s) f w))"
  "wf w \<Longrightarrow> wf (snd (GetTask (sv_store s) n w))" "up w \<Longrightarrow> up (snd (GetTask (sv_store s) n w))"
  "wf w \<Longrightarrow> wf (snd (ListEvents (sv_store s) ef w))" "up w \<Longrightarrow> up (snd (ListEvents (sv_store s) ef w))"
  using ping live_ping list_skills live_list_skills get_skill live_get_skill list_tasks live_list_tasks
    get_task live_get_task list_events live_list_events
  by (metis prod.collapse)+

lemma mux_keeps:
  assumes "server_mux x c s r w = (resp, w')"
  shows "(wf w \<longrightarrow> wf w') \<and> (up w \<longrightarrow> up w')"
proof -
  have w': "w' = snd (server_mux x c s r w)" by (simp add: assms)
  have create: "(wf w \<longrightarrow> wf (snd (handleCreateTask c s r w))) \<and> (up w \<longrightarrow> up (snd (handleCreateTask c s r w)))"
    using create_keeps by (simp add: handleCreateTask_def split: sum.split prod.split)
  show ?thesis unfolding w' server_mux_def
    using create create_event_keeps [OF surjective_pairing]
    by (cases "mux_route r") (simp_all add: handler_worlds reads_stay)
qed

lemma mux_life:
  assumes "wf w" and "up w" and "server_mux x c s r w = (resp, w')"
  shows "life (view w) (view w')"
proof (cases "is_get (rq_Method r)")
  case True
  from reads_keep [OF assms(1) True assms(3)] show ?thesis by (simp add: life.stay)
next
  case False
  then have "mux_route r \<in> {CreateTaskRoute, CreateEventRoute, Redirect, MethodNotAllowed}"
    by (simp add: mux_route_def)
  then consider "mux_route r = CreateTaskRoute" | "mux_route r = CreateEventRoute"
    | "mux_route r \<in> {Redirect, MethodNotAllowed}" by blast
  then show ?thesis
  proof cases
    case 1
    with assms(3) have h: "handleCreateTask c s r w = (resp, w')" by (simp add: server_mux_def)
    show ?thesis
    proof (cases "\<exists>req r'. Server_CreateTask s req w = (r', w')")
      case True
      then show ?thesis using create_life [OF assms(1,2)] by blast
    next
      case False
      with h have "w' = w" by (auto simp: handleCreateTask_def split: sum.splits if_splits prod.splits)
      then show ?thesis by (simp add: life.stay)
    qed
  next
    case 2
    with assms(3) have "handleCreateEvent c s r w = (resp, w')" by (simp add: server_mux_def)
    from create_event_life [OF assms(1,2) this] show ?thesis .
  next
    case 3
    with assms(3) have "w' = w" by (auto simp: server_mux_def)
    then show ?thesis by (simp add: life.stay)
  qed
qed

text \<open>
  A request to the whole handler is refused by the authentication, with nothing done, or
  runs one handler between steps that concern the process only.
\<close>

lemma Handler_runs:
  assumes "Server_Handler h x c s r w = (resp, w')"
  obtains (refused) "w' = w" and "rs_Status resp \<in> {StatusUnauthorized, StatusForbidden}"
      and "\<not> auth_exempt r" and "\<not> api_authorized (Getenv h ''HERMESMANAGER_API_TOKEN'') r"
  | (served) w0 resp0 w1 where
      "Getenv h ''HERMESMANAGER_API_TOKEN'' = [] \<or> auth_exempt r \<or>
        api_authorized (Getenv h ''HERMESMANAGER_API_TOKEN'') r"
      and "server_mux x c s (r\<lparr>rq_Body := MaxBytesReader maxBodySize (rq_Body r)\<rparr>) w0 = (resp0, w1)"
      and "view w0 = view w" and "wf w0 \<longleftrightarrow> wf w" and "up w0 \<longleftrightarrow> up w"
      and "view w' = view w1" and "wf w' \<longleftrightarrow> wf w1" and "up w' \<longleftrightarrow> up w1"
      and "rs_Status resp = rs_Status resp0" and "rs_Body resp = rs_Body resp0"
proof -
  let ?tok = "Getenv h ''HERMESMANAGER_API_TOKEN''"
  let ?next = "wrapMiddleware (as_uuid x) (server_mux x c s)"
  show thesis
  proof (cases "?tok = [] \<or> auth_exempt r \<or> api_authorized ?tok r")
    case True
    with assms have "?next r w = (resp, w')"
      by (auto simp: Server_Handler_def authMiddleware_def Let_def auth_handler_cases check_bearer_pass
          split: if_splits)
    from wrap_view [OF this] obtain w0 resp0 w1 where
      "server_mux x c s (r\<lparr>rq_Body := MaxBytesReader maxBodySize (rq_Body r)\<rparr>) w0 = (resp0, w1)"
      "view w0 = view w" "wf w0 \<longleftrightarrow> wf w" "up w0 \<longleftrightarrow> up w" "view w' = view w1" "wf w' \<longleftrightarrow> wf w1"
      "up w' \<longleftrightarrow> up w1" "rs_Status resp = rs_Status resp0" "rs_Body resp = rs_Body resp0"
      by (elim exE conjE)
    with True show thesis by (rule served)
  next
    case False
    with assms check_bearer_stop [of ?tok r ?next w] show thesis
      by (intro refused) (auto simp: Server_Handler_def authMiddleware_def Let_def auth_handler_cases http_Error_def)
  qed
qed

lemma mux_route_limited [simp]: "mux_route (r\<lparr>rq_Body := b\<rparr>) = mux_route r"
  by (simp add: mux_route_def)

lemma Handler_reads:
  assumes "wf w" and "is_get (rq_Method r)" and "Server_Handler h x c s r w = (resp, w')"
  shows "wf w' \<and> view w' = view w"
  using assms(3)
proof (cases rule: Handler_runs)
  case refused
  with assms(1) show ?thesis by simp
next
  case (served w0 resp0 w1)
  with reads_keep [OF _ _ served(2)] assms(1,2) show ?thesis by simp
qed

lemma Handler_keeps:
  assumes "Server_Handler h x c s r w = (resp, w')"
  shows "(wf w \<longrightarrow> wf w') \<and> (up w \<longrightarrow> up w')"
  using assms
proof (cases rule: Handler_runs)
  case refused
  then show ?thesis by simp
next
  case (served w0 resp0 w1)
  with mux_keeps [OF served(2)] show ?thesis by simp
qed

lemma Handler_life:
  assumes "wf w" and "up w" and "Server_Handler h x c s r w = (resp, w')"
  shows "life (view w) (view w')"
  using assms(3)
proof (cases rule: Handler_runs)
  case refused
  then show ?thesis by (simp add: life.stay)
next
  case (served w0 resp0 w1)
  with mux_life [OF _ _ served(2)] assms(1,2) show ?thesis by simp
qed

text \<open>The answer of the event endpoint decides what happened.\<close>

lemma create_event_outcome:
  assumes "wf w" and "up w" and "handleCreateEvent c s r w = (resp, w')"
  shows "if rs_Status resp = StatusCreated
    then \<exists>tok req ev e. agent_bearer r = Some tok \<and> cd_event c (rq_Body r) = Inr req \<and>
      token_valid (view w) (cer_TaskID req) (Sum256 tok) \<and> rs_Body resp = BObject [(''id'', ev)] \<and>
      (cer_ID req \<noteq> [] \<longrightarrow> ev = cer_ID req) \<and> e_TaskID e = cer_TaskID req \<and> e_Type e = cer_Type req \<and>
      e_Payload e = cer_Payload req \<and> event_recorded ev e (view w) (view w')
    else view w' = view w"
proof (cases "view w' \<noteq> view w \<or> rs_Status resp = StatusCreated")
  case False
  then show ?thesis by simp
next
  case True
  from event_needs_token [OF assms(1,3) True] assms(2) obtain tok req w1
    where t: "agent_bearer r = Some tok" "cd_event c (rq_Body r) = Inr req"
      "token_valid (view w) (cer_TaskID req) (Sum256 tok)"
      and w1: "view w1 = view w" "wf w1" "up w1" and st: "store_event (sv_store s) req w1 = (resp, w')"
    by blast
  from store_event_live [OF w1(2,3) st] True w1(1)
  have "rs_Status resp = StatusCreated" "\<exists>ev e. rs_Body resp = BObject [(''id'', ev)] \<and> e_TaskID e = cer_TaskID req \<and>
      e_Type e = cer_Type req \<and> e_Payload e = cer_Payload req \<and>
      (cer_ID req \<noteq> [] \<longrightarrow> ev = cer_ID req) \<and> event_recorded ev e (view w) (view w')"
    by (auto simp: go_consts)
  with t show ?thesis by auto
qed

end

end
