(* ===== verification/System.thy ===== *)
theory System
  imports Postgres K8s_Driver Api_Laws
begin

text \<open>
  The composition: the world of the binary (process, database, local processes, cluster),
  the three runtimes over it, their registration, and the server that \<open>main.go\<close> wires. The
  interfaces of the other theories are interpreted here on these definitions.
\<close>

record system = world +
  sy_pg :: pg
  sy_local :: local_state
  sy_cluster :: cluster

subsection \<open>The store of the system\<close>

definition put_pg :: "pg \<Rightarrow> system \<Rightarrow> system" where
  "put_pg d w = w\<lparr>sy_pg := d\<rparr>"

definition sys_store :: "system store" where
  "sys_store = store_on_part sy_pg put_pg pg_store"

definition sys_view :: "system \<Rightarrow> abs_store" where
  "sys_view w = abs_pg (sy_pg w)"

definition sys_wf :: "system \<Rightarrow> bool" where
  "sys_wf w \<longleftrightarrow> pg_wf (sy_pg w)"

definition sys_up :: "system \<Rightarrow> bool" where
  "sys_up w \<longleftrightarrow> pg_up (sy_pg w)"

interpretation pg_part: live_store_in_part pg_store abs_pg pg_wf pg_up sy_pg put_pg
  by unfold_locales (simp add: put_pg_def)

interpretation sys: live_store sys_store sys_view sys_wf sys_up
  using pg_part.whole.live_store_axioms
  by (simp add: sys_store_def sys_view_def [abs_def] sys_wf_def [abs_def] sys_up_def [abs_def])

text \<open>The same for any invariant of the database.\<close>

lemma sys_live:
  assumes "live_store pg_store abs_pg P pg_up"
  shows "live_store sys_store sys_view (\<lambda>w. P (sy_pg w)) sys_up"
proof -
  have "live_store_in_part pg_store abs_pg P pg_up sy_pg put_pg"
    using assms pg_part.part_axioms by (simp add: live_store_in_part_def store_in_part_def live_store_def)
  from live_store_in_part.in_whole [OF this] show ?thesis
    by (simp add: sys_store_def sys_view_def [abs_def] sys_up_def [abs_def])
qed

subsection \<open>The runtimes of the system\<close>

definition local_runtime :: "host \<Rightarrow> system runtime" where
  "local_runtime h0 =
     \<lparr>rt_Name = ''local'',
      rt_CallbackURL = local_CallbackURL (local_port h0),
      rt_Dispatch = \<lambda>t sk. on_part (\<lambda>w. (w_host w, sy_local w))
                            (\<lambda>(h, l) w. w\<lparr>w_host := h, sy_local := l\<rparr>)
                            (Local_Dispatch (local_port h0) t sk),
      rt_Status = on_part sy_local (\<lambda>l w. w\<lparr>sy_local := l\<rparr>) Local_Status\<rparr>"

definition local_factory :: "system factory" where
  "local_factory h = Inr (local_runtime h)"

definition k8s_runtime :: "(task_json \<Rightarrow> error option) \<Rightarrow> cluster kube_client \<Rightarrow> cluster driver \<Rightarrow> system runtime" where
  "k8s_runtime marshal c d =
     \<lparr>rt_Name = ''k8s'',
      rt_CallbackURL = k8s_CallbackURL d,
      rt_Dispatch = \<lambda>t sk. on_part (\<lambda>w. (w_host w, sy_cluster w))
                            (\<lambda>(h, c) w. w\<lparr>w_host := h, sy_cluster := c\<rparr>)
                            (K8s_Dispatch marshal c d t),
      rt_Status = on_part sy_cluster (\<lambda>c w. w\<lparr>sy_cluster := c\<rparr>) (K8s_Status c d)\<rparr>"

text \<open>\<open>New\<close> never returns a driver without a client.\<close>

definition k8s_factory ::
  "(task_json \<Rightarrow> error option) \<Rightarrow> cluster in_cluster \<Rightarrow> system factory" where
  "k8s_factory marshal inc h =
     (case k8s_New inc h [] of
        Inl e \<Rightarrow> Inl e
      | Inr d \<Rightarrow>
          (case dr_client d of
             None \<Rightarrow> Inl (NewError ''k8s: no client'')
           | Some c \<Rightarrow> Inr (k8s_runtime marshal c d)))"

lemma k8s_New_client: "k8s_New inc h opts = Inr d \<Longrightarrow> dr_client d \<noteq> None"
  by (auto simp: k8s_New_def Let_def split: option.splits in_cluster.splits)

text \<open>
  The \<open>init\<close> functions of the driver packages, in the order of their import paths. A second
  registration of a name panics.
\<close>

definition init_registry ::
  "(task_json \<Rightarrow> error option) \<Rightarrow> cluster in_cluster \<Rightarrow> string + system registry" where
  "init_registry marshal inc =
     (case Register ''docker'' docker_factory [] of
        Inl p \<Rightarrow> Inl p
      | Inr r1 \<Rightarrow>
          (case Register ''k8s'' (k8s_factory marshal inc) r1 of
             Inl p \<Rightarrow> Inl p
           | Inr r2 \<Rightarrow> Register ''local'' local_factory r2))"

definition drivers :: "(task_json \<Rightarrow> error option) \<Rightarrow> cluster in_cluster \<Rightarrow> system registry" where
  "drivers marshal inc =
     [(''docker'', docker_factory), (''k8s'', k8s_factory marshal inc), (''local'', local_factory)]"

lemma init_registry_drivers: "init_registry marshal inc = Inr (drivers marshal inc)"
  by (simp add: init_registry_def Register_def drivers_def)

subsection \<open>Every driver keeps the interface of a runtime\<close>

text \<open>A dispatch leaves the database alone: it keeps every invariant \<open>P\<close> of the tables.\<close>

interpretation docker_rt: runtime_contract "docker_New h" sys_view "\<lambda>w. P (sy_pg w)" sys_up for h P
  by unfold_locales (auto simp: docker_New_def Docker_Dispatch_def split: if_splits)

interpretation local_rt: runtime_contract "local_runtime h" sys_view "\<lambda>w. P (sy_pg w)" sys_up for h P
  by unfold_locales (auto simp: local_runtime_def on_part_pair sys_view_def sys_up_def)

interpretation k8s_rt: runtime_contract "k8s_runtime marshal c d" sys_view "\<lambda>w. P (sy_pg w)" sys_up for marshal c d P
  by unfold_locales (auto simp: k8s_runtime_def on_part_pair sys_view_def sys_up_def)

definition sys_runtime :: "system runtime \<Rightarrow> bool" where
  "sys_runtime rt \<longleftrightarrow> (\<forall>P. runtime_contract rt sys_view (\<lambda>w. P (sy_pg w)) sys_up)"

lemma drivers_runtimes:
  "list_all (\<lambda>(n, f). \<forall>h rt. f h = Inr rt \<longrightarrow> sys_runtime rt) (drivers marshal inc)"
  by (auto simp: drivers_def docker_factory_def local_factory_def k8s_factory_def sys_runtime_def
      docker_rt.runtime_contract_axioms local_rt.runtime_contract_axioms k8s_rt.runtime_contract_axioms
      split: sum.splits option.splits)

lemma Build_from:
  assumes "Build ord h reg = Inr rts" and "(n, rt) \<in> set rts"
  obtains f where "(n, f) \<in> set reg" and "f h = Inr rt"
proof -
  from assms(1) have l: "list_all2 (\<lambda>(n, f) (m, rt). n = m \<and> f h = Inr rt) (scan_rows ord reg) rts"
    by (simp add: Build_def build_loop_ok)
  from assms(2) obtain i where i: "i < length rts" "rts ! i = (n, rt)" by (auto simp: in_set_conv_nth)
  with list_all2_lengthD [OF l] have "i < length (scan_rows ord reg)" by linarith
  moreover obtain m f where f: "scan_rows ord reg ! i = (m, f)" by (metis prod.exhaust)
  ultimately have "(m, f) \<in> set reg" using nth_mem set_scan_rows by metis
  moreover have "f h = Inr rt" "m = n" using list_all2_nthD2 [OF l i(1)] f i(2) by simp_all
  ultimately show thesis using that by simp
qed

lemma Build_runtimes:
  assumes "Build ord h reg = Inr rts"
    and "list_all (\<lambda>(n, f). \<forall>h rt. f h = Inr rt \<longrightarrow> P rt) reg" and "(n, rt) \<in> set rts"
  shows "P rt"
proof -
  obtain f where "(n, f) \<in> set reg" and "f h = Inr rt" by (rule Build_from [OF assms(1,3)])
  with assms(2) show ?thesis by (auto simp: list_all_iff)
qed

subsection \<open>The server\<close>

text \<open>What \<open>main.go\<close> builds once its runtimes exist; \<open>ord\<close> orders the scheduler's names.\<close>

definition sys_runtimes ::
  "(system registry \<Rightarrow> system registry) \<Rightarrow> host \<Rightarrow> system registry \<Rightarrow> (string \<times> system runtime) list" where
  "sys_runtimes bord h reg = (case Build bord h reg of Inl e \<Rightarrow> [] | Inr rts \<Rightarrow> rts)"

definition sys_server ::
  "((string \<times> system runtime) list \<Rightarrow> (string \<times> system runtime) list) \<Rightarrow>
     (string \<times> system runtime) list \<Rightarrow> engine option \<Rightarrow> system server" where
  "sys_server ord rts pol = NewServer sys_store (Some (NewScheduler ord rts sys_store)) pol"

lemma sys_runtimes_contract:
  "map_of (sys_runtimes bord h (drivers marshal inc)) n = Some rt \<Longrightarrow> sys_runtime rt"
  by (auto simp: sys_runtimes_def split: sum.splits
      dest!: map_of_SomeD intro: Build_runtimes [OF _ drivers_runtimes])

lemma sys_server_sel [simp]:
  "sv_store (sys_server ord rts pol) = sys_store"
  "sv_policy (sys_server ord rts pol) = pol"
  "sv_scheduler (sys_server ord rts pol) = Some (NewScheduler ord rts sys_store)"
  "sc_store (NewScheduler ord rts st) = st"
  "sc_runtimes (NewScheduler ord rts st) = rts"
  by (simp_all add: sys_server_def NewServer_def NewScheduler_def)

lemma sys_host_free [simp]:
  "sys_view (w\<lparr>w_host := h\<rparr>) = sys_view w"
  "sys_wf (w\<lparr>w_host := h\<rparr>) = sys_wf w"
  "sys_up (w\<lparr>w_host := h\<rparr>) = sys_up w"
  by (simp_all add: sys_view_def sys_wf_def sys_up_def)

lemma sys_service:
  assumes "live_store pg_store abs_pg P pg_up"
  shows "task_service (sys_server ord (sys_runtimes bord h (drivers marshal inc)) pol) sys_view (\<lambda>w. P (sy_pg w)) sys_up"
  using sys_live [OF assms] sys_runtimes_contract
  by (intro task_service.intro task_service_axioms.intro)
    (auto simp: sys_runtime_def sys_view_def sys_up_def)

interpretation svc: task_service
  "sys_server ord (sys_runtimes bord h (drivers marshal inc)) pol" sys_view sys_wf sys_up
  for ord bord h marshal inc pol
  using sys_service [OF pg.live_store_axioms] by (simp add: sys_wf_def [abs_def])

text \<open>The servers that \<open>main.go\<close> can build.\<close>

definition wired :: "system server \<Rightarrow> bool" where
  "wired s \<longleftrightarrow> (\<exists>ord bord h marshal inc pol. s = sys_server ord (sys_runtimes bord h (drivers marshal inc)) pol)"

lemma wired_service: "wired s \<Longrightarrow> task_service s sys_view sys_wf sys_up"
  unfolding wired_def using svc.task_service_axioms by blast

lemma wired_invariant:
  "wired s \<Longrightarrow> live_store pg_store abs_pg P pg_up \<Longrightarrow> task_service s sys_view (\<lambda>w. P (sy_pg w)) sys_up"
  unfolding wired_def using sys_service by blast

lemma wired_store: "wired s \<Longrightarrow> sv_store s = sys_store"
  by (auto simp: wired_def)

text \<open>The local runtime of such a server is the local driver.\<close>

lemma wired_local:
  assumes "wired s" and "sv_scheduler s = Some sched" and "map_of (sc_runtimes sched) ''local'' = Some rt"
  shows "\<exists>h. rt = local_runtime h"
proof -
  from assms(1) obtain ord bord h marshal inc pol
    where s: "s = sys_server ord (sys_runtimes bord h (drivers marshal inc)) pol" by (auto simp: wired_def)
  with assms(2,3) have "(''local'', rt) \<in> set (sys_runtimes bord h (drivers marshal inc))"
    by (auto dest: map_of_SomeD)
  then have "\<exists>rts. Build bord h (drivers marshal inc) = Inr rts \<and> (''local'', rt) \<in> set rts"
    by (cases "Build bord h (drivers marshal inc)") (simp_all add: sys_runtimes_def)
  then obtain rts where rts: "Build bord h (drivers marshal inc) = Inr rts" "(''local'', rt) \<in> set rts" by blast
  obtain f where "(''local'', f) \<in> set (drivers marshal inc)" and "f h = Inr rt" by (rule Build_from [OF rts])
  then show ?thesis by (auto simp: drivers_def local_factory_def)
qed

text \<open>The store's methods touch the database only.\<close>

lemma sys_store_frame:
  "GetSkill sys_store n w = (r1, w') \<Longrightarrow> \<exists>d. w' = w\<lparr>sy_pg := d\<rparr>"
  "CreateTask sys_store t w = (e1, w') \<Longrightarrow> \<exists>d. w' = w\<lparr>sy_pg := d\<rparr>"
  "StoreAgentToken sys_store i h w = (e2, w') \<Longrightarrow> \<exists>d. w' = w\<lparr>sy_pg := d\<rparr>"
  "UpdateTaskState sys_store i st w = (e3, w') \<Longrightarrow> \<exists>d. w' = w\<lparr>sy_pg := d\<rparr>"
  by (auto simp: sys_store_def store_on_part_def on_part_pair put_pg_def)

text \<open>
  Nothing but the named resources can stop a local creation: it is accepted when the skill
  exists, the policy allows it, the driver has room and its system calls work.
\<close>

lemma issue_token_free:
  assumes "sys_wf w" and "sys_up w" and "as_tasks (sys_view w) i \<noteq> None"
  shows "\<exists>tok w'. issue_token sys_store i w = (Inr tok, w') \<and> sys_wf w' \<and> sys_up w' \<and>
    as_tasks (sys_view w') i \<noteq> None \<and> sy_local w' = sy_local w"
proof -
  obtain bs w1 where draw: "with_host (rand_Read 32) w = ((bs, None), w1)"
    by (auto simp: with_host_def rand_Read_def)
  then have w1: "w1 = w\<lparr>w_host := snd (rand_Read 32 (w_host w))\<rparr>"
    by (auto simp: with_host_def split: prod.splits)
  have 1: "sys_wf w1" "sys_up w1" "as_tasks (sys_view w1) i \<noteq> None" "sy_local w1 = sy_local w"
    using assms by (simp_all add: w1 sys_wf_def sys_up_def sys_view_def rand_Read_def Let_def)
  obtain e w2 where st: "StoreAgentToken sys_store i (Sum256 (EncodeToString bs)) w1 = (e, w2)" by (metis prod.exhaust)
  from sys.live_token [OF 1(2) st] sys.store_token [OF 1(1) st] 1(3)
  have 2: "e = None" "sys_wf w2" "sys_up w2" "as_tasks (sys_view w2) i \<noteq> None" by (auto simp: token_stored_def)
  from sys_store_frame(3) [OF st] 1(4) have "sy_local w2 = sy_local w" by auto
  with draw st 2 show ?thesis by (simp add: issue_token_def Let_def)
qed

lemma dispatch_local_ok:
  assumes "wired s" and "sv_scheduler s = Some sched" and "map_of (sc_runtimes sched) ''local'' = Some rt"
    and "t_Runtime t = ''local''" and "local_admits (sy_local w)" and "lo_fault (sy_local w) = (\<lambda>n st. None)"
    and "sys_wf w" and "sys_up w" and "as_tasks (sys_view w) (t_ID t) \<noteq> None"
  shows "\<exists>hdl w'. Dispatch sched t sk w = ((hdl, None), w')"
proof -
  from wired_local [OF assms(1-3)] obtain h where lr: "rt = local_runtime h" by blast
  from local_dispatch_ok [of "sy_local w" "local_port h" t sk "w_host w"] assms(5,6)
  obtain hdl w1 where d: "rt_Dispatch rt t sk w = (Inr hdl, w1)"
    by (auto simp: lr local_runtime_def on_part_def)
  have 1: "sys_wf w1" "sys_up w1" "sys_view w1 = sys_view w"
    using d assms(7,8) by (auto simp: lr local_runtime_def on_part_pair sys_wf_def sys_up_def sys_view_def)
  obtain e w2 where u: "UpdateTaskState sys_store (t_ID t) TaskStateRunning w1 = (e, w2)" by (metis prod.exhaust)
  have "e = None" using sys.live_update [OF 1(2) u] assms(9) 1(3) by (simp add: task_states_def)
  with assms(1-4) d u show ?thesis by (auto simp: Dispatch_def wired_def)
qed

lemma create_local_ok:
  assumes w: "wired s" and wf: "sys_wf w" and up: "sys_up w"
    and sk: "as_skills (sys_view w) (ctr_SkillName req) = Some sk"
    and pol: "policy_check (sv_policy s) req sk = None"
    and rt: "ctr_Runtime req \<in> {[], ''local''}" "sv_scheduler s = Some sched" "map_of (sc_runtimes sched) ''local'' = Some rt"
    and room: "local_admits (sy_local w)" "lo_fault (sy_local w) = (\<lambda>n st. None)"
    and row: "ctr_DeadlineSecs req < 2 ^ 31" "ctr_Parameters req \<noteq> None"
    and fresh: "as_tasks (sys_view w) (fst (generateID ''task'' w)) = None"
  shows "\<exists>res w'. Server_CreateTask s req w = (Inr res, w')"
proof -
  obtain g w1 where g: "GetSkill sys_store (ctr_SkillName req) w = (g, w1)" by (metis prod.exhaust)
  from sys.get_skill [OF wf g] sys.live_get_skill [OF up g] sk
  have gs: "g = Inr (Some sk)" and 1: "sys_wf w1" "sys_up w1" "sys_view w1 = sys_view w" by auto
  from sys_store_frame(1) [OF g] obtain d1 where d1: "w1 = w\<lparr>sy_pg := d1\<rparr>" by blast
  obtain i w2 where gen: "generateID ''task'' w1 = (i, w2)" by (metis prod.exhaust)
  obtain now w3 where clock: "with_host Now w2 = (now, w3)" by (metis prod.exhaust)
  have i: "i = fst (generateID ''task'' w)" using gen d1
    by (auto simp: generateID_def with_host_def Let_def split: prod.splits)
  have h3: "sy_pg w3 = d1" "sy_local w3 = sy_local w" "sys_view w3 = sys_view w" "sys_wf w3" "sys_up w3"
    using gen clock 1 d1 by (auto simp: generateID_def with_host_def rand_Read_def Now_def Let_def)
  define t where "t = new_task req sk i now"
  have t: "t_ID t = i" "t_SkillName t = ctr_SkillName req" "t_State t = TaskStatePending" "t_Runtime t = ''local''"
    "t_Parameters t = ctr_Parameters req" "in_int4 (t_DeadlineSecs t)"
    using rt(1) row(1) by (auto simp: t_def new_task_def in_int4_def)
  have "\<exists>d. pg_CreateTask t (sy_pg w3) = (None, d)"
    by (rule pg_insert_ok)
      (use h3 t row(2) fresh i sk in \<open>simp_all add: sys_up_def sys_view_def sent_null_json_def task_states_def\<close>)
  then obtain w4 where c: "CreateTask sys_store t w3 = (None, w4)"
    by (auto simp: sys_store_def store_on_part_def on_part_pair pg_store_def)
  from sys.create_task [OF h3(4) c] sys.live_create [OF h3(5) c] t(1)
  have 4: "sys_wf w4" "sys_up w4" "as_tasks (sys_view w4) i \<noteq> None" by (auto simp: task_created_def)
  from sys_store_frame(2) [OF c] h3 have h4: "sy_local w4 = sy_local w" by auto
  from issue_token_free [OF 4] obtain tok w5 where it: "issue_token sys_store i w4 = (Inr tok, w5)"
    and 5: "sys_wf w5" "sys_up w5" "as_tasks (sys_view w5) i \<noteq> None" "sy_local w5 = sy_local w4" by blast
  from dispatch_local_ok [OF w rt(2,3) t(4), of w5] room h4 5 t(1)
  obtain hdl w6 where "Dispatch sched t sk w5 = ((hdl, None), w6)" by fastforce
  with it c g gs pol gen clock rt(2) show ?thesis
    by (simp add: Server_CreateTask_def wired_store [OF w] Let_def t_def [symmetric] dispatch_created_def)
qed

text \<open>An event under a valid token is accepted when the database has no reason to refuse it.\<close>

lemma store_event_accepted:
  assumes w: "wired s" and wf: "sys_wf w" and up: "sys_up w"
    and task: "as_tasks (sys_view w) (cer_TaskID req) \<noteq> None"
    and row: "cer_Type req \<in> set event_types" "cer_Payload req \<noteq> None" "cer_ID req \<noteq> []" "as_events (sys_view w) (cer_ID req) = None"
    and st: "store_event (sv_store s) req w = (resp, w')"
  shows "rs_Status resp = StatusCreated"
proof -
  obtain now w1 where clock: "with_host Now w = (now, w1)" by (metis prod.exhaust)
  have 1: "sys_wf w1" "sys_up w1" "sys_view w1 = sys_view w" "sy_pg w1 = sy_pg w"
    using clock wf up by (auto simp: with_host_def Now_def sys_wf_def sys_up_def sys_view_def)
  define e where "e = \<lparr>e_ID = cer_ID req, e_TaskID = cer_TaskID req, e_Type = cer_Type req,
                   e_Payload = cer_Payload req, e_CreatedAt = now\<rparr>"
  have "\<exists>d. pg_AppendEvent e (sy_pg w1) = (None, d)"
    by (rule pg_append_ok)
      (use 1 row task in \<open>simp_all add: e_def sys_up_def sys_view_def sent_null_json_def\<close>)
  then obtain w2 where ap: "AppendEvent sys_store e w1 = (None, w2)"
    by (auto simp: sys_store_def store_on_part_def on_part_pair pg_store_def)
  from sys.append_event [OF 1(1) ap] sys.live_append [OF 1(2) ap] 1(3) task
  have 2: "sys_wf w2" "sys_up w2" "as_tasks (sys_view w2) (cer_TaskID req) \<noteq> None"
    by (auto simp: event_appended_def e_def)
  obtain f w3 where fin: "finalize_event (sv_store s) (cer_TaskID req) (cer_Type req) w2 = (f, w3)" by (metis prod.exhaust)
  from task_service.finalize_live [OF wired_service [OF w] 2 fin] have "f = None" by simp
  with st clock ap fin row(3) show ?thesis
    by (auto simp: store_event_def wired_store [OF w] e_def [symmetric] writeJSON_def)
qed

text \<open>
  The agent of a local dispatch is given a token of its own: the 32 random bytes after those
  of the token that was stored for its task.
\<close>

definition token_at :: "host \<Rightarrow> nat \<Rightarrow> string" where
  "token_at h q = EncodeToString (map (h_rand h) [q..<q + 32])"

lemma issue_token_at:
  assumes "issue_token st i w = (Inr tok, w')"
  shows "\<exists>w1. with_host (rand_Read 32) w = ((map (h_rand (w_host w)) [h_rand_pos (w_host w)..<h_rand_pos (w_host w) + 32], None), w1) \<and>
    w_host w1 = (w_host w)\<lparr>h_rand_pos := h_rand_pos (w_host w) + 32\<rparr> \<and>
    tok = token_at (w_host w) (h_rand_pos (w_host w)) \<and> StoreAgentToken st i (Sum256 tok) w1 = (None, w')"
proof -
  obtain bs e w1 where r: "with_host (rand_Read 32) w = ((bs, e), w1)" by (metis prod.exhaust)
  then obtain h1 where h: "rand_Read 32 (w_host w) = ((bs, e), h1)" "w1 = w\<lparr>w_host := h1\<rparr>"
    by (auto simp: with_host_pair)
  from assms r have e: "e = None" and st: "StoreAgentToken st i (Sum256 (EncodeToString bs)) w1 = (None, w')"
    and tok: "tok = EncodeToString bs"
    by (auto simp: issue_token_def Let_def split: option.splits prod.splits)
  from h e rand_Read_ok [of 32 "w_host w" bs e h1] have "bs = rand_bytes (w_host w) 32"
    and "h1 = (w_host w)\<lparr>h_rand_pos := h_rand_pos (w_host w) + 32\<rparr>" by auto
  with r e st tok h show ?thesis by (simp add: rand_bytes_def token_at_def)
qed

text \<open>What the random source gives is fixed: a creation moves only the position in it.\<close>

lemma created_rand:
  assumes "wired s" and "GetSkill (sv_store s) n w = (r, w1)" and "generateID ''task'' w1 = (i, w2)"
    and "with_host Now w2 = (now, w3)" and "CreateTask (sv_store s) t w3 = (e, w4)"
  shows "h_rand (w_host w4) = h_rand (w_host w)"
proof -
  from assms(2) wired_store [OF assms(1)] sys_store_frame(1) obtain d1 where "w1 = w\<lparr>sy_pg := d1\<rparr>" by metis
  moreover have "h_rand (w_host w2) = h_rand (w_host w1)" using assms(3)
    by (auto simp: generateID_def with_host_def rand_Read_def Let_def split: prod.splits option.splits)
  moreover have "h_rand (w_host w3) = h_rand (w_host w2)" using assms(4)
    by (auto simp: Now_def with_host_pair)
  moreover from assms(5) wired_store [OF assms(1)] sys_store_frame(2) obtain d4 where "w4 = w3\<lparr>sy_pg := d4\<rparr>" by metis
  ultimately show ?thesis by simp
qed

text \<open>A dispatch to the local runtime that succeeds has started an agent whose token is drawn next.\<close>

lemma local_dispatched:
  assumes "wired s" and "sv_scheduler s = Some sched" and "t_Runtime t = ''local''"
    and "Dispatch sched t sk w = ((hdl, None), w')"
  shows "\<exists>p. p \<in> set (lo_procs (sy_local w')) \<and> ps_TaskID p = t_ID t \<and>
    map_of (ps_Env p) ''HERMESMANAGER_AGENT_TOKEN'' = Some (token_at (w_host w) (h_rand_pos (w_host w)))"
proof -
  from assms(3,4) obtain rt w6 where rt: "map_of (sc_runtimes sched) ''local'' = Some rt" "rt_Dispatch rt t sk w = (Inr hdl, w6)"
    and u: "UpdateTaskState (sc_store sched) (t_ID t) TaskStateRunning w6 = (None, w')"
    by (auto simp: Dispatch_def split: option.splits sum.splits prod.splits)
  from assms(1,2) have "sc_store sched = sys_store" by (auto simp: wired_def)
  with u sys_store_frame(4) obtain dd where w': "w' = w6\<lparr>sy_pg := dd\<rparr>" by metis
  from wired_local [OF assms(1,2) rt(1)] obtain h where h: "rt = local_runtime h" by blast
  from rt(2) h obtain h6 l6 where sp: "Local_Dispatch (local_port h) t sk (w_host w, sy_local w) = (Inr hdl, h6, l6)"
    and w6: "w6 = w\<lparr>w_host := h6, sy_local := l6\<rparr>"
    by (auto simp: local_runtime_def on_part_pair)
  from sp have "local_spawn (local_port h) t sk (w_host w, sy_local w) = (Inr hdl, h6, l6)"
    by (auto simp: Local_Dispatch_def split: if_splits)
  then obtain pid dir tk where p: "lo_procs l6 = lo_procs (sy_local w) @ [agent_process (local_port h) t sk pid dir (EncodeToString tk) (sy_local w)]"
    and r: "rand_Read 32 (w_host w) = ((tk, None), h6)"
    by (cases rule: local_spawn_cases) auto
  from rand_Read_ok [OF r] have "EncodeToString tk = token_at (w_host w) (h_rand_pos (w_host w))"
    by (simp add: rand_bytes_def token_at_def)
  with p w' w6 show ?thesis
    by (intro exI [of _ "agent_process (local_port h) t sk pid dir (EncodeToString tk) (sy_local w)"])
      (simp add: agent_process_sel)
qed

lemma agent_token_drawn_again:
  assumes "wired s" and "Server_CreateTask s req w = (Inr res, w')"
    and "ctr_Runtime req \<in> {[], ''local''}" and "sv_scheduler s \<noteq> None"
  shows "\<exists>q p. p \<in> set (lo_procs (sy_local w')) \<and> ps_TaskID p = res_TaskID res \<and>
    res_Token res = token_at (w_host w) q \<and>
    map_of (ps_Env p) ''HERMESMANAGER_AGENT_TOKEN'' = Some (token_at (w_host w) (q + 32))"
proof -
  obtain sk w1 i w2 now w3 t w4 tok w5
    where g: "GetSkill (sv_store s) (ctr_SkillName req) w = (Inr (Some sk), w1)"
      and pol: "policy_check (sv_policy s) req sk = None"
      and gen: "generateID ''task'' w1 = (i, w2)" and clock: "with_host Now w2 = (now, w3)"
      and t: "t = new_task req sk i now"
      and c: "CreateTask (sv_store s) t w3 = (None, w4)"
      and it: "issue_token (sv_store s) i w4 = (Inr tok, w5)"
      and d0: "dispatch_created s t sk
        \<lparr>res_TaskID = i, res_Runtime = t_Runtime t, res_ExternalID = [], res_Token = tok\<rparr> w5 = (Inr res, w')"
    using assms(2) by (rule CreateTask_run)
  from assms(4) obtain sched where sched: "sv_scheduler s = Some sched" by blast
  from t assms(3) have loc: "t_Runtime t = ''local''" "t_ID t = i" by auto
  from d0 sched obtain hdl where d: "Dispatch sched t sk w5 = ((hdl, None), w')" and res: "res_TaskID res = i" "res_Token res = tok"
    by (auto simp: dispatch_created_def split: prod.splits option.splits)
  let ?q = "h_rand_pos (w_host w4)"
  from issue_token_at [OF it] obtain wr where wr: "w_host wr = (w_host w4)\<lparr>h_rand_pos := ?q + 32\<rparr>"
    and tok: "tok = token_at (w_host w4) ?q" and st: "StoreAgentToken (sv_store s) i (Sum256 tok) wr = (None, w5)" by blast
  from st wired_store [OF assms(1)] sys_store_frame(3) obtain d5 where "w5 = wr\<lparr>sy_pg := d5\<rparr>" by metis
  with wr have "w_host w5 = (w_host w4)\<lparr>h_rand_pos := ?q + 32\<rparr>" by simp
  with local_dispatched [OF assms(1) sched loc(1) d] created_rand [OF assms(1) g gen clock c] tok res loc(2)
  show ?thesis by (intro exI [of _ ?q]) (auto simp: token_at_def)
qed

subsection \<open>Runs of the service\<close>

text \<open>
  Requests served one after another, and between them anything that leaves the database
  alone: agents that run and exit, the cluster's controllers, the clock.
\<close>

inductive service_step :: "host \<Rightarrow> assets \<Rightarrow> codec \<Rightarrow> system server \<Rightarrow> system \<Rightarrow> system \<Rightarrow> bool"
  for h x c s where
  request: "Server_Handler h x c s r w = (resp, w') \<Longrightarrow> service_step h x c s w w'"
| around: "sy_pg w' = sy_pg w \<Longrightarrow> service_step h x c s w w'"

lemma service_step_life:
  assumes "wired s" and "service_step h x c s w w'" and "sys_wf w" and "sys_up w"
  shows "sys_wf w' \<and> sys_up w' \<and> life (sys_view w) (sys_view w')"
  using assms(2)
proof (cases rule: service_step.cases)
  case (request r resp)
  note svc = wired_service [OF assms(1)]
  from task_service.Handler_keeps [OF svc request] task_service.Handler_life [OF svc assms(3,4) request] assms(3,4)
  show ?thesis by blast
next
  case around
  with assms(3,4) show ?thesis by (simp add: sys_wf_def sys_up_def sys_view_def life.stay)
qed

lemma service_run_frozen:
  assumes "wired s" and "(service_step h x c s)\<^sup>*\<^sup>* w w'" and "sys_wf w" and "sys_up w"
  shows "sys_wf w' \<and> sys_up w' \<and> (closed_tasks (sys_view w) \<longrightarrow> closed_tasks (sys_view w')) \<and>
    (\<forall>i t. frozen i t (sys_view w) \<longrightarrow> frozen i t (sys_view w'))"
  using assms(2)
proof (induction rule: rtranclp_induct)
  case base
  with assms show ?case by simp
next
  case (step y z)
  with service_step_life [OF assms(1) step(2)] show ?case using life_closed life_frozen by blast
qed

lemma service_run_advances:
  assumes "wired s" and "(service_step h x c s)\<^sup>*\<^sup>* w w'" and "sys_wf w" and "sys_up w" and "closed_tasks (sys_view w)"
    and "as_tasks (sys_view w) i = Some t"
  shows "\<exists>t'. as_tasks (sys_view w') i = Some t' \<and> advanced t t'"
  using assms(2)
proof (induction rule: rtranclp_induct)
  case base
  with assms show ?case by simp
next
  case (step y z)
  from service_run_frozen [OF assms(1) step(1) assms(3,4)] assms(5)
  have y: "sys_wf y" "sys_up y" "closed_tasks (sys_view y)" by auto
  from step(3) obtain t1 where t1: "as_tasks (sys_view y) i = Some t1" "advanced t t1" by blast
  from service_step_life [OF assms(1) step(2) y(1,2)] life_advances [OF _ y(3) t1(1)] advanced_trans [OF t1(2)]
  show ?case by blast
qed

subsection \<open>A concrete system\<close>

definition ex_system :: system where
  "ex_system = \<lparr>w_host = ex_host, sy_pg = ex_pg_skill, sy_local = ex_local, sy_cluster = ex_cluster\<rparr>"

definition ex_runtimes :: "(string \<times> system runtime) list" where
  "ex_runtimes = sys_runtimes id ex_host (drivers (\<lambda>j. None) (InCluster cluster_client))"

definition ex_server :: "engine option \<Rightarrow> system server" where
  "ex_server pol = sys_server id ex_runtimes pol"

definition ex_create :: "string \<Rightarrow> create_task_request" where
  "ex_create rt =
     \<lparr>ctr_SkillName = ''hello'', ctr_Parameters = Some [], ctr_Runtime = rt, ctr_User = ''bob'',
      ctr_Team = ''dev'', ctr_DeadlineSecs = 0\<rparr>"

lemma ex_wired: "wired (ex_server pol)"
  unfolding wired_def ex_server_def ex_runtimes_def by blast

lemma ex_system_ok: "sys_wf ex_system" "sys_up ex_system"
  by (simp_all add: sys_wf_def sys_up_def ex_system_def ex_pg_wf)

lemma ex_runtimes_eq:
  "ex_runtimes =
     [(''docker'', docker_New ex_host),
      (''k8s'', k8s_runtime (\<lambda>j. None) cluster_client
         \<lparr>dr_client = Some cluster_client, dr_namespace = defaultNamespace, dr_port = defaultPort, dr_image = defaultImage\<rparr>),
      (''local'', local_runtime ex_host)]"
  by (simp add: ex_runtimes_def sys_runtimes_def Build_def scan_rows_def drivers_def docker_factory_def
      k8s_factory_def k8s_New_def local_factory_def envOr_def Getenv_def ex_host_def Let_def)

text \<open>Evaluation of the concrete system.\<close>

lemmas ex_store_simps = sys_store_def store_on_part_def on_part_def put_pg_def pg_store_def pg_GetSkill_def
  pg_CreateTask_def pg_StoreAgentToken_def pg_UpdateTaskState_def pg_RevokeAgentToken_def pg_Query_def
  pg_Exec_err_def pg_Exec_def insert_task_stmt_def store_token_stmt_def update_task_state_stmt_def
  revoke_token_stmt_def in_int4_def sent_null_json_def lookup_by_Cons has_key_Cons task_states_def

lemmas ex_state_simps = ex_system_def ex_pg_skill_def ex_pg_def ex_skill_def ex_host_def ex_local_def
  ex_create_def ex_server_def

lemmas ex_pipeline_simps = Server_CreateTask_def policy_check_def generateID_def with_host_def rand_Read_def
  Now_def new_task_def Let_def issue_token_def dispatch_created_def Dispatch_def rollback_def ex_runtimes_eq
  sys_server_def NewServer_def NewScheduler_def

lemma ex_created:
  "\<exists>res w'. Server_CreateTask (ex_server None) (ex_create ''local'') ex_system = (Inr res, w')"
  by (simp add: ex_pipeline_simps ex_state_simps ex_store_simps local_runtime_def Local_Dispatch_def
      local_admits_def local_spawn_def maxConcurrency_def local_started_def)

lemma ex_unavailable:
  "\<exists>err w'. Server_CreateTask (ex_server None) (ex_create ''docker'') ex_system = (Inl err, w') \<and>
     length (pg_tasks (sy_pg w')) = 1"
  by (simp add: ex_pipeline_simps ex_state_simps ex_store_simps docker_New_def Docker_Dispatch_def Getenv_def
      update_by_Cons upsert_by_def)

text \<open>A system whose database loses the third round trip, which is to store the token.\<close>

definition ex_losing :: system where
  "ex_losing =
     ex_system\<lparr>sy_pg := ex_pg_skill\<lparr>pg_fault := (\<lambda>n. if n = 2 then Some (LostBefore DeadlineExceeded) else None)\<rparr>\<rparr>"

lemma ex_losing_ok: "sys_wf ex_losing"
  using ex_pg_wf(2) by (simp add: ex_losing_def sys_wf_def pg_wf_def)

lemma ex_losing_run:
  "\<exists>w'. Server_CreateTask (ex_server None) (ex_create ''local'') ex_losing = (Inl (token_lost DeadlineExceeded), w') \<and>
     sys_up w' \<and> pg_tokens (sy_pg w') = []"
  by (simp add: ex_pipeline_simps ex_state_simps ex_store_simps ex_losing_def token_lost_def sys_up_def pg_up_def)

text \<open>A policy that denies the team of the concrete request.\<close>

definition ex_deny_dev :: engine where
  "ex_deny_dev =
     \<lparr>en_rules = [\<lparr>ru_ID = ''no-dev'', ru_Action = ''deny'', ru_Conditions = [(''team'', ''dev'')]\<rparr>],
      en_filePath = ''policy.yaml''\<rparr>"

text \<open>Requests of a client, and a codec that reads one creation and one event.\<close>

definition ex_http :: "string \<Rightarrow> string list \<Rightarrow> http_request" where
  "ex_http meth segs =
     \<lparr>rq_Method = meth, rq_Segments = segs, rq_Canonical = True, rq_Header = (\<lambda>k. []),
      rq_RawQuery = [], rq_Body = \<lparr>br_data = [], br_err = None\<rparr>\<rparr>"

definition ex_assets :: assets where
  "ex_assets = \<lparr>as_files = (\<lambda>n. n = ''index.html''), as_uuid = (\<lambda>h. (''r1'', h))\<rparr>"

definition ex_codec :: "string \<Rightarrow> codec" where
  "ex_codec ty =
     \<lparr>cd_task = (\<lambda>b. Inr (ex_create ''local'')),
      cd_event = (\<lambda>b. Inr \<lparr>cer_ID = ''e1'', cer_TaskID = ''t1'', cer_Type = ty, cer_Payload = Some []\<rparr>),
      cd_rfc3339 = (\<lambda>s. None)\<rparr>"

lemmas ex_handler_simps = Server_Handler_def authMiddleware_def wrapMiddleware_def RequestIDMiddleware_def
  LoggingMiddleware_def limitBody_def ex_http_def ex_assets_def ex_codec_def Getenv_def mux_route_def
  server_mux_def is_get_def log_access_def

lemma ex_task_created:
  "\<exists>res w'. Server_Handler ex_host ex_assets (ex_codec ''task.started'') (ex_server None)
     (ex_http ''POST'' [''v1'', ''tasks'']) ex_system = (res, w') \<and> rs_Status res = StatusCreated"
  by (simp add: ex_handler_simps handleCreateTask_def created_response_def writeJSON_def
      ex_pipeline_simps ex_state_simps ex_store_simps local_runtime_def Local_Dispatch_def
      local_admits_def local_spawn_def maxConcurrency_def local_started_def)

text \<open>The concrete system with one task and the given token rows.\<close>

definition ex_tables :: "task \<Rightarrow> token_row list \<Rightarrow> system" where
  "ex_tables t toks = ex_system\<lparr>sy_pg := ex_pg_skill\<lparr>pg_tasks := [t], pg_tokens := toks\<rparr>\<rparr>"

definition ex_done_task :: task where
  "ex_done_task = ex_task\<lparr>t_State := TaskStateCompleted\<rparr>"

definition ex_token :: "string \<Rightarrow> token_row" where
  "ex_token tok = \<lparr>tk_task_id = ''t1'', tk_token_hash = Sum256 tok, tk_created_at = 0, tk_revoked = False\<rparr>"

lemma ex_tables_ok: "sys_wf (ex_tables ex_done_task [])" "sys_up (ex_tables ex_done_task [])"
  "sys_wf (ex_tables ex_task [ex_token tok])" "sys_up (ex_tables ex_task [ex_token tok])"
  "sys_wf (ex_tables ex_task [])"
  by (simp_all add: ex_token_def sys_wf_def sys_up_def ex_tables_def pg_wf_def ex_pg_def ex_pg_skill_def ex_done_task_def
      keys_unique_def has_key_Cons ex_task_def ex_skill_def in_int4_def task_states_def pg_up_def)

lemma ex_tables_closed: "closed_tasks (sys_view (ex_tables t []))"
  by (simp add: closed_tasks_def token_valid_def sys_view_def abs_pg_def ex_tables_def ex_pg_skill_def ex_pg_def)

lemma ex_tables_task: "as_tasks (sys_view (ex_tables ex_done_task [])) ''t1'' = Some ex_done_task"
  by (simp add: sys_view_def abs_pg_def ex_tables_def lookup_by_Cons ex_done_task_def ex_task_def)

lemma ex_task_created_beside:
  "\<exists>res w'. Server_Handler ex_host ex_assets (ex_codec ''task.started'') (ex_server None)
     (ex_http ''POST'' [''v1'', ''tasks'']) (ex_tables ex_done_task []) = (res, w') \<and>
     length (pg_tasks (sy_pg w')) = 2"
  by (simp add: ex_handler_simps handleCreateTask_def created_response_def writeJSON_def ex_tables_def
      ex_done_task_def ex_task_def
      ex_pipeline_simps ex_state_simps ex_store_simps local_runtime_def Local_Dispatch_def
      local_admits_def local_spawn_def maxConcurrency_def local_started_def update_by_Cons)

text \<open>An event under a bearer token, a host with an API token, a listing.\<close>

definition ex_bearer :: "string \<Rightarrow> http_request" where
  "ex_bearer tok =
     (ex_http ''POST'' [''v1'', ''events''])\<lparr>rq_Header := (\<lambda>k. if k = ''Authorization'' then ''Bearer '' @ tok else [])\<rparr>"

definition ex_guarded :: host where
  "ex_guarded = ex_host\<lparr>h_env := (\<lambda>k. if k = ''HERMESMANAGER_API_TOKEN'' then ''s3cret'' else [])\<rparr>"

lemma ex_event_accepted:
  "\<exists>resp w'. handleCreateEvent (ex_codec ''task.completed'') (ex_server None) (ex_bearer ''tok'')
      (ex_tables ex_task [ex_token ''tok'']) = (resp, w') \<and> rs_Status resp = StatusCreated \<and>
     length (pg_events (sy_pg w')) = 1"
  by (simp add: handleCreateEvent_def ex_bearer_def ex_http_def ex_codec_def ex_tables_def ex_token_def ex_task_def
      ex_state_simps ex_store_simps pg_VerifyAgentToken_def pg_AppendEvent_def insert_event_stmt_def store_event_def
      finalize_event_def event_transition_def event_types_def writeJSON_def with_host_def Now_def
      sys_server_def NewServer_def Let_def ConstantTimeEq_def update_by_Cons go_consts)

lemma ex_listing:
  "\<exists>resp w'. handleListTasks (ex_server None) (ex_http ''GET'' [''v1'', ''tasks'']) (ex_tables ex_task []) = (resp, w') \<and>
     rs_Status resp = StatusOK"
  by (simp add: handleListTasks_def task_filter_of_def query_limit_def query_offset_def query_opt_def ex_http_def
      ex_tables_def ex_state_simps ex_store_simps pg_ListTasks_def select_tasks_def order_page_def writeJSON_def
      sys_server_def NewServer_def Let_def maxPageSize_def)

text \<open>Two events of one task, and listings of them.\<close>

definition ex_event :: "string \<Rightarrow> go_time \<Rightarrow> event" where
  "ex_event i made = \<lparr>e_ID = i, e_TaskID = ''t1'', e_Type = ''task.llm_call'', e_Payload = Some [], e_CreatedAt = made\<rparr>"

definition ex_reported :: system where
  "ex_reported = ex_system\<lparr>sy_pg := ex_pg_skill\<lparr>pg_tasks := [ex_task], pg_events := [ex_event ''e1'' 0, ex_event ''e2'' 9000000000]\<rparr>\<rparr>"

lemma ex_reported_ok: "sys_wf ex_reported"
  by (simp add: ex_reported_def ex_event_def sys_wf_def pg_wf_def ex_pg_def ex_pg_skill_def keys_unique_def has_key_Cons
      ex_task_def ex_skill_def in_int4_def task_states_def event_types_def go_consts)

lemma ex_events_listed:
  "\<exists>resp w'. handleListEvents c (ex_server None) r ex_reported = (resp, w') \<and> rs_Status resp = StatusOK"
  using query_limit_bounds [of r] query_offset_nonneg [of r] by (simp add: handleListEvents_def event_filter_of_def
      ex_reported_def ex_state_simps ex_store_simps pg_ListEvents_def select_events_def order_page_def writeJSON_def
      sys_server_def NewServer_def Let_def maxPageSize_def)

end
