(* ===== verification/Go_Int.thy ===== *)
theory Go_Int
  imports Prelude "HOL-Library.Word"
begin

text \<open>
  Conversions to the signed integer types of 32 and 64 bits: the value modulo the width,
  read in two's complement. \<open>time.Duration\<close> arithmetic is that of 64 bits.
\<close>

definition to_int32 :: "int \<Rightarrow> int" where
  "to_int32 i = sint (word_of_int i :: 32 word)"

definition to_int64 :: "int \<Rightarrow> int" where
  "to_int64 i = sint (word_of_int i :: 64 word)"

lemma to_int32_eq: "- (2 ^ 31) \<le> i \<Longrightarrow> i < 2 ^ 31 \<Longrightarrow> to_int32 i = i"
  by (simp add: to_int32_def sint_sbintrunc' signed_take_bit_int_eq_self)

lemma to_int64_eq: "- (2 ^ 63) \<le> i \<Longrightarrow> i < 2 ^ 63 \<Longrightarrow> to_int64 i = i"
  by (simp add: to_int64_def sint_sbintrunc' signed_take_bit_int_eq_self)

lemma to_int32_range: "- (2 ^ 31) \<le> to_int32 i \<and> to_int32 i < 2 ^ 31"
  using sint_range_size [of "word_of_int i :: 32 word"] by (simp add: to_int32_def word_size)

lemma to_int64_range: "- (2 ^ 63) \<le> to_int64 i \<and> to_int64 i < 2 ^ 63"
  using sint_range_size [of "word_of_int i :: 64 word"] by (simp add: to_int64_def word_size)

lemma to_int64_cong: "i mod 2 ^ 64 = j mod 2 ^ 64 \<Longrightarrow> to_int64 i = to_int64 j"
proof -
  assume "i mod 2 ^ 64 = j mod 2 ^ 64"
  then have "take_bit LENGTH(64) i = take_bit LENGTH(64) j" by (simp add: take_bit_eq_mod)
  then have "(word_of_int i :: 64 word) = word_of_int j" by (simp add: word_of_int_eq_iff)
  then show ?thesis by (simp add: to_int64_def)
qed

end
