(* ===== verification/Pg_Health.thy ===== *)
theory Pg_Health
  imports Postgres Go_Int
begin

text \<open>
  The connection pool's settings (\<open>New\<close> in \<open>internal/storage/postgres/store.go\<close>) and the
  health helpers of \<open>internal/storage/postgres/health.go\<close>: the health flag, waiting for the
  database, and retries.
\<close>

subsection \<open>The pool\<close>

definition envInt :: "host \<Rightarrow> string \<Rightarrow> int \<Rightarrow> int" where
  "envInt h key fallback =
     (let v = Getenv h key in
      if v = [] then fallback
      else (case Atoi v of None \<Rightarrow> fallback | Some n \<Rightarrow> n))"

record pool_config =
  po_MaxConns :: int
  po_MinConns :: int
  po_MaxConnLifetime :: int
  po_HealthCheckPeriod :: int

definition Minute :: int where [go_consts]: "Minute = 60 * 10 ^ 9"
definition Second :: int where [go_consts]: "Second = 10 ^ 9"
definition Millisecond :: int where [go_consts]: "Millisecond = 10 ^ 6"

definition pool_settings :: "host \<Rightarrow> pool_config" where
  "pool_settings h =
     (let max0 = to_int32 (envInt h ''PG_MAX_CONNS'' 10);
          min0 = to_int32 (envInt h ''PG_MIN_CONNS'' 2);
          max1 = (if max0 < 1 then 10 else max0);
          min1 = (if min0 < 0 then 2 else min0);
          min2 = (if min1 > max1 then max1 else min1)
      in \<lparr>po_MaxConns = max1, po_MinConns = min2,
          po_MaxConnLifetime = to_int64 (envInt h ''PG_MAX_CONN_LIFETIME_MINS'' 60 * Minute),
          po_HealthCheckPeriod = to_int64 (envInt h ''PG_HEALTH_CHECK_SECS'' 30 * Second)\<rparr>)"

text \<open>
  \<open>New\<close>: \<open>parse\<close> is \<open>pgxpool.ParseConfig\<close>, \<open>connect\<close> is \<open>pgxpool.NewWithConfig\<close>; a failed
  ping closes the pool.
\<close>

definition pg_New ::
  "(string \<Rightarrow> error option) \<Rightarrow> (pool_config \<Rightarrow> error option) \<Rightarrow> host \<Rightarrow> string \<Rightarrow> pg \<Rightarrow>
     unit result \<times> pg" where
  "pg_New parse connect h dsn d =
     (case parse dsn of
        Some err \<Rightarrow> (Inl (Errorf ''postgres: parse config: '' err []), d)
      | None \<Rightarrow>
          (case connect (pool_settings h) of
             Some err \<Rightarrow> (Inl (Errorf ''postgres: connect: '' err []), d)
           | None \<Rightarrow>
               (case pg_Ping (d\<lparr>pg_closed := False\<rparr>) of
                  (Some err, d1) \<Rightarrow> (Inl (Errorf ''postgres: ping: '' err []), snd (pg_Close d1))
                | (None, d1) \<Rightarrow> (Inr (), d1))))"

subsection \<open>The health flag\<close>

text \<open>The loop's events; a tick carries the outcome of its ping. The flag starts optimistic.\<close>

datatype health_event = HealthDone | HealthTick "error option"

fun health_loop :: "health_event list \<Rightarrow> bool \<Rightarrow> bool" where
  "health_loop [] healthy = healthy"
| "health_loop (HealthDone # es) healthy = healthy"
| "health_loop (HealthTick err # es) healthy = health_loop es (err = None)"

definition StartHealthCheck :: "health_event list \<Rightarrow> bool" where
  "StartHealthCheck es = health_loop es True"

subsection \<open>Waiting\<close>

text \<open>
  The events that the select of \<open>WaitForReady\<close> takes, in order; a tick pings. Running out
  of events is still waiting.
\<close>

datatype wait_event = WaitDone error | WaitDeadline | WaitTick "error option"

fun WaitForReady :: "string \<Rightarrow> wait_event list \<Rightarrow> error option option" where
  "WaitForReady timeout [] = None"
| "WaitForReady timeout (WaitDone err # es) = Some (Some err)"
| "WaitForReady timeout (WaitDeadline # es) =
     Some (Some (NewError (''postgres: not ready after '' @ timeout)))"
| "WaitForReady timeout (WaitTick None # es) = Some None"
| "WaitForReady timeout (WaitTick (Some err) # es) = WaitForReady timeout es"

subsection \<open>Retries\<close>

fun as_PgError :: "error \<Rightarrow> string option" where
  "as_PgError (PgError code msg) = Some code"
| "as_PgError (Errorf a e b) = as_PgError e"
| "as_PgError e = None"

definition transient_codes :: "string list" where
  "transient_codes = [''40001'', ''40P01'', ''08000'', ''08003'', ''08006'', ''57P01'']"

definition isTransient :: "error option \<Rightarrow> bool" where
  "isTransient err =
     (case err of
        None \<Rightarrow> False
      | Some e \<Rightarrow>
          (case as_PgError e of
             Some code \<Rightarrow> code \<in> set transient_codes
           | None \<Rightarrow> errors_Is e DeadlineExceeded))"

text \<open>\<open>time.Duration(math.Pow(2, attempt)) * 100 * time.Millisecond\<close>, in 64 bits.\<close>

definition backoff :: "nat \<Rightarrow> int" where
  "backoff attempt = to_int64 (2 ^ attempt * 100 * Millisecond)"

text \<open>
  \<open>fn\<close> is the retried function; \<open>wait\<close> is the select between the context and the timer, an
  error when the context wins. \<open>n\<close> is the number of attempts left.
\<close>

fun retry_loop ::
  "('w \<Rightarrow> error option \<times> 'w) \<Rightarrow> (int \<Rightarrow> 'w \<Rightarrow> error option \<times> 'w) \<Rightarrow> nat \<Rightarrow> nat \<Rightarrow> nat \<Rightarrow> error option \<Rightarrow> 'w \<Rightarrow>
     error option \<times> 'w" where
  "retry_loop fn wait maxA attempt 0 lastErr w =
     (Some (case lastErr of
              None \<Rightarrow> NewError (''postgres: max retries ('' @ nat_dec maxA @ '') exceeded: %!w(<nil>)'')
            | Some e \<Rightarrow> Errorf (''postgres: max retries ('' @ nat_dec maxA @ '') exceeded: '') e []), w)"
| "retry_loop fn wait maxA attempt (Suc n) lastErr w =
     (case fn w of
        (None, w1) \<Rightarrow> (None, w1)
      | (Some e, w1) \<Rightarrow>
          if \<not> isTransient (Some e) then (Some e, w1)
          else if n = 0 then retry_loop fn wait maxA (Suc attempt) n (Some e) w1
          else
            (case wait (backoff attempt) w1 of
               (Some c, w2) \<Rightarrow> (Some c, w2)
             | (None, w2) \<Rightarrow> retry_loop fn wait maxA (Suc attempt) n (Some e) w2))"

definition WithRetry ::
  "nat \<Rightarrow> ('w \<Rightarrow> error option \<times> 'w) \<Rightarrow> (int \<Rightarrow> 'w \<Rightarrow> error option \<times> 'w) \<Rightarrow> 'w \<Rightarrow> error option \<times> 'w" where
  "WithRetry maxA fn wait w = retry_loop fn wait maxA 0 maxA None w"

subsection \<open>Retry facts\<close>

lemma backoff_exact: "attempt \<le> 36 \<Longrightarrow> backoff attempt = 2 ^ attempt * 10 ^ 8"
proof -
  assume "attempt \<le> 36"
  then have "(2::int) ^ attempt \<le> 2 ^ 36" by (intro power_increasing) auto
  then have x: "(2::int) ^ attempt \<le> 68719476736" by simp
  have "to_int64 (x * 100000000) = x * 100000000" if "0 \<le> x" and "x \<le> 68719476736" for x
    using that by (intro to_int64_eq) simp_all
  from this [OF _ x] show ?thesis by (simp add: backoff_def Millisecond_def mult.assoc)
qed

text \<open>
  The retried function and the wait with a record of what they answered, in a world that
  carries it.
\<close>

datatype retry_entry = Tried "error option" | Waited int "error option"

definition logged_fn :: "('w \<Rightarrow> error option \<times> 'w) \<Rightarrow> 'w \<times> retry_entry list \<Rightarrow> error option \<times> 'w \<times> retry_entry list" where
  "logged_fn fn wl = (let (r, w1) = fn (fst wl) in (r, w1, snd wl @ [Tried r]))"

definition logged_wait ::
  "(int \<Rightarrow> 'w \<Rightarrow> error option \<times> 'w) \<Rightarrow> int \<Rightarrow> 'w \<times> retry_entry list \<Rightarrow> error option \<times> 'w \<times> retry_entry list" where
  "logged_wait wait d wl = (let (c, w1) = wait d (fst wl) in (c, w1, snd wl @ [Waited d c]))"

text \<open>The record of the attempts from number \<open>k\<close> on that failed for a transient reason and were waited after.\<close>

fun failed_attempts :: "nat \<Rightarrow> error list \<Rightarrow> retry_entry list" where
  "failed_attempts k [] = []"
| "failed_attempts k (e # es) = Tried (Some e) # Waited (backoff k) None # failed_attempts (Suc k) es"

definition all_transient :: "error list \<Rightarrow> bool" where
  "all_transient es \<longleftrightarrow> list_all (\<lambda>e. isTransient (Some e)) es"

text \<open>
  How a retry ends after \<open>es\<close>: with an answer that is no transient error, with a context that
  ended during a wait, or with the last of the attempts.
\<close>

definition retry_ends :: "nat \<Rightarrow> nat \<Rightarrow> nat \<Rightarrow> error list \<Rightarrow> retry_entry list \<Rightarrow> error option \<Rightarrow> bool" where
  "retry_ends maxA attempt n es l res \<longleftrightarrow>
     (length es < n \<and> l = failed_attempts attempt es @ [Tried res] \<and> \<not> isTransient res) \<or>
     (\<exists>e c. Suc (length es) < n \<and> isTransient (Some e) \<and> res = Some c \<and>
        l = failed_attempts attempt es @ [Tried (Some e), Waited (backoff (attempt + length es)) (Some c)]) \<or>
     (\<exists>e. Suc (length es) = n \<and> isTransient (Some e) \<and> l = failed_attempts attempt es @ [Tried (Some e)] \<and>
        res = Some (Errorf (''postgres: max retries ('' @ nat_dec maxA @ '') exceeded: '') e []))"

lemma retry_ends_Cons:
  "retry_ends maxA (Suc attempt) n es l res \<Longrightarrow>
     retry_ends maxA attempt (Suc n) (e # es) (Tried (Some e) # Waited (backoff attempt) None # l) res"
  by (auto simp: retry_ends_def)

lemma retry_loop_ends:
  assumes "retry_loop (logged_fn fn) (logged_wait wait) maxA attempt n le (w, l0) = (res, w', l)" and "0 < n"
  shows "\<exists>es l1. l = l0 @ l1 \<and> all_transient es \<and> retry_ends maxA attempt n es l1 res"
  using assms
proof (induction n arbitrary: attempt le w l0)
  case 0
  then show ?case by simp
next
  case (Suc n)
  obtain r w1 where f: "fn w = (r, w1)" by (metis prod.exhaust)
  have one: "\<exists>es l1. l = l0 @ l1 \<and> all_transient es \<and> retry_ends maxA attempt (Suc n) es l1 res"
    if "l = l0 @ l1" "retry_ends maxA attempt (Suc n) [] l1 res" for l1
    using that by (intro exI [of _ "[]"] exI [of _ l1]) (simp add: all_transient_def)
  show ?case
  proof (cases "isTransient r")
    case False
    with Suc.prems f have "res = r" "l = l0 @ [Tried r]" by (auto simp: logged_fn_def split: option.splits)
    with False show ?thesis by (intro one [of "[Tried r]"]) (simp_all add: retry_ends_def)
  next
    case True
    then obtain e where r: "r = Some e" and e: "isTransient (Some e)" by (cases r) (auto simp: isTransient_def)
    show ?thesis
    proof (cases "n = 0")
      case True
      with Suc.prems f r e have "l = l0 @ [Tried (Some e)]"
        "res = Some (Errorf (''postgres: max retries ('' @ nat_dec maxA @ '') exceeded: '') e [])"
        by (simp_all add: logged_fn_def)
      with True e show ?thesis by (intro one [of "[Tried (Some e)]"]) (simp_all add: retry_ends_def)
    next
      case False
      obtain c w2 where wt: "wait (backoff attempt) w1 = (c, w2)" by (metis prod.exhaust)
      show ?thesis
      proof (cases c)
        case (Some x)
        with Suc.prems f r e wt False have "res = Some x" "l = l0 @ [Tried (Some e), Waited (backoff attempt) (Some x)]"
          by (auto simp: logged_fn_def logged_wait_def)
        with False e show ?thesis
          by (intro one [of "[Tried (Some e), Waited (backoff attempt) (Some x)]"]) (simp_all add: retry_ends_def)
      next
        case None
        with Suc.prems f r e wt False
        have "retry_loop (logged_fn fn) (logged_wait wait) maxA (Suc attempt) n (Some e)
            (w2, l0 @ [Tried (Some e), Waited (backoff attempt) None]) = (res, w', l)"
          by (simp add: logged_fn_def [of fn "(w, l0)"] logged_wait_def [of wait _ "(w1, l0 @ [Tried (Some e)])"])
        from Suc.IH [OF this] False obtain es l1
          where "l = l0 @ [Tried (Some e), Waited (backoff attempt) None] @ l1" "all_transient es"
            "retry_ends maxA (Suc attempt) n es l1 res" by auto
        with e retry_ends_Cons show ?thesis
          by (intro exI [of _ "e # es"] exI [of _ "[Tried (Some e), Waited (backoff attempt) None] @ l1"])
            (simp add: all_transient_def)
      qed
    qed
  qed
qed

subsection \<open>Properties\<close>

text \<open>
  C36: The pool's bounds hold in every environment. Whatever the variables hold (nothing, no
  number, a number that does not fit 32 bits), at least one and fewer than \<open>2 ^ 31\<close>
  connections are allowed and the minimum lies between zero and the maximum.
\<close>

theorem pool_bounds:
  "1 \<le> po_MaxConns (pool_settings h) \<and> po_MaxConns (pool_settings h) < 2 ^ 31 \<and>
   0 \<le> po_MinConns (pool_settings h) \<and> po_MinConns (pool_settings h) \<le> po_MaxConns (pool_settings h)"
  using to_int32_range [of "envInt h ''PG_MAX_CONNS'' 10"] to_int32_range [of "envInt h ''PG_MIN_CONNS'' 2"]
  by (auto simp: pool_settings_def Let_def)

text \<open>
  C35: How a retry goes, over any function, any wait and any number of attempts but none. It
  tries, and after a transient error waits, the first 37 times twice as long as before from
  100 milliseconds on, and tries again; it ends with the first answer that is no transient
  error, with the error of the context when that ends during a wait, or when the attempts are
  used up with the last error under its own text and no wait after it.
\<close>

theorem retry_course:
  assumes "0 < maxA" and "WithRetry maxA (logged_fn fn) (logged_wait wait) (w, []) = (res, w', l)"
  shows "(\<exists>es. list_all (\<lambda>e. isTransient (Some e)) es \<and>
      (length es < maxA \<and> l = failed_attempts 0 es @ [Tried res] \<and> \<not> isTransient res \<or>
       (\<exists>e c. Suc (length es) < maxA \<and> isTransient (Some e) \<and> res = Some c \<and>
          l = failed_attempts 0 es @ [Tried (Some e), Waited (backoff (length es)) (Some c)]) \<or>
       (\<exists>e. Suc (length es) = maxA \<and> isTransient (Some e) \<and> l = failed_attempts 0 es @ [Tried (Some e)] \<and>
          res = Some (Errorf (''postgres: max retries ('' @ nat_dec maxA @ '') exceeded: '') e [])))) \<and>
    (\<forall>k < 37. backoff k = 2 ^ k * 100000000)"
proof -
  have "backoff k = 2 ^ k * 100000000" if "k < 37" for k using that by (simp add: backoff_exact)
  with retry_loop_ends [OF assms(2) [unfolded WithRetry_def] assms(1)] show ?thesis
    by (simp add: retry_ends_def all_transient_def)
qed

text \<open>A function that answers from a script, and waits that are not cut short.\<close>

definition scripted :: "error option list \<Rightarrow> error option \<times> error option list" where
  "scripted rs = (case rs of [] \<Rightarrow> (None, []) | r # rs' \<Rightarrow> (r, rs'))"

theorem retry_course_witness:
  "\<exists>l. WithRetry 3 (logged_fn scripted) (logged_wait (\<lambda>d rs. (None, rs)))
      ([Some (PgError ''40001'' []), Some DeadlineExceeded, None, Some Canceled], []) = (None, [Some Canceled], l) \<and>
    (\<exists>es. list_all (\<lambda>e. isTransient (Some e)) es \<and> l = failed_attempts 0 es @ [Tried None])"
proof -
  obtain l where run: "WithRetry 3 (logged_fn scripted) (logged_wait (\<lambda>d rs. (None, rs)))
      ([Some (PgError ''40001'' []), Some DeadlineExceeded, None, Some Canceled], []) = (None, [Some Canceled], l)"
    by (simp add: WithRetry_def numeral_3_eq_3 logged_fn_def logged_wait_def scripted_def isTransient_def transient_codes_def)
  from retry_course [OF _ run] run show ?thesis by auto
qed

text \<open>Without an attempt nothing is tried, and the text wraps an error that is nil.\<close>

lemma retry_none:
  "WithRetry 0 fn wait w = (Some (NewError (''postgres: max retries ('' @ nat_dec 0 @ '') exceeded: %!w(<nil>)'')), w)"
  by (simp add: WithRetry_def)

end
