(* ===== verification/Slack_Verify.thy ===== *)
theory Slack_Verify
  imports Http Pg_Health
begin

text \<open>
  Request signatures of the Slack gateway (\<open>internal/gateway/slack/verify.go\<close>). The result
  is the error response that was written, or the body.
\<close>

definition slackSignatureVersion :: string where [go_consts]: "slackSignatureVersion = ''v0''"
definition maxTimestampAge :: int where [go_consts]: "maxTimestampAge = 5 * Minute"
definition maxSlackBodySize :: nat where [go_consts]: "maxSlackBodySize = 2 ^ 20"

text \<open>\<open>io.ReadAll(io.LimitReader(r, n))\<close>.\<close>

definition read_limited :: "nat \<Rightarrow> body_reader \<Rightarrow> bytes result" where
  "read_limited n b =
     (if length (br_data b) \<ge> n then Inr (take n (br_data b))
      else (case br_err b of None \<Rightarrow> Inr (br_data b) | Some e \<Rightarrow> Inl e))"

definition slack_body :: "body_reader \<Rightarrow> http_response + bytes" where
  "slack_body b =
     (case read_limited (maxSlackBodySize + 1) b of
        Inl e \<Rightarrow> Inl (http_Error ''failed to read body'' StatusBadRequest)
      | Inr body \<Rightarrow>
          if length body > maxSlackBodySize
          then Inl (http_Error ''request body too large'' StatusRequestEntityTooLarge)
          else Inr body)"

text \<open>
  \<open>time.Duration(math.Abs(float64(now - ts))) * time.Second\<close>: the difference wraps in 64
  bits, its conversion to \<open>float64\<close> rounds, the conversion back and the product wrap.
\<close>

definition timestamp_age :: "int \<Rightarrow> int \<Rightarrow> int" where
  "timestamp_age now ts =
     to_int64 (to_int64 \<lfloor>\<bar>Go_Float.float64 (to_int64 (now - ts))\<bar>\<rfloor> * Second)"

definition slack_expected :: "string \<Rightarrow> string \<Rightarrow> bytes \<Rightarrow> string" where
  "slack_expected secret ts body =
     slackSignatureVersion @ ''='' @
       EncodeToString (hmac_sha256 secret (slackSignatureVersion @ '':'' @ ts @ '':'' @ body))"

text \<open>\<open>time.Time.Unix\<close>: whole seconds.\<close>

definition Unix :: "go_time \<Rightarrow> int" where
  "Unix t = t div Second"

definition verifySlackRequest ::
  "http_request \<Rightarrow> string \<Rightarrow> 'x world_scheme \<Rightarrow> (http_response + bytes) \<times> 'x world_scheme" where
  "verifySlackRequest r signingSecret w =
     (if signingSecret = [] then (slack_body (rq_Body r), w)
      else
        let ts = rq_Header r ''X-Slack-Request-Timestamp'';
            sig = rq_Header r ''X-Slack-Signature'' in
        if ts = [] \<or> sig = []
        then (Inl (http_Error ''missing Slack signature headers'' StatusUnauthorized), w)
        else
          case ParseInt ts of
            None \<Rightarrow> (Inl (http_Error ''invalid timestamp'' StatusBadRequest), w)
          | Some tsInt \<Rightarrow>
              (let (now, w1) = with_host Now w in
               if timestamp_age (Unix now) tsInt > maxTimestampAge
               then (Inl (http_Error ''request too old'' StatusUnauthorized), w1)
               else
                 (case slack_body (rq_Body r) of
                    Inl resp \<Rightarrow> (Inl resp, w1)
                  | Inr body \<Rightarrow>
                      if \<not> ConstantTimeEq sig (slack_expected signingSecret ts body)
                      then (Inl (http_Error ''invalid signature'' StatusUnauthorized), w1)
                      else (Inr body, w1))))"

subsection \<open>The age\<close>

lemma timestamp_age_exact:
  assumes "\<bar>now - ts\<bar> \<le> 9223372036"
  shows "timestamp_age now ts = \<bar>now - ts\<bar> * Second"
proof -
  define d where "d = now - ts"
  have d: "\<bar>d\<bar> \<le> 9223372036" using assms by (simp add: d_def)
  have 1: "to_int64 d = d" using d by (intro to_int64_eq) auto
  have "Go_Float.float64 d = of_int d" using d by (intro float64_exact) auto
  then have 2: "\<lfloor>\<bar>Go_Float.float64 d\<bar>\<rfloor> = \<bar>d\<bar>" by (metis floor_of_int of_int_abs)
  have 3: "to_int64 \<bar>d\<bar> = \<bar>d\<bar>" using d by (intro to_int64_eq) auto
  have 4: "to_int64 (\<bar>d\<bar> * 1000000000) = \<bar>d\<bar> * 1000000000" using d by (intro to_int64_eq) auto
  show ?thesis using 1 2 3 4 by (simp add: timestamp_age_def d_def [symmetric] Second_def)
qed

lemma timestamp_window:
  assumes "\<bar>now - ts\<bar> \<le> 9223372036"
  shows "timestamp_age now ts > maxTimestampAge \<longleftrightarrow> \<bar>now - ts\<bar> > 300"
  unfolding timestamp_age_exact [OF assms] by (auto simp: go_consts)

subsection \<open>What a verified body is\<close>

lemma slack_body_ok:
  assumes "slack_body b = Inr body"
  shows "length body \<le> maxSlackBodySize \<and> body = br_data b \<and> br_err b = None"
  using assms
  by (auto simp: slack_body_def read_limited_def split: if_splits option.splits)

lemma verify_ok:
  assumes "verifySlackRequest r secret w = (Inr body, w')" and "secret \<noteq> []"
  shows "\<exists>tsInt. ParseInt (rq_Header r ''X-Slack-Request-Timestamp'') = Some tsInt \<and>
    \<not> timestamp_age (Unix (fst (Now (w_host w)))) tsInt > maxTimestampAge \<and>
    rq_Header r ''X-Slack-Signature'' =
      slack_expected secret (rq_Header r ''X-Slack-Request-Timestamp'') (br_data (rq_Body r)) \<and>
    body = br_data (rq_Body r) \<and> length body \<le> maxSlackBodySize \<and> br_err (rq_Body r) = None"
  using assms
  by (auto simp: verifySlackRequest_def Let_def with_host_def
      split: if_splits option.splits prod.splits sum.splits dest!: slack_body_ok)

subsection \<open>Properties\<close>

text \<open>
  C38: A signed request is authentic. With a signing secret configured, a body is accepted only
  when it arrived whole within the size limit, the signature header is the HMAC of the version,
  the timestamp header and that body under the secret, and the timestamp is a number that is
  at most five minutes away from the clock or more than 292 years, where the 64 bits of the age
  wrap.
\<close>

theorem slack_verified:
  assumes "verifySlackRequest r secret w = (Inr body, w')" and "secret \<noteq> []"
  shows "body = br_data (rq_Body r) \<and> br_err (rq_Body r) = None \<and> length body \<le> 1048576 \<and>
    rq_Header r ''X-Slack-Signature'' =
      ''v0='' @ EncodeToString (hmac_sha256 secret
        (''v0:'' @ rq_Header r ''X-Slack-Request-Timestamp'' @ '':'' @ body)) \<and>
    (\<exists>ts. ParseInt (rq_Header r ''X-Slack-Request-Timestamp'') = Some ts \<and>
       (\<bar>Unix (fst (Now (w_host w))) - ts\<bar> \<le> 300 \<or> 9223372036 < \<bar>Unix (fst (Now (w_host w))) - ts\<bar>))"
proof -
  let ?now = "Unix (fst (Now (w_host w)))"
  from verify_ok [OF assms] obtain ts where ts: "ParseInt (rq_Header r ''X-Slack-Request-Timestamp'') = Some ts"
    and age: "\<not> timestamp_age ?now ts > maxTimestampAge" and rest: "body = br_data (rq_Body r)" "br_err (rq_Body r) = None"
      "length body \<le> maxSlackBodySize" "rq_Header r ''X-Slack-Signature'' =
        slack_expected secret (rq_Header r ''X-Slack-Request-Timestamp'') (br_data (rq_Body r))" by blast
  from age timestamp_window [of ?now ts] have "\<bar>?now - ts\<bar> \<le> 300 \<or> 9223372036 < \<bar>?now - ts\<bar>" by linarith
  with ts rest show ?thesis
    by (simp add: slack_expected_def slackSignatureVersion_def maxSlackBodySize_def)
qed

definition ex_slack_request :: "string \<Rightarrow> string \<Rightarrow> bytes \<Rightarrow> http_request" where
  "ex_slack_request ts sig body =
     \<lparr>rq_Method = ''POST'', rq_Segments = [''slack''], rq_Canonical = True,
      rq_Header = (\<lambda>k. if k = ''X-Slack-Request-Timestamp'' then ts
                      else if k = ''X-Slack-Signature'' then sig else []),
      rq_RawQuery = [], rq_Body = \<lparr>br_data = body, br_err = None\<rparr>\<rparr>"

theorem slack_verified_witness:
  "\<exists>w'. verifySlackRequest (ex_slack_request ''7'' (slack_expected ''key'' ''7'' ''text=help'') ''text=help'') ''key''
      \<lparr>w_host = ex_host\<rparr> = (Inr ''text=help'', w') \<and>
     \<bar>Unix (fst (Now ex_host)) - 7\<bar> \<le> 300"
proof -
  let ?r = "ex_slack_request ''7'' (slack_expected ''key'' ''7'' ''text=help'') ''text=help''"
  have p: "ParseInt ''7'' = Some 7" by code_simp
  have now: "Unix (fst (Now ex_host)) = 0" by (simp add: Now_def ex_host_def Unix_def)
  have age: "timestamp_age 0 7 \<le> maxTimestampAge" using timestamp_window [of 0 7] by simp
  have ne: "slack_expected ''key'' ''7'' ''text=help'' \<noteq> []"
    by (simp add: slack_expected_def slackSignatureVersion_def)
  obtain t h where n: "Now ex_host = (t, h)" by (metis prod.exhaust)
  then have clock: "with_host Now \<lparr>w_host = ex_host\<rparr> = (t, \<lparr>w_host = h\<rparr>)" by (simp add: with_host_def)
  have body: "slack_body (rq_Body ?r) = Inr ''text=help''"
    by (simp add: ex_slack_request_def slack_body_def read_limited_def maxSlackBodySize_def)
  have hdr: "rq_Header ?r ''X-Slack-Request-Timestamp'' = ''7''"
    "rq_Header ?r ''X-Slack-Signature'' = slack_expected ''key'' ''7'' ''text=help''"
    by (simp_all add: ex_slack_request_def)
  have v: "verifySlackRequest ?r ''key'' \<lparr>w_host = ex_host\<rparr> = (Inr ''text=help'', \<lparr>w_host = h\<rparr>)"
    using p age now n ne by (simp add: verifySlackRequest_def hdr body clock)
  from slack_verified [OF v] have "\<bar>Unix (fst (Now (w_host \<lparr>w_host = ex_host\<rparr>))) - 7\<bar> \<le> 300"
    using p now by (auto simp: hdr)
  with v show ?thesis by auto
qed

text \<open>
  The age of a timestamp wraps. A timestamp \<open>2 ^ 55\<close> seconds before the clock, more than a
  billion years, has age zero: the product with a second is a multiple of \<open>2 ^ 64\<close>.
\<close>

lemma timestamp_age_wraps:
  "timestamp_age 1700000000 (1700000000 - 2 ^ 55) = 0"
proof -
  have "to_int64 (1700000000 - (1700000000 - 2 ^ 55)) = 2 ^ 55" by (subst to_int64_eq) simp_all
  moreover have "Go_Float.float64 (2 ^ 55) = 2 ^ 55" by code_simp
  moreover have "to_int64 (2 ^ 55) = 2 ^ 55" by (subst to_int64_eq) simp_all
  moreover have "to_int64 (2 ^ 55 * Second) = to_int64 0"
    by (rule to_int64_cong) (simp add: Second_def)
  moreover have "to_int64 0 = 0" by (subst to_int64_eq) simp_all
  moreover have "\<lfloor>\<bar>(2 ^ 55 :: rat)\<bar>\<rfloor> = 2 ^ 55" by simp
  ultimately show ?thesis unfolding timestamp_age_def by metis
qed

end
