(* ===== verification/Slack_Bot.thy ===== *)
theory Slack_Bot
  imports Slack_Verify
begin

text \<open>
  The slash commands of \<open>internal/gateway/slack/bot.go\<close>. The pipeline behind the interface
  \<open>TaskCreator\<close>, the form parser and the JSON decoder are parameters here; \<open>Codec\<close> has the last two.
\<close>

record task_create_input =
  tci_SkillName :: string
  tci_Parameters :: json_map
  tci_Runtime :: string
  tci_User :: string
  tci_Team :: string

record task_create_output =
  tco_TaskID :: string
  tco_Token :: string

type_synonym 'w task_creator = "task_create_input \<Rightarrow> 'w \<Rightarrow> task_create_output result \<times> 'w"

record 'w bot =
  bo_store :: "'w store"
  bo_signingSecret :: string
  bo_creator :: "'w task_creator option"

definition NewBot :: "'w store \<Rightarrow> string \<Rightarrow> 'w task_creator option \<Rightarrow> 'w bot" where
  "NewBot st secret creator = \<lparr>bo_store = st, bo_signingSecret = secret, bo_creator = creator\<rparr>"

record slack_codec =
  sl_ParseQuery :: "bytes \<Rightarrow> (string \<Rightarrow> string) result"
  sl_Params :: "bytes \<Rightarrow> json_map result"

definition respondJSON :: "string \<Rightarrow> string \<Rightarrow> http_response" where
  "respondJSON ty text =
     writeJSON StatusOK (BObject [(''response_type'', ty), (''text'', text)])"

definition splitFirst :: "string \<Rightarrow> string \<times> string" where
  "splitFirst s0 =
     (let s = TrimSpace s0 in
      case IndexAny s [CHR '' '', CHR 0x09] of
        None \<Rightarrow> (s, [])
      | Some idx \<Rightarrow> (take idx s, TrimSpace (drop (idx + 1) s)))"

definition nl :: string where [go_consts]: "nl = [CHR 0x0A]"
definition em_dash :: string where [go_consts]: "em_dash = byte_string [226, 128, 148]"
definition bullet :: string where [go_consts]: "bullet = byte_string [226, 128, 162]"

definition help_text :: string where
  "help_text =
     ''*HermesManager Slack Commands*'' @ nl @ nl @
     ''`/hermes status` '' @ em_dash @ '' Show task counts by state (pending / running / completed / failed / timeout)'' @ nl @
     ''`/hermes run <skill> <json-params>` '' @ em_dash @ '' Submit a task'' @ nl @
     ''   Example: `/hermes run hello-skill {\"name\":\"World\"}`'' @ nl @
     ''`/hermes help` '' @ em_dash @ '' Show this message'' @ nl @ nl @
     ''Docs: <https://github.com/MackDing/hermes-manager/blob/main/docs/QUICKSTART.md|Quickstart>''"

definition handleHelp :: "'w \<Rightarrow> http_response \<times> 'w" where
  "handleHelp w = (respondJSON ''ephemeral'' help_text, w)"

text \<open>The counts per state and the lines they make.\<close>

definition state_count :: "task list \<Rightarrow> string \<Rightarrow> nat" where
  "state_count ts state = length (filter (\<lambda>t. t_State t = state) ts)"

definition status_text :: "task list \<Rightarrow> string" where
  "status_text ts =
     ''*Task Status*'' @ nl @
     concat (map (\<lambda>state. bullet @ '' '' @ state @ '': '' @ nat_dec (state_count ts state) @ nl) task_states) @
     ''Total: '' @ nat_dec (length ts)"

definition handleStatus :: "'w bot \<Rightarrow> 'w \<Rightarrow> http_response \<times> 'w" where
  "handleStatus b w =
     (case ListTasks (bo_store b) \<lparr>tf_State = None, tf_Limit = 1000, tf_Offset = 0\<rparr> w of
        (Inl err, w1) \<Rightarrow>
          (respondJSON ''ephemeral''
             ''Failed to query task status. Check the hermesmanager logs or contact an admin.'', w1)
      | (Inr ts, w1) \<Rightarrow> (respondJSON ''in_channel'' (status_text (slice ts)), w1))"

definition handleRun :: "slack_codec \<Rightarrow> 'w bot \<Rightarrow> string \<Rightarrow> 'w \<Rightarrow> http_response \<times> 'w" where
  "handleRun c b args w =
     (let (skillName, paramsRaw) = splitFirst args in
      if skillName = [] then
        (respondJSON ''ephemeral''
           ''Usage: `/hermes run <skill> <json-params>`. Try `/hermes help` for examples.'', w)
      else
        case bo_creator b of
          None \<Rightarrow>
            (respondJSON ''ephemeral''
               ''Task creation is not available. The server may be running in status-only mode.'', w)
        | Some create \<Rightarrow>
            (case (if paramsRaw \<noteq> [] then sl_Params c paramsRaw else Inr (Some [])) of
               Inl err \<Rightarrow>
                 (respondJSON ''ephemeral''
                    ''Invalid JSON parameters. Example: `/hermes run hello-skill {\"name\":\"World\"}`'', w)
             | Inr params \<Rightarrow>
                 (case create \<lparr>tci_SkillName = skillName, tci_Parameters = params,
                               tci_Runtime = ''local'', tci_User = ''slack-user'', tci_Team = []\<rparr> w of
                    (Inl err, w1) \<Rightarrow>
                      (respondJSON ''ephemeral''
                         ''Failed to submit task (runtime error). Check the hermesmanager logs or contact an admin.'', w1)
                  | (Inr res, w1) \<Rightarrow>
                      (respondJSON ''in_channel''
                         (''Task '' @ tco_TaskID res @ '' created for skill '' @ quote skillName), w1))))"

definition unknown_command :: "string \<Rightarrow> http_response" where
  "unknown_command subCmd =
     respondJSON ''ephemeral''
       (''Unknown command `'' @ subCmd @ ''`. Try `/hermes help` to see all commands.'')"

definition slack_command :: "slack_codec \<Rightarrow> 'w bot \<Rightarrow> string \<Rightarrow> 'w \<Rightarrow> http_response \<times> 'w" where
  "slack_command c b text0 w =
     (let text = TrimSpace text0; (subCmd, rest) = splitFirst text; cmd = ToLower subCmd in
      if cmd = ''status'' then handleStatus b w
      else if cmd = ''run'' then handleRun c b rest w
      else if cmd = ''help'' \<or> cmd = [] then handleHelp w
      else (unknown_command subCmd, w))"

definition slack_ServeHTTP :: "slack_codec \<Rightarrow> 'x world_scheme bot \<Rightarrow> 'x world_scheme handler" where
  "slack_ServeHTTP c b r w =
     (if rq_Method r \<noteq> ''POST'' then (http_Error ''method not allowed'' StatusMethodNotAllowed, w)
      else
        case verifySlackRequest r (bo_signingSecret b) w of
          (Inl resp, w1) \<Rightarrow> (resp, w1)
        | (Inr body, w1) \<Rightarrow>
            (case sl_ParseQuery c body of
               Inl err \<Rightarrow> (http_Error ''malformed form body'' StatusBadRequest, w1)
             | Inr form \<Rightarrow> slack_command c b (form ''text'') w1))"

definition slack_generateID :: "go_time \<Rightarrow> string" where
  "slack_generateID t = ''task-'' @ Itoa (to_int64 t)"

definition GenerateIDForTest :: "go_time \<Rightarrow> string" where
  "GenerateIDForTest t = slack_generateID t"

subsection \<open>Words\<close>

text \<open>The word has no blank in it, and the text is the word, a blank, and the rest.\<close>

lemma splitFirst_cases:
  assumes "splitFirst s = (word, rest)"
  shows "CHR '' '' \<notin> set word \<and> CHR 0x09 \<notin> set word \<and> TrimSpace rest = rest \<and>
    (TrimSpace s = word \<and> rest = [] \<or>
     (\<exists>sep ws ws'. sep \<in> {CHR '' '', CHR 0x09} \<and> TrimSpace s = word @ sep # ws @ rest @ ws'))"
proof (cases "IndexAny (TrimSpace s) [CHR '' '', CHR 0x09]")
  case None
  then have "set (TrimSpace s) \<inter> {CHR '' '', CHR 0x09} = {}" by (simp add: IndexAny_None)
  with assms None show ?thesis by (auto simp: splitFirst_def Let_def)
next
  case (Some i)
  define t where "t = TrimSpace s"
  from Some have "IndexAny t [CHR '' '', CHR 0x09] = Some i" by (simp add: t_def)
  from IndexAny_SomeD [OF this] have i: "i < length t" "t ! i \<in> {CHR '' '', CHR 0x09}"
    "set (take i t) \<inter> {CHR '' '', CHR 0x09} = {}" by auto
  from assms Some have w: "word = take i t" "rest = TrimSpace (drop (Suc i) t)"
    by (auto simp: splitFirst_def Let_def t_def)
  obtain a b where ab: "drop (Suc i) t = a @ rest @ b"
    unfolding w(2) using TrimSpace_infix by blast
  have "t = word @ (t ! i) # a @ rest @ b" using id_take_nth_drop [OF i(1)] unfolding ab w(1) .
  then have "\<exists>sep ws ws'. sep \<in> {CHR '' '', CHR 0x09} \<and> TrimSpace s = word @ sep # ws @ rest @ ws'"
    using i(2) unfolding t_def by blast
  moreover have "CHR '' '' \<notin> set word" "CHR 0x09 \<notin> set word" using i(3) by (auto simp: w)
  moreover have "TrimSpace rest = rest" by (simp add: w TrimSpace_idem)
  ultimately show ?thesis by blast
qed

subsection \<open>Counts\<close>

lemma state_count_sum:
  assumes "list_all (\<lambda>t. t_State t \<in> set task_states) ts"
  shows "sum_list (map (state_count ts) task_states) = length ts"
  using assms
proof (induction ts)
  case Nil
  then show ?case by (simp add: state_count_def task_states_def)
next
  case (Cons t ts)
  have "state_count (t # ts) s = state_count ts s + (if t_State t = s then 1 else 0)" for s
    by (simp add: state_count_def)
  then have "sum_list (map (state_count (t # ts)) task_states) =
      sum_list (map (state_count ts) task_states) +
      sum_list (map (\<lambda>s. if t_State t = s then 1 else 0) task_states)"
    by (simp add: task_states_def)
  moreover have "sum_list (map (\<lambda>s. if t_State t = s then 1 else 0) task_states) = (1 :: nat)"
    using Cons.prems by (auto simp: task_states_def go_consts)
  ultimately show ?case using Cons by simp
qed

subsection \<open>Properties\<close>

text \<open>
  A command is a word and a rest. The word holds no blank and no tab; the trimmed text is
  the word alone, or the word, one of the two separators, and a text whose trimmed form is
  the rest.
\<close>

lemma splitFirst_word:
  assumes "splitFirst s = (word, rest)"
  shows "CHR '' '' \<notin> set word \<and> CHR 0x09 \<notin> set word \<and> TrimSpace rest = rest \<and>
    (TrimSpace s = word \<and> rest = [] \<or>
     (\<exists>sep ws ws'. sep \<in> {CHR '' '', CHR 0x09} \<and> TrimSpace s = word @ sep # ws @ rest @ ws'))"
  by (rule splitFirst_cases [OF assms])

lemma ex_run_hello:
  "TrimSpace ''run hello'' = ''run hello''" "TrimSpace ''hello'' = ''hello''"
  by (rule TrimSpace_plain, simp_all add: plain_char_def)+


text \<open>
  The status lines add up. On tasks in the states of the schema, the five counts of the
  status answer sum to its total.
\<close>

lemma status_adds_up:
  assumes "list_all (\<lambda>t. t_State t \<in> set task_states) ts"
  shows "sum_list (map (state_count ts) task_states) = length ts"
  by (rule state_count_sum [OF assms])


text \<open>
  C39: A slash command reaches nothing but the process unless it is a verified \<open>run\<close> or
  \<open>status\<close>. When the world after a request differs beyond its process part, the request was a
  POST whose body passed the signature check, and its text asked for \<open>run\<close> or \<open>status\<close>.
\<close>

theorem slack_only_verified_acts:
  assumes "slack_ServeHTTP c b r w = (resp, w')" and "w'\<lparr>w_host := h\<rparr> \<noteq> w\<lparr>w_host := h\<rparr>"
  shows "rq_Method r = ''POST'' \<and>
    (\<exists>body w1 form. verifySlackRequest r (bo_signingSecret b) w = (Inr body, w1) \<and>
       sl_ParseQuery c body = Inr form \<and>
       ToLower (fst (splitFirst (TrimSpace (form ''text'')))) \<in> {''run'', ''status''})"
proof -
  have host: "w1\<lparr>w_host := h\<rparr> = w\<lparr>w_host := h\<rparr>"
    if "verifySlackRequest r (bo_signingSecret b) w = (x, w1)" for x w1
    using that
    by (auto simp: verifySlackRequest_def with_host_def Let_def
        split: if_splits option.splits prod.splits sum.splits)
  have cmd: "w2 = w1"
    if "slack_command c b ct w1 = (x, w2)" and "ToLower (fst (splitFirst (TrimSpace ct))) \<notin> {''run'', ''status''}"
    for ct w1 x w2
    using that by (auto simp: slack_command_def Let_def handleHelp_def split: prod.splits if_splits)
  obtain x w1 where v: "verifySlackRequest r (bo_signingSecret b) w = (x, w1)" by (metis prod.exhaust)
  show ?thesis
  proof (cases "rq_Method r = ''POST'' \<and> (\<exists>body form. x = Inr body \<and> sl_ParseQuery c body = Inr form)")
    case False
    then have "w' = w \<or> w' = w1"
      using assms(1) v by (auto simp: slack_ServeHTTP_def split: sum.splits if_splits)
    with host [OF v] assms(2) show ?thesis by auto
  next
    case True
    then obtain body form where t: "rq_Method r = ''POST''" "x = Inr body" "sl_ParseQuery c body = Inr form"
      by blast
    with assms(1) v have "slack_command c b (form ''text'') w1 = (resp, w')" by (simp add: slack_ServeHTTP_def)
    from cmd [OF this] host [OF v] assms(2) t v show ?thesis by blast
  qed
qed

text \<open>A world with a counter, and a creator that advances it.\<close>

record counted = world +
  cw_created :: nat

definition ex_counted :: counted where
  "ex_counted = \<lparr>w_host = ex_host, cw_created = 0\<rparr>"

definition ex_creator :: "counted task_creator" where
  "ex_creator i w = (Inr \<lparr>tco_TaskID = ''t1'', tco_Token = []\<rparr>, w\<lparr>cw_created := Suc (cw_created w)\<rparr>)"

definition ex_slack_codec :: slack_codec where
  "ex_slack_codec = \<lparr>sl_ParseQuery = (\<lambda>b. Inr (\<lambda>k. ''run hello'')), sl_Params = (\<lambda>b. Inl Canceled)\<rparr>"

theorem slack_only_verified_acts_witness:
  "\<forall>st. \<exists>resp w'. slack_ServeHTTP ex_slack_codec (NewBot st [] (Some ex_creator)) (ex_slack_request [] [] ''x'') ex_counted =
     (resp, w') \<and> cw_created w' = 1"
proof
  fix st
  let ?b = "NewBot st [] (Some ex_creator)"
  let ?r = "ex_slack_request [] [] ''x''"
  have sf: "splitFirst (TrimSpace ''run hello'') = (''run'', ''hello'')" "splitFirst ''hello'' = (''hello'', [])"
    by (simp_all add: splitFirst_def ex_run_hello Let_def)
  have lo: "ToLower ''run'' = ''run''" by code_simp
  obtain resp w' where run: "slack_ServeHTTP ex_slack_codec ?b ?r ex_counted = (resp, w')" and "cw_created w' = 1"
    by (simp add: slack_ServeHTTP_def ex_slack_request_def verifySlackRequest_def NewBot_def slack_body_def
        read_limited_def maxSlackBodySize_def ex_slack_codec_def slack_command_def sf lo handleRun_def ex_creator_def
        ex_counted_def Let_def)
  have "w'\<lparr>w_host := ex_host\<rparr> \<noteq> ex_counted\<lparr>w_host := ex_host\<rparr>"
    using \<open>cw_created w' = 1\<close> by (auto simp: ex_counted_def dest!: arg_cong [where f = cw_created])
  from slack_only_verified_acts [OF run this] run \<open>cw_created w' = 1\<close>
  show "\<exists>resp w'. slack_ServeHTTP ex_slack_codec ?b ?r ex_counted = (resp, w') \<and> cw_created w' = 1" by blast
qed

end
