(* ===== verification/Skill_Loader.thy ===== *)
theory Skill_Loader
  imports Store_Contract
begin

text \<open>
  Skills from YAML files (\<open>internal/skills/loader.go\<close>). The file system and the YAML parser
  are parameters; a directory listing is in the order \<open>os.ReadDir\<close> gives it.
\<close>

record dir_entry =
  de_Name :: string
  de_IsDir :: bool

record skill_file =
  sf_APIVersion :: string
  sf_Kind :: string
  sf_Name :: string
  sf_Version :: string
  sf_Description :: string
  sf_Entrypoint :: string
  sf_Parameters :: "param list option"
  sf_RequiredTools :: "string list option"
  sf_RequiredModels :: "string list option"

record file_system =
  fs_ReadDir :: "string \<Rightarrow> dir_entry list result"
  fs_ReadFile :: "string \<Rightarrow> bytes result"
  fs_Exists :: "string \<Rightarrow> bool"
  fs_SkillYAML :: "bytes \<Rightarrow> skill_file result"

definition parseSkillFile :: "file_system \<Rightarrow> string \<Rightarrow> 'x world_scheme \<Rightarrow> skill result \<times> 'x world_scheme" where
  "parseSkillFile fs path w =
     (case fs_ReadFile fs path of
        Inl err \<Rightarrow> (Inl (Errorf (''skills: read file '' @ path @ '': '') err []), w)
      | Inr data \<Rightarrow>
          (case fs_SkillYAML fs data of
             Inl err \<Rightarrow> (Inl (Errorf (''skills: parse YAML '' @ path @ '': '') err []), w)
           | Inr sf \<Rightarrow>
               if sf_Name sf = [] then
                 (Inl (NewError (''skills: file '' @ path @ '' has no metadata.name'')), w)
               else
                 (let (now, w1) = with_host Now w in
                  (Inr \<lparr>sk_Name = sf_Name sf, sk_Version = sf_Version sf,
                        sk_Description = sf_Description sf, sk_Entrypoint = sf_Entrypoint sf,
                        sk_Parameters = sf_Parameters sf, sk_RequiredTools = sf_RequiredTools sf,
                        sk_RequiredModels = sf_RequiredModels sf, sk_SourceFile = path,
                        sk_LoadedAt = now\<rparr>, w1))))"

text \<open>The entries the loop does not skip.\<close>

definition is_skill_entry :: "dir_entry \<Rightarrow> bool" where
  "is_skill_entry e \<longleftrightarrow>
     \<not> de_IsDir e \<and>
     (let ext = ToLower (path_Ext (de_Name e)) in \<not> (ext \<noteq> ''.yaml'' \<and> ext \<noteq> ''.yml''))"

text \<open>One file: the skill it holds or its error, and whether the store took it.\<close>

definition load_file ::
  "file_system \<Rightarrow> 'x world_scheme store \<Rightarrow> string \<Rightarrow> 'x world_scheme \<Rightarrow> skill result \<times> 'x world_scheme" where
  "load_file fs st path w =
     (case parseSkillFile fs path w of
        (Inl err, w1) \<Rightarrow> (Inl err, w1)
      | (Inr sk, w1) \<Rightarrow>
          (case UpsertSkill st sk w1 of
             (Some err, w2) \<Rightarrow> (Inl (Errorf (''skills: upsert '' @ sk_Name sk @ '': '') err []), w2)
           | (None, w2) \<Rightarrow> (Inr sk, w2)))"

fun load_loop ::
  "file_system \<Rightarrow> 'x world_scheme store \<Rightarrow> string \<Rightarrow> dir_entry list \<Rightarrow> int \<Rightarrow> error option \<Rightarrow> 'x world_scheme \<Rightarrow>
     (int \<times> error option) \<times> 'x world_scheme" where
  "load_loop fs st dir [] loaded firstErr w = ((loaded, firstErr), w)"
| "load_loop fs st dir (e # es) loaded firstErr w =
     (if \<not> is_skill_entry e then load_loop fs st dir es loaded firstErr w
      else
        case load_file fs st (path_Join dir (de_Name e)) w of
          (Inl err, w1) \<Rightarrow>
            load_loop fs st dir es loaded (if firstErr = None then Some err else firstErr) w1
        | (Inr sk, w1) \<Rightarrow> load_loop fs st dir es (loaded + 1) firstErr w1)"

definition LoadFromDir ::
  "file_system \<Rightarrow> 'x world_scheme store \<Rightarrow> string \<Rightarrow> 'x world_scheme \<Rightarrow> (int \<times> error option) \<times> 'x world_scheme" where
  "LoadFromDir fs st dir w =
     (case fs_ReadDir fs dir of
        Inl err \<Rightarrow> ((0, Some (Errorf (''skills: read dir '' @ dir @ '': '') err [])), w)
      | Inr entries \<Rightarrow> load_loop fs st dir entries 0 None w)"

subsection \<open>The loop as a pass over the files\<close>

text \<open>The outcome of every file, with no accumulator.\<close>

fun load_files ::
  "file_system \<Rightarrow> 'x world_scheme store \<Rightarrow> string list \<Rightarrow> 'x world_scheme \<Rightarrow> skill result list \<times> 'x world_scheme" where
  "load_files fs st [] w = ([], w)"
| "load_files fs st (p # ps) w =
     (let (r, w1) = load_file fs st p w; (rs, w2) = load_files fs st ps w1 in (r # rs, w2))"

definition skill_paths :: "string \<Rightarrow> dir_entry list \<Rightarrow> string list" where
  "skill_paths dir es = map (\<lambda>e. path_Join dir (de_Name e)) (filter is_skill_entry es)"

definition loaded_skills :: "skill result list \<Rightarrow> skill list" where
  "loaded_skills rs = List.map_filter (\<lambda>r. case r of Inl _ \<Rightarrow> None | Inr sk \<Rightarrow> Some sk) rs"

fun first_error :: "'a result list \<Rightarrow> error option" where
  "first_error [] = None"
| "first_error (Inl e # rs) = Some e"
| "first_error (Inr x # rs) = first_error rs"

lemma loaded_skills_simps [simp]:
  "loaded_skills [] = []"
  "loaded_skills (Inl e # rs) = loaded_skills rs"
  "loaded_skills (Inr sk # rs) = sk # loaded_skills rs"
  by (simp_all add: loaded_skills_def List.map_filter_def)

text \<open>A table of skills overlaid with a list of them, the last of a name winning, up to dates.\<close>

definition skills_overlaid :: "skill list \<Rightarrow> (string \<Rightarrow> skill option) \<Rightarrow> (string \<Rightarrow> skill option) \<Rightarrow> bool" where
  "skills_overlaid sks m m' \<longleftrightarrow>
     (\<forall>n. case map_of (rev (map (\<lambda>sk. (sk_Name sk, sk)) sks)) n of
            None \<Rightarrow> m' n = m n
          | Some sk \<Rightarrow> \<exists>sk'. m' n = Some sk' \<and> same_skill sk sk')"

lemma skills_overlaid_Cons:
  assumes "same_skill sk sk'" and "skills_overlaid sks (m(sk_Name sk \<mapsto> sk')) m'"
  shows "skills_overlaid (sk # sks) m m'"
  unfolding skills_overlaid_def
proof
  fix n
  from assms(2) have "case map_of (rev (map (\<lambda>sk. (sk_Name sk, sk)) sks)) n of
      None \<Rightarrow> m' n = (m(sk_Name sk \<mapsto> sk')) n | Some s \<Rightarrow> \<exists>s'. m' n = Some s' \<and> same_skill s s'"
    unfolding skills_overlaid_def by (rule spec)
  with assms(1) show "case map_of (rev (map (\<lambda>sk. (sk_Name sk, sk)) (sk # sks))) n of
      None \<Rightarrow> m' n = m n | Some s \<Rightarrow> \<exists>s'. m' n = Some s' \<and> same_skill s s'"
    by (cases "map_of (rev (map (\<lambda>sk. (sk_Name sk, sk)) sks)) n") (auto simp: map_add_def)
qed

lemma load_loop_files:
  "load_loop fs st dir es n fe w =
     (let (rs, w') = load_files fs st (skill_paths dir es) w in
      ((n + int (length (loaded_skills rs)), if fe = None then first_error rs else fe), w'))"
proof (induction fs st dir es n fe w rule: load_loop.induct)
  case (1 fs st dir loaded firstErr w)
  then show ?case by (simp add: skill_paths_def)
next
  case (2 fs st dir e es loaded firstErr w)
  show ?case
  proof (cases "is_skill_entry e")
    case False
    with 2 show ?thesis by (simp add: skill_paths_def)
  next
    case True
    obtain r w1 where l: "load_file fs st (path_Join dir (de_Name e)) w = (r, w1)" by (metis prod.exhaust)
    with True 2 show ?thesis
      by (cases r) (auto simp: skill_paths_def Let_def split: prod.splits)
  qed
qed

lemma load_files_length: "load_files fs st ps w = (rs, w') \<Longrightarrow> length rs = length ps"
  by (induction ps arbitrary: w rs) (auto split: prod.splits)

text \<open>What no upsert and no step of the process changes, the pass does not change.\<close>

lemma load_files_inv:
  assumes host: "\<And>w h. P w \<Longrightarrow> P (w\<lparr>w_host := h\<rparr>)"
    and ups: "\<And>sk w e w'. P w \<Longrightarrow> UpsertSkill st sk w = (e, w') \<Longrightarrow> P w'"
    and "P w" and "load_files fs st ps w = (rs, w')"
  shows "P w'"
  using assms(3,4)
proof (induction ps arbitrary: w rs)
  case Nil
  then show ?case by simp
next
  case (Cons p ps)
  obtain r w1 where l: "load_file fs st p w = (r, w1)" by (metis prod.exhaust)
  from Cons.prems(2) l obtain rs' where rs': "load_files fs st ps w1 = (rs', w')"
    by (auto split: prod.splits)
  obtain x w2 where pf: "parseSkillFile fs p w = (x, w2)" by (metis prod.exhaust)
  then have "P w2" using host [OF Cons.prems(1)] Cons.prems(1)
    by (auto simp: parseSkillFile_def with_host_def split: sum.splits if_splits prod.splits)
  then have "P w1" using l pf ups
    by (auto simp: load_file_def split: sum.splits prod.splits option.splits)
  from Cons.IH [OF this rs'] show ?case .
qed

lemma LoadFromDir_inv:
  assumes host: "\<And>w h. P w \<Longrightarrow> P (w\<lparr>w_host := h\<rparr>)"
    and ups: "\<And>sk w e w'. P w \<Longrightarrow> UpsertSkill st sk w = (e, w') \<Longrightarrow> P w'"
    and "P w" and "LoadFromDir fs st dir w = (r, w')"
  shows "P w'"
proof (cases "fs_ReadDir fs dir")
  case (Inl e)
  with assms(3,4) show ?thesis by (simp add: LoadFromDir_def)
next
  case (Inr es)
  obtain rs w1 where l: "load_files fs st (skill_paths dir es) w = (rs, w1)" by (metis prod.exhaust)
  with assms(4) Inr have "w' = w1" by (simp add: LoadFromDir_def load_loop_files)
  with load_files_inv [of P st, OF host ups assms(3) l] show ?thesis by simp
qed

text \<open>
  What a file is good for: the error of reading or parsing it, or of a missing name, and else the
  skill with the fields of the file, its path and the time. A database that answers takes a
  skill whose lists are there; in general the store may refuse it.
\<close>

definition file_outcome :: "file_system \<Rightarrow> bool \<Rightarrow> string \<Rightarrow> skill result \<Rightarrow> bool" where
  "file_outcome fs live p r \<longleftrightarrow>
     (case fs_ReadFile fs p of
        Inl e \<Rightarrow> r = Inl (Errorf (''skills: read file '' @ p @ '': '') e [])
      | Inr data \<Rightarrow>
          (case fs_SkillYAML fs data of
             Inl e \<Rightarrow> r = Inl (Errorf (''skills: parse YAML '' @ p @ '': '') e [])
           | Inr sf \<Rightarrow>
               if sf_Name sf = [] then r = Inl (NewError (''skills: file '' @ p @ '' has no metadata.name''))
               else
                 (\<exists>now. r = Inr \<lparr>sk_Name = sf_Name sf, sk_Version = sf_Version sf, sk_Description = sf_Description sf,
                    sk_Entrypoint = sf_Entrypoint sf, sk_Parameters = sf_Parameters sf,
                    sk_RequiredTools = sf_RequiredTools sf, sk_RequiredModels = sf_RequiredModels sf,
                    sk_SourceFile = p, sk_LoadedAt = now\<rparr>) \<or>
                 \<not> (live \<and> sf_Parameters sf \<noteq> None \<and> sf_RequiredTools sf \<noteq> None \<and> sf_RequiredModels sf \<noteq> None) \<and>
                 (\<exists>e. r = Inl (Errorf (''skills: upsert '' @ sf_Name sf @ '': '') e []))))"

context store_contract
begin

text \<open>Every skill that counts as loaded is in the store afterwards; no skill disappears.\<close>

lemma upsert_keeps:
  assumes "wf w" and "UpsertSkill st sk w = (err, w')"
  shows "wf w' \<and> dom (as_skills (view w)) \<subseteq> dom (as_skills (view w')) \<and>
    (err = None \<longrightarrow> sk_Name sk \<in> dom (as_skills (view w'))) \<and>
    as_tasks (view w') = as_tasks (view w) \<and> as_tokens (view w') = as_tokens (view w) \<and>
    as_events (view w') = as_events (view w)"
  using upsert_skill [OF assms] by (auto simp: wrote_def skill_upserted_def)

end

locale world_store = live_store st view wf up
  for st :: "'x world_scheme store" and view :: "'x world_scheme \<Rightarrow> abs_store"
    and wf :: "'x world_scheme \<Rightarrow> bool" and up :: "'x world_scheme \<Rightarrow> bool" +
  assumes host_free: "view (w\<lparr>w_host := h\<rparr>) = view w" "wf (w\<lparr>w_host := h\<rparr>) = wf w" "up (w\<lparr>w_host := h\<rparr>) = up w"
begin

lemma parse_keeps: "parseSkillFile fs p w = (r, w') \<Longrightarrow> view w' = view w \<and> (wf w' \<longleftrightarrow> wf w) \<and> (up w' \<longleftrightarrow> up w)"
  by (auto simp: parseSkillFile_def with_host_def host_free split: sum.splits if_splits prod.splits)

lemma load_file_keeps:
  assumes "wf w" and "load_file fs st p w = (r, w')"
  shows "wf w' \<and> dom (as_skills (view w)) \<subseteq> dom (as_skills (view w')) \<and>
    (\<forall>sk. r = Inr sk \<longrightarrow> sk_Name sk \<in> dom (as_skills (view w'))) \<and>
    as_tasks (view w') = as_tasks (view w) \<and> as_tokens (view w') = as_tokens (view w) \<and>
    as_events (view w') = as_events (view w)"
proof -
  obtain x w1 where p: "parseSkillFile fs p w = (x, w1)" by (metis prod.exhaust)
  note k = parse_keeps [OF p]
  show ?thesis
  proof (cases x)
    case (Inl e)
    with assms p k show ?thesis by (auto simp: load_file_def)
  next
    case (Inr sk)
    obtain e w2 where u: "UpsertSkill st sk w1 = (e, w2)" by (metis prod.exhaust)
    from k assms(1) have "wf w1" by simp
    from upsert_keeps [OF this u] k show ?thesis
      using assms(2) p u Inr by (auto simp: load_file_def split: option.splits)
  qed
qed

lemma load_files_keep:
  assumes "wf w" and "load_files fs st ps w = (rs, w')"
  shows "wf w' \<and> dom (as_skills (view w)) \<subseteq> dom (as_skills (view w')) \<and>
    sk_Name ` set (loaded_skills rs) \<subseteq> dom (as_skills (view w')) \<and>
    as_tasks (view w') = as_tasks (view w) \<and> as_tokens (view w') = as_tokens (view w) \<and>
    as_events (view w') = as_events (view w)"
  using assms
proof (induction ps arbitrary: w rs)
  case Nil
  then show ?case by simp
next
  case (Cons p ps)
  obtain r w1 where l: "load_file fs st p w = (r, w1)" by (metis prod.exhaust)
  from Cons.prems(2) l obtain rs' where rs': "load_files fs st ps w1 = (rs', w')" and rs: "rs = r # rs'"
    by (auto split: prod.splits)
  note 1 = load_file_keeps [OF Cons.prems(1) l]
  with Cons.IH [OF _ rs'] have 2: "wf w'" "dom (as_skills (view w1)) \<subseteq> dom (as_skills (view w'))"
    "sk_Name ` set (loaded_skills rs') \<subseteq> dom (as_skills (view w'))"
    "as_tasks (view w') = as_tasks (view w1)" "as_tokens (view w') = as_tokens (view w1)" "as_events (view w') = as_events (view w1)" by auto
  from 1 2(2) have sub: "dom (as_skills (view w)) \<subseteq> dom (as_skills (view w'))" by blast
  show ?case
  proof (cases r)
    case (Inl e)
    with rs 1 2 sub show ?thesis by simp
  next
    case (Inr sk)
    with 1 2(2) have "sk_Name sk \<in> dom (as_skills (view w'))" by blast
    with rs 1 2 sub Inr show ?thesis by simp
  qed
qed

lemma load_file_outcome:
  assumes "load_file fs st p w = (r, w')" and "live \<longrightarrow> up w"
  shows "file_outcome fs live p r \<and> (live \<longrightarrow> up w')"
proof -
  obtain x w1 where pf: "parseSkillFile fs p w = (x, w1)" by (metis prod.exhaust)
  from parse_keeps [OF pf] assms(2) have up1: "live \<longrightarrow> up w1" by simp
  show ?thesis
  proof (cases x)
    case (Inl e)
    with assms(1) pf up1 show ?thesis
      by (auto simp: load_file_def parseSkillFile_def file_outcome_def Let_def split: sum.splits if_splits prod.splits)
  next
    case (Inr sk)
    obtain e w2 where u: "UpsertSkill st sk w1 = (e, w2)" by (metis prod.exhaust)
    from live_upsert [OF _ u] up1 have "live \<longrightarrow> up w2 \<and>
        (sk_Parameters sk \<noteq> None \<longrightarrow> sk_RequiredTools sk \<noteq> None \<longrightarrow> sk_RequiredModels sk \<noteq> None \<longrightarrow> e = None)" by blast
    with assms(1) pf Inr u show ?thesis
      by (auto simp: load_file_def parseSkillFile_def file_outcome_def Let_def
          split: sum.splits if_splits prod.splits option.splits)
  qed
qed

lemma load_files_outcomes:
  "load_files fs st ps w = (rs, w') \<Longrightarrow> live \<longrightarrow> up w \<Longrightarrow> list_all2 (file_outcome fs live) ps rs"
proof (induction ps arbitrary: w rs)
  case Nil
  then show ?case by simp
next
  case (Cons p ps)
  obtain r w1 where l: "load_file fs st p w = (r, w1)" by (metis prod.exhaust)
  from load_file_outcome [OF l Cons.prems(2)] Cons.IH [of w1] Cons.prems(1) l show ?case
    by (auto split: prod.splits)
qed

text \<open>
  A pass without errors leaves the table as the files say: for every name the last file that
  holds it, and the old row where none does.
\<close>

lemma load_file_exact:
  assumes "wf w" and "load_file fs st p w = (Inr sk, w')"
  shows "wf w' \<and> skill_upserted sk (view w) (view w')"
proof -
  obtain x w1 where p: "parseSkillFile fs p w = (x, w1)" by (metis prod.exhaust)
  note k = parse_keeps [OF p]
  from assms(2) p have x: "x = Inr sk" and u: "UpsertSkill st sk w1 = (None, w')"
    by (auto simp: load_file_def split: sum.splits prod.splits option.splits)
  from k assms(1) have "wf w1" by simp
  from upsert_skill [OF this u] k show ?thesis by simp
qed

lemma load_files_exact:
  assumes "wf w" and "load_files fs st ps w = (rs, w')" and "first_error rs = None"
  shows "wf w' \<and> skills_overlaid (loaded_skills rs) (as_skills (view w)) (as_skills (view w'))"
  using assms
proof (induction ps arbitrary: w rs)
  case Nil
  then show ?case by (simp add: skills_overlaid_def)
next
  case (Cons p ps)
  obtain r w1 where l: "load_file fs st p w = (r, w1)" by (metis prod.exhaust)
  from Cons.prems(2) l obtain rs' where rs': "load_files fs st ps w1 = (rs', w')" and rs: "rs = r # rs'"
    by (auto split: prod.splits)
  from rs Cons.prems(3) obtain sk where r: "r = Inr sk" and none: "first_error rs' = None" by (cases r) auto
  from load_file_exact [OF Cons.prems(1) l [unfolded r]]
  have w1: "wf w1" "skill_upserted sk (view w) (view w1)" by auto
  from Cons.IH [OF w1(1) rs' none] w1(2) show ?case
    by (auto simp del: fun_upd_apply simp: rs r skill_upserted_def intro: skills_overlaid_Cons)
qed

end

end
