(* ===== verification/Startup.thy ===== *)
theory Startup
  imports System Slack_Bot Skill_Loader
begin

text \<open>
  The wiring of \<open>cmd/hermesmanager/main.go\<close>: what a start does to the world and what it ends
  with. What lies outside (the file system, the YAML parsers, the pool's construction, the
  cluster's credentials, the order of map ranges, the linked-in assets) is a record of
  parameters.
\<close>

record platform =
  pl_fs :: file_system
  pl_PolicyYAML :: "bytes \<Rightarrow> policy_file result"
  pl_ParseConfig :: "string \<Rightarrow> error option"
  pl_Connect :: "pool_config \<Rightarrow> error option"
  pl_InCluster :: "cluster in_cluster"
  pl_Marshal :: "task_json \<Rightarrow> error option"
  pl_registry_order :: "system registry \<Rightarrow> system registry"
  pl_name_order :: "(string \<times> system runtime) list \<Rightarrow> (string \<times> system runtime) list"
  pl_assets :: assets
  pl_codec :: codec

record flags =
  fl_version :: bool
  fl_help :: bool

text \<open>How a start ends: a printed text, a fatal error (the process exits), or a handler.\<close>

datatype 'w started =
  PrintVersion
| PrintHelp
| Fatal string error
| Serving string "'w handler" "'w server option"

definition policy_from :: "platform \<Rightarrow> string \<Rightarrow> engine option result" where
  "policy_from pl policyFile =
     (if policyFile = [] then Inr None
      else map_sum id Some (NewEngine (fs_ReadFile (pl_fs pl)) (pl_PolicyYAML pl) policyFile))"

text \<open>The seeding of skills, whose errors are only logged.\<close>

definition seed_skills :: "platform \<Rightarrow> system \<Rightarrow> system" where
  "seed_skills pl w =
     (let skillsDir = envOr (w_host w) ''HERMESMANAGER_SKILLS_DIR'' ''/etc/hermesmanager/skills'' in
      if fs_Exists (pl_fs pl) skillsDir
      then snd (LoadFromDir (pl_fs pl) sys_store skillsDir w) else w)"

definition start_server :: "platform \<Rightarrow> string \<Rightarrow> string \<Rightarrow> system \<Rightarrow> system started \<times> system" where
  "start_server pl dbURL policyFile w =
     (case on_part sy_pg put_pg
             (pg_New (pl_ParseConfig pl) (pl_Connect pl) (w_host w) dbURL) w of
        (Inl err, w1) \<Rightarrow> (Fatal ''postgres connection failed'' err, w1)
      | (Inr _, w1) \<Rightarrow>
          (case Migrate sys_store w1 of
             (Some err, w2) \<Rightarrow> (Fatal ''migration failed'' err, w2)
           | (None, w2) \<Rightarrow>
               (let w3 = seed_skills pl w2 in
                case policy_from pl policyFile of
                  Inl err \<Rightarrow> (Fatal ''policy load failed'' err, w3)
                | Inr pol \<Rightarrow>
                    (case Build (pl_registry_order pl) (w_host w3)
                            (drivers (pl_Marshal pl) (pl_InCluster pl)) of
                       Inl err \<Rightarrow> (Fatal ''runtime build failed'' err, w3)
                     | Inr runtimes \<Rightarrow>
                         (let srv = sys_server (pl_name_order pl) runtimes pol in
                          (Serving (envOr (w_host w3) ''HERMESMANAGER_PORT'' ''8080'')
                             (Server_Handler (w_host w3) (pl_assets pl) (pl_codec pl) srv) (Some srv),
                           w3))))))"

definition main :: "flags \<Rightarrow> platform \<Rightarrow> system \<Rightarrow> system started \<times> system" where
  "main fl pl w =
     (if fl_version fl then (PrintVersion, w)
      else if fl_help fl then (PrintHelp, w)
      else
        let port = envOr (w_host w) ''HERMESMANAGER_PORT'' ''8080'';
            dbURL = envOr (w_host w) ''DATABASE_URL'' [];
            policyFile = envOr (w_host w) ''HERMESMANAGER_POLICY_FILE'' []
        in if dbURL \<noteq> [] then start_server pl dbURL policyFile w
           else (Serving port (NewRouter (pl_assets pl)) None, w))"

text \<open>The end after a signal: a failing shutdown is fatal and skips the deferred close.\<close>

definition main_stop :: "error option \<Rightarrow> 'w server option \<Rightarrow> 'w \<Rightarrow> error option \<times> 'w" where
  "main_stop shutdown srv w =
     (case shutdown of
        Some err \<Rightarrow> (Some err, w)
      | None \<Rightarrow>
          (case srv of
             None \<Rightarrow> (None, w)
           | Some s \<Rightarrow> (None, snd (Close (sv_store s) w))))"

subsection \<open>Interfaces\<close>

interpretation seeding: world_store sys_store sys_view sys_wf sys_up
  by (intro world_store.intro sys.live_store_axioms world_store_axioms.intro sys_host_free)

subsection \<open>What a start keeps\<close>

text \<open>The database answers, and its schema is there.\<close>

definition migrated :: "system \<Rightarrow> bool" where
  "migrated w \<longleftrightarrow> pg_fault (sy_pg w) = (\<lambda>n. None) \<and> (\<exists>rels. run_ddl up_sql rels = Inr (pg_relations (sy_pg w)))"

lemma migrated_schema: "schema_part (sy_pg w') = schema_part (sy_pg w) \<Longrightarrow> migrated w' = migrated w"
  by (simp add: migrated_def schema_part_def)

lemma upsert_migrated:
  assumes "migrated w" and "UpsertSkill sys_store sk w = (e, w')"
  shows "migrated w'"
proof -
  from assms(2) obtain d where w': "w' = w\<lparr>sy_pg := d\<rparr>" and u: "pg_UpsertSkill sk (sy_pg w) = (e, d)"
    by (auto simp: sys_store_def store_on_part_def on_part_pair put_pg_def pg_store_def)
  from u have "schema_part d = schema_part (sy_pg w)"
    using store_keepsD(1) [OF pg_keeps_schema] by (simp add: pg_store_def)
  with assms(1) migrated_schema [of w' w] w' show ?thesis by simp
qed

lemma seed_migrated: "migrated w \<Longrightarrow> migrated (seed_skills pl w)"
proof -
  assume m: "migrated w"
  have host: "migrated (v\<lparr>w_host := h\<rparr>)" if "migrated v" for v h
    using that by (simp add: migrated_def)
  obtain r w' where run: "LoadFromDir (pl_fs pl) sys_store (envOr (w_host w) ''HERMESMANAGER_SKILLS_DIR'' ''/etc/hermesmanager/skills'') w = (r, w')"
    by (metis prod.exhaust)
  have "migrated w'"
    by (rule LoadFromDir_inv [where P = migrated, OF _ _ m run]) (fact host, fact upsert_migrated)
  with run m show ?thesis by (simp add: seed_skills_def Let_def)
qed

text \<open>A start that serves has run the migration.\<close>

lemma pg_New_fault:
  assumes "pg_New pc co h dsn d = (r, d')"
  shows "schema_part d' = schema_part d"
proof -
  obtain e d1 where ping: "pg_Ping (d\<lparr>pg_closed := False\<rparr>) = (e, d1)" by (metis prod.exhaust)
  have "schema_part d1 = schema_part (d\<lparr>pg_closed := False\<rparr>)"
    using ping unfolding pg_Ping_def
    by (rule pg_Exec_err_keeps [OF _ schema_part_ticks, rotated]) simp
  then have "schema_part d1 = schema_part d" by (simp add: schema_part_def)
  with assms ping show ?thesis
    by (auto simp: pg_New_def pg_Close_def schema_part_def split: option.splits)
qed

lemma migrate_run:
  assumes "pg_Migrate d = (None, d')" and "pg_fault d = (\<lambda>n. None)"
  shows "pg_fault d' = (\<lambda>n. None) \<and> run_ddl up_sql (pg_relations d) = Inr (pg_relations d')"
proof -
  obtain k where "pg_Exec (migrate_stmt up_sql) d = (Inr k, d')"
    using assms(1) by (auto simp: pg_Migrate_def split: prod.splits sum.splits)
  with assms(2) show ?thesis
    by (auto simp: pg_Exec_def migrate_stmt_def Let_def split: if_splits sum.splits)
qed

lemma start_migrated:
  assumes "pg_fault (sy_pg w) = (\<lambda>n. None)" and "start_server pl url pf w = (Serving port h so, w')"
  shows "migrated w'"
proof -
  obtain r w1 where n: "on_part sy_pg put_pg (pg_New (pl_ParseConfig pl) (pl_Connect pl) (w_host w) url) w = (r, w1)"
    by (metis prod.exhaust)
  obtain e w2 where m: "Migrate sys_store w1 = (e, w2)" by (metis prod.exhaust)
  from n assms(2) obtain u where r: "r = Inr u" by (cases r) (simp_all add: start_server_def)
  from m n r assms(2) have e: "e = None" by (cases e) (simp_all add: start_server_def)
  from m n r e assms(2) have w': "w' = seed_skills pl w2"
    by (auto simp: start_server_def Let_def split: sum.splits)
  from n have f1: "pg_fault (sy_pg w1) = (\<lambda>n. None)"
    using assms(1) by (auto simp: on_part_pair put_pg_def schema_part_def dest!: pg_New_fault)
  from m e obtain d where w2: "w2 = w1\<lparr>sy_pg := d\<rparr>" and pm: "pg_Migrate (sy_pg w1) = (None, d)"
    by (auto simp: sys_store_def store_on_part_def on_part_pair put_pg_def pg_store_def)
  from migrate_run [OF pm f1] have "migrated w2" by (auto simp: migrated_def w2)
  then show ?thesis unfolding w' by (rule seed_migrated)
qed

text \<open>No request changes the schema.\<close>

lemma service_run_migrated:
  assumes "wired s" and "(service_step h x c s)\<^sup>*\<^sup>* w w'" and "sys_wf w" and "migrated w"
  shows "migrated w'"
proof -
  let ?P = "\<lambda>d. pg_wf d \<and> schema_part d = schema_part (sy_pg w)"
  note svc = wired_invariant [OF assms(1) pg.strengthen_live [OF pg_keeps_schema]]
  from assms(2) have "?P (sy_pg w')"
  proof (induction rule: rtranclp_induct)
    case base
    with assms(3) show ?case by (simp add: sys_wf_def)
  next
    case (step y z)
    from step(2) show ?case
    proof (cases rule: service_step.cases)
      case (request r resp)
      from task_service.Handler_keeps [OF svc request] step(3) show ?thesis by blast
    next
      case around
      with step(3) show ?thesis by simp
    qed
  qed
  with migrated_schema [of w' w] assms(4) show ?thesis by simp
qed

lemma start_again:
  assumes "migrated w"
  shows "\<exists>why e w'. start_server pl url pf w = (Fatal why e, w') \<and>
    (why = ''postgres connection failed'' \<or> why = ''migration failed'')"
proof -
  obtain r w1 where n: "on_part sy_pg put_pg (pg_New (pl_ParseConfig pl) (pl_Connect pl) (w_host w) url) w = (r, w1)"
    by (metis prod.exhaust)
  show ?thesis
  proof (cases r)
    case (Inl e)
    with n show ?thesis by (simp add: start_server_def)
  next
    case (Inr u)
    with n have f1: "pg_fault (sy_pg w1) = (\<lambda>n. None)" "pg_relations (sy_pg w1) = pg_relations (sy_pg w)"
      using assms by (auto simp: on_part_pair put_pg_def schema_part_def migrated_def dest!: pg_New_fault)
    from assms up_sql_again have "run_ddl up_sql (pg_relations (sy_pg w1)) = Inl (duplicate_relation ''idx_tasks_state'')"
      by (auto simp: migrated_def f1)
    then have "\<exists>e d. pg_Migrate (sy_pg w1) = (Some e, d)"
      using f1 by (simp add: pg_Migrate_def pg_Exec_def migrate_stmt_def Let_def)
    then have "\<exists>e w2. Migrate sys_store w1 = (Some e, w2)"
      by (auto simp: sys_store_def store_on_part_def on_part_pair put_pg_def pg_store_def)
    with n Inr show ?thesis by (auto simp: start_server_def)
  qed
qed

text \<open>A start keeps the database well formed.\<close>

lemma seed_wf: "sys_wf w \<Longrightarrow> sys_wf (seed_skills pl w)"
proof -
  assume m: "sys_wf w"
  have host: "sys_wf (v\<lparr>w_host := h\<rparr>)" if "sys_wf v" for v h using that by simp
  have ups: "sys_wf w'" if "sys_wf w" "UpsertSkill sys_store sk w = (e, w')" for sk w e w'
    using sys.upsert_skill [OF that] by simp
  obtain r w' where run: "LoadFromDir (pl_fs pl) sys_store (envOr (w_host w) ''HERMESMANAGER_SKILLS_DIR'' ''/etc/hermesmanager/skills'') w = (r, w')"
    by (metis prod.exhaust)
  have "sys_wf w'"
    by (rule LoadFromDir_inv [where P = sys_wf, OF _ _ m run]) (fact host, fact ups)
  with run m show ?thesis by (simp add: seed_skills_def Let_def)
qed

lemma pg_New_wf: "pg_wf d \<Longrightarrow> pg_New pc co h dsn d = (r, d') \<Longrightarrow> pg_wf d'"
proof -
  assume wf: "pg_wf d" and new: "pg_New pc co h dsn d = (r, d')"
  obtain e d1 where ping: "Ping pg_store (d\<lparr>pg_closed := False\<rparr>) = (e, d1)" by (metis prod.exhaust)
  have "pg_wf d1" using pg.ping [OF _ ping] wf pg_Close_wf by simp
  then show ?thesis using new wf ping
    by (auto simp: pg_New_def pg_Close_def pg_Close_wf pg_store_def split: option.splits)
qed

lemma start_wf:
  assumes "sys_wf w" and "start_server pl url pf w = (st, w')"
  shows "sys_wf w'"
proof -
  obtain r w1 where n: "on_part sy_pg put_pg (pg_New (pl_ParseConfig pl) (pl_Connect pl) (w_host w) url) w = (r, w1)"
    by (metis prod.exhaust)
  with assms(1) have w1: "sys_wf w1"
    by (auto simp: on_part_pair put_pg_def sys_wf_def intro: pg_New_wf)
  obtain e w2 where m: "Migrate sys_store w1 = (e, w2)" by (metis prod.exhaust)
  then obtain d where "w2 = w1\<lparr>sy_pg := d\<rparr>" and "pg_Migrate (sy_pg w1) = (e, d)"
    by (auto simp: sys_store_def store_on_part_def on_part_pair put_pg_def pg_store_def)
  with w1 pg_Migrate_wf have w2: "sys_wf w2" by (auto simp: sys_wf_def)
  have "w' = w1 \<or> w' = w2 \<or> w' = seed_skills pl w2"
    using assms(2) n m by (auto simp: start_server_def Let_def split: sum.splits option.splits)
  with w1 w2 seed_wf show ?thesis by blast
qed

text \<open>The server of a start is one of the wired servers.\<close>

lemma start_wired: "start_server pl url pf w = (Serving port h (Some s), w') \<Longrightarrow> wired s"
proof -
  assume st: "start_server pl url pf w = (Serving port h (Some s), w')"
  obtain r w1 where n: "on_part sy_pg put_pg (pg_New (pl_ParseConfig pl) (pl_Connect pl) (w_host w) url) w = (r, w1)"
    by (metis prod.exhaust)
  obtain e w2 where m: "Migrate sys_store w1 = (e, w2)" by (metis prod.exhaust)
  let ?b = "Build (pl_registry_order pl) (w_host (seed_skills pl w2)) (drivers (pl_Marshal pl) (pl_InCluster pl))"
  from st n m have "\<exists>rts pol. ?b = Inr rts \<and> s = sys_server (pl_name_order pl) rts pol"
    by (cases r; cases e; cases "policy_from pl pf"; cases ?b) (auto simp: start_server_def Let_def)
  then obtain rts pol where b: "?b = Inr rts" and s: "s = sys_server (pl_name_order pl) rts pol" by blast
  from b have "rts = sys_runtimes (pl_registry_order pl) (w_host (seed_skills pl w2)) (drivers (pl_Marshal pl) (pl_InCluster pl))"
    by (simp add: sys_runtimes_def)
  with s show "wired s" unfolding wired_def by blast
qed

text \<open>Nothing stops a start on an empty database that answers, in a cluster.\<close>

lemma pg_New_ok:
  assumes "pc dsn = None" and "\<And>c. co c = None" and "pg_fault d = (\<lambda>n. None)"
  shows "\<exists>d'. pg_New pc co h dsn d = (Inr (), d') \<and> \<not> pg_closed d'"
  using assms by (auto simp: pg_New_def pg_Ping_def pg_Exec_err_def pg_Exec_def Let_def)

lemma Build_in_cluster: "\<exists>rts. Build ord h (drivers marshal (InCluster c)) = Inr rts"
proof (cases "Build ord h (drivers marshal (InCluster c))")
  case (Inl e)
  then have "list_ex (\<lambda>(n, f). \<not> result_ok (f h)) (drivers marshal (InCluster c))"
    using build_loop_fails [of h "scan_rows ord (drivers marshal (InCluster c))" "[]"] by (auto simp: Build_def)
  then show ?thesis
    by (auto simp: drivers_def docker_factory_def local_factory_def k8s_factory_def k8s_New_def Let_def
        split: option.splits)
qed simp

lemma migrate_fresh:
  assumes "pg_fault d = (\<lambda>n. None)" and "pg_relations d = []" and "\<not> pg_closed d"
  shows "\<exists>d'. pg_Migrate d = (None, d')"
  using assms by (simp add: pg_Migrate_def pg_Exec_def migrate_stmt_def up_sql_def Let_def)

lemma start_fresh:
  assumes "pl_ParseConfig pl url = None" and "\<And>c. pl_Connect pl c = None"
    and "pg_fault (sy_pg w) = (\<lambda>n. None)" and "pg_relations (sy_pg w) = []"
    and "pl_InCluster pl = InCluster k" and "policy_from pl pf = Inr pol"
  shows "\<exists>port hdl s w'. start_server pl url pf w = (Serving port hdl (Some s), w') \<and> sv_policy s = pol"
proof -
  from pg_New_ok [where pc = "pl_ParseConfig pl" and dsn = url and co = "pl_Connect pl", OF assms(1,2,3)] obtain d1
    where p: "pg_New (pl_ParseConfig pl) (pl_Connect pl) (w_host w) url (sy_pg w) = (Inr (), d1)"
      and up: "\<not> pg_closed d1" by blast
  then have n: "on_part sy_pg put_pg (pg_New (pl_ParseConfig pl) (pl_Connect pl) (w_host w) url) w = (Inr (), w\<lparr>sy_pg := d1\<rparr>)"
    by (auto simp: on_part_pair put_pg_def)
  from pg_New_fault [OF p] assms(3,4) have "pg_fault d1 = (\<lambda>n. None)" "pg_relations d1 = []"
    by (simp_all add: schema_part_def)
  from migrate_fresh [OF this up] obtain d2 where "pg_Migrate d1 = (None, d2)" by blast
  then have "Migrate sys_store (w\<lparr>sy_pg := d1\<rparr>) = (None, w\<lparr>sy_pg := d2\<rparr>)"
    by (auto simp: sys_store_def store_on_part_def on_part_pair put_pg_def pg_store_def)
  moreover obtain rts where "Build (pl_registry_order pl) (w_host (seed_skills pl (w\<lparr>sy_pg := d2\<rparr>)))
      (drivers (pl_Marshal pl) (pl_InCluster pl)) = Inr rts"
    using Build_in_cluster assms(5) by metis
  ultimately show ?thesis using n assms(6) by (simp add: start_server_def Let_def)
qed

subsection \<open>The stub router\<close>

lemma stub_mux_world: "snd (stub_mux x r w) = w"
  by (cases "mux_route r")
    (simp_all add: stub_mux_def handleHealthz_def handleReadyzStub_def stub_def spaHandler_def Let_def)

lemma stub_mux_status:
  "mux_route r \<notin> {Healthz, Readyz, SpaRoute, Redirect, MethodNotAllowed} \<Longrightarrow>
     rs_Status (fst (stub_mux x r w)) = StatusNotImplemented"
  by (cases "mux_route r") (simp_all add: stub_mux_def stub_def writeError_def writeJSON_def)

lemma NewRouter_run:
  fixes w :: "'x world_scheme"
  shows "\<exists>h (w0 :: 'x world_scheme). snd (NewRouter x r w) = w\<lparr>w_host := h\<rparr> \<and>
     rs_Status (fst (NewRouter x r w)) =
       rs_Status (fst (stub_mux x (r\<lparr>rq_Body := MaxBytesReader maxBodySize (rq_Body r)\<rparr>) w0))"
proof -
  obtain i wa where a: "(if rq_Header r ''X-Request-ID'' = [] then with_host (as_uuid x) w
      else (rq_Header r ''X-Request-ID'', w)) = (i, wa)" by (metis prod.exhaust)
  obtain ha where wa: "wa = w\<lparr>w_host := ha\<rparr>"
    using a by (auto simp: with_host_pair split: if_splits intro: that [of "w_host w"])
  obtain start w0 where b: "with_host Now wa = (start, w0)" by (metis prod.exhaust)
  obtain resp0 where c: "stub_mux x (r\<lparr>rq_Body := MaxBytesReader maxBodySize (rq_Body r)\<rparr>) w0 = (resp0, w0)"
    using stub_mux_world by (metis prod.collapse)
  obtain stop w2 where d: "with_host Now w0 = (stop, w2)" by (metis prod.exhaust)
  obtain u w3 where e: "with_host (log_access (rq_Method r, url_Path r, rs_Status resp0, stop - start)) w2 = (u, w3)"
    by (metis prod.exhaust)
  have "NewRouter x r w = (resp0\<lparr>rs_RequestID := Some i\<rparr>, w3)"
    using a b c d e
    by (simp add: NewRouter_def wrapMiddleware_def RequestIDMiddleware_def LoggingMiddleware_def limitBody_def)
  moreover obtain h3 where "w3 = w\<lparr>w_host := h3\<rparr>" using b d e wa by (auto simp: with_host_pair)
  ultimately show ?thesis using c by (intro exI [of _ h3] exI [of _ w0]) simp
qed

subsection \<open>A concrete platform\<close>

text \<open>No files, a database that connects, no cluster around the binary.\<close>

definition ex_platform :: platform where
  "ex_platform =
     \<lparr>pl_fs = \<lparr>fs_ReadDir = (\<lambda>d. Inl (NewError ''ENOENT'')), fs_ReadFile = (\<lambda>p. Inl (NewError ''ENOENT'')),
              fs_Exists = (\<lambda>p. False), fs_SkillYAML = (\<lambda>b. Inl (NewError ''yaml''))\<rparr>,
      pl_PolicyYAML = (\<lambda>b. Inr \<lparr>pf_Rules = []\<rparr>), pl_ParseConfig = (\<lambda>s. None), pl_Connect = (\<lambda>c. None),
      pl_InCluster = InCluster cluster_client, pl_Marshal = (\<lambda>j. None), pl_registry_order = id,
      pl_name_order = id, pl_assets = ex_assets, pl_codec = ex_codec ''task.started''\<rparr>"

definition ex_outside :: platform where
  "ex_outside = ex_platform\<lparr>pl_InCluster := NotInCluster (NewError ''not in cluster'')\<rparr>"

definition ex_fresh :: system where
  "ex_fresh = ex_system\<lparr>sy_pg := ex_pg\<rparr>"

definition ex_configured :: system where
  "ex_configured = ex_fresh\<lparr>w_host := ex_host\<lparr>h_env := (\<lambda>k. if k = ''DATABASE_URL'' then ''postgres://db'' else [])\<rparr>\<rparr>"

lemma ex_build: "Build id ex_host (drivers (\<lambda>j. None) (InCluster cluster_client)) = Inr ex_runtimes"
  by (simp add: ex_runtimes_def sys_runtimes_def Build_def scan_rows_def drivers_def docker_factory_def
      k8s_factory_def k8s_New_def local_factory_def envOr_def Getenv_def ex_host_def Let_def)

lemma ex_started:
  "\<exists>port hdl w. start_server ex_platform ''postgres://db'' [] ex_fresh = (Serving port hdl (Some (ex_server None)), w)"
  by (simp add: start_server_def ex_fresh_def ex_platform_def pg_New_def pg_Ping_def pg_Migrate_def pg_Exec_err_def
      pg_Exec_def migrate_stmt_def up_sql_def on_part_def put_pg_def sys_store_def store_on_part_def pg_store_def
      ex_system_def ex_pg_def seed_skills_def policy_from_def Let_def ex_server_def ex_build)

text \<open>A directory with one skill file and a file that is none.\<close>

definition ex_fs :: file_system where
  "ex_fs =
     \<lparr>fs_ReadDir = (\<lambda>d. Inr [\<lparr>de_Name = ''README.md'', de_IsDir = False\<rparr>, \<lparr>de_Name = ''a.yaml'', de_IsDir = False\<rparr>]),
      fs_ReadFile = (\<lambda>p. Inr []), fs_Exists = (\<lambda>p. True),
      fs_SkillYAML = (\<lambda>b. Inr \<lparr>sf_APIVersion = [], sf_Kind = ''Skill'', sf_Name = ''echo'', sf_Version = ''2'',
        sf_Description = [], sf_Entrypoint = ''echo.py'', sf_Parameters = Some [], sf_RequiredTools = Some [],
        sf_RequiredModels = Some []\<rparr>)\<rparr>"

lemma ex_seeded: "\<exists>w'. LoadFromDir ex_fs sys_store ''/skills'' ex_system = ((1, None), w')"
  by (simp add: LoadFromDir_def ex_fs_def is_skill_entry_def path_Ext_def ToLower_def lower_char_def load_file_def parseSkillFile_def
      path_Join_def with_host_def Now_def Let_def ex_store_simps ex_state_simps pg_UpsertSkill_def upsert_skill_stmt_def
      sent_null_array_def upsert_by_def)

end
