(* ===== verification/Threads.thy ===== *)
theory Threads
  imports Api_Laws
begin

text \<open>
  The request handlers as threads. Go serves every request in a goroutine of its own, so
  the calls of different requests to the store, the runtimes and the process interleave.
  Here each of the two writing handlers is a state machine whose state is the place in its
  code with the local variables that are live there, and whose step is one such call. Run
  alone, the machines are the handlers of \<open>Task_Service\<close> and \<open>Api\<close>.
\<close>

subsection \<open>The creation pipeline\<close>

text \<open>The places of \<open>Server.CreateTask\<close> and, within it, \<open>Scheduler.Dispatch\<close>.\<close>

datatype create_pc =
  CLookup create_task_request
| CIdentify create_task_request skill
| CStamp create_task_request skill string
| CInsert task skill
| CDraw task skill
| CStoreToken task skill string
| CLaunch task skill create_task_result
| CMarkRunning string create_task_result handle
| CMarkFailed string error
| CWithdraw string error
| CDone "create_task_result result"

definition first_result :: "task \<Rightarrow> string \<Rightarrow> create_task_result" where
  "first_result t tok = \<lparr>res_TaskID = t_ID t, res_Runtime = t_Runtime t, res_ExternalID = [], res_Token = tok\<rparr>"

definition launch_failed :: "string \<Rightarrow> error \<Rightarrow> create_pc" where
  "launch_failed i err = CMarkFailed i (Errorf ''dispatch failed (task rolled back): '' err [])"

fun create_step :: "'x world_scheme server \<Rightarrow> create_pc \<Rightarrow> 'x world_scheme \<Rightarrow> create_pc \<times> 'x world_scheme" where
  "create_step s (CLookup req) w =
     (case GetSkill (sv_store s) (ctr_SkillName req) w of
        (Inl err, w1) \<Rightarrow> (CDone (Inl (Errorf ''failed to lookup skill: '' err [])), w1)
      | (Inr None, w1) \<Rightarrow> (CDone (Inl (skill_not_found (ctr_SkillName req))), w1)
      | (Inr (Some sk), w1) \<Rightarrow>
          (case policy_check (sv_policy s) req sk of
             Some err \<Rightarrow> (CDone (Inl err), w1)
           | None \<Rightarrow> (CIdentify req sk, w1)))"
| "create_step s (CIdentify req sk) w = (let (i, w1) = generateID ''task'' w in (CStamp req sk i, w1))"
| "create_step s (CStamp req sk i) w = (let (now, w1) = with_host Now w in (CInsert (new_task req sk i now) sk, w1))"
| "create_step s (CInsert t sk) w =
     (case CreateTask (sv_store s) t w of
        (Some err, w1) \<Rightarrow> (CDone (Inl (Errorf ''failed to create task: '' err [])), w1)
      | (None, w1) \<Rightarrow> (CDraw t sk, w1))"
| "create_step s (CDraw t sk) w =
     (case with_host (rand_Read 32) w of
        ((_, Some err), w1) \<Rightarrow> (CDone (Inl (Errorf ''failed to generate token: '' err [])), w1)
      | ((tokenBytes, None), w1) \<Rightarrow> (CStoreToken t sk (EncodeToString tokenBytes), w1))"
| "create_step s (CStoreToken t sk tok) w =
     (case StoreAgentToken (sv_store s) (t_ID t) (Sum256 tok) w of
        (Some err, w1) \<Rightarrow> (CDone (Inl (Errorf ''failed to store agent token: '' err [])), w1)
      | (None, w1) \<Rightarrow> (CLaunch t sk (first_result t tok), w1))"
| "create_step s (CLaunch t sk res) w =
     (case sv_scheduler s of
        None \<Rightarrow> (CDone (Inr res), w)
      | Some sched \<Rightarrow>
          (case map_of (sc_runtimes sched) (t_Runtime t) of
             None \<Rightarrow> (launch_failed (t_ID t) (runtime_not_found (t_Runtime t)), w)
           | Some rt \<Rightarrow>
               (case rt_Dispatch rt t sk w of
                  (Inl err, w1) \<Rightarrow>
                    (launch_failed (t_ID t)
                       (Errorf (''scheduler: dispatch on '' @ quote (t_Runtime t) @ '': '') err []), w1)
                | (Inr hdl, w1) \<Rightarrow> (CMarkRunning (t_ID t) res hdl, w1))))"
| "create_step s (CMarkRunning i res hdl) w =
     (case sv_scheduler s of
        None \<Rightarrow> (CDone (Inr res), w)
      | Some sched \<Rightarrow>
          (case UpdateTaskState (sc_store sched) i TaskStateRunning w of
             (Some err, w1) \<Rightarrow> (launch_failed i (Errorf ''scheduler: update task state: '' err []), w1)
           | (None, w1) \<Rightarrow>
               (CDone (Inr (res\<lparr>res_ExternalID := hd_ExternalID hdl, res_Runtime := hd_RuntimeName hdl\<rparr>)), w1)))"
| "create_step s (CMarkFailed i err) w =
     (let (_, w1) = UpdateTaskState (sv_store s) i TaskStateFailed w in (CWithdraw i err, w1))"
| "create_step s (CWithdraw i err) w =
     (let (_, w1) = RevokeAgentToken (sv_store s) i w in (CDone (Inl err), w1))"
| "create_step s (CDone r) w = (CDone r, w)"

subsection \<open>The event endpoint\<close>

text \<open>The places of \<open>handleCreateEvent\<close>; the token's hash is the local variable \<open>tokenHash\<close>.\<close>

datatype event_pc =
  EVerify create_event_request bytes
| EIdentify create_event_request bytes
| EStamp create_event_request bytes string
| EAppend event bytes
| EUpdate event bytes string bool
| ERevoke event bytes
| EDone http_response

definition event_accepted :: "event \<Rightarrow> event_pc" where
  "event_accepted e = EDone (writeJSON StatusCreated (BObject [(''id'', e_ID e)]))"

text \<open>What the handler does before its first call.\<close>

definition event_start :: "codec \<Rightarrow> http_request \<Rightarrow> event_pc" where
  "event_start c r =
     (let token = rq_Header r ''Authorization'' in
      if length token < 8 \<or> take 7 token \<noteq> ''Bearer ''
      then EDone (writeError StatusUnauthorized ''missing or invalid Authorization header'')
      else
        case cd_event c (rq_Body r) of
          Inl err \<Rightarrow> EDone (writeError StatusBadRequest (''invalid request body: '' @ Error_text err))
        | Inr req \<Rightarrow>
            if cer_TaskID req = [] then EDone (writeError StatusBadRequest ''task_id is required'')
            else EVerify req (Sum256 (drop 7 token)))"

fun event_step :: "'x world_scheme server \<Rightarrow> event_pc \<Rightarrow> 'x world_scheme \<Rightarrow> event_pc \<times> 'x world_scheme" where
  "event_step s (EVerify req hash) w =
     (case VerifyAgentToken (sv_store s) (cer_TaskID req) hash w of
        (Inl err, w1) \<Rightarrow>
          (EDone (writeError StatusInternalServerError (''token verification failed: '' @ Error_text err)), w1)
      | (Inr valid, w1) \<Rightarrow>
          if \<not> valid then (EDone (writeError StatusUnauthorized ''invalid or revoked agent token''), w1)
          else (EIdentify req hash, w1))"
| "event_step s (EIdentify req hash) w =
     (let (i, w1) = (if cer_ID req = [] then generateID ''evt'' w else (cer_ID req, w)) in (EStamp req hash i, w1))"
| "event_step s (EStamp req hash i) w =
     (let (now, w1) = with_host Now w in
      (EAppend \<lparr>e_ID = i, e_TaskID = cer_TaskID req, e_Type = cer_Type req,
                e_Payload = cer_Payload req, e_CreatedAt = now\<rparr> hash, w1))"
| "event_step s (EAppend e hash) w =
     (case AppendEvent (sv_store s) e w of
        (Some err, w1) \<Rightarrow>
          (EDone (writeError StatusInternalServerError (''failed to store event: '' @ Error_text err)), w1)
      | (None, w1) \<Rightarrow>
          (case event_transition (e_Type e) of
             None \<Rightarrow> (event_accepted e, w1)
           | Some (state, terminal) \<Rightarrow> (EUpdate e hash state terminal, w1)))"
| "event_step s (EUpdate e hash state terminal) w =
     (case UpdateTaskState (sv_store s) (e_TaskID e) state w of
        (Some err, w1) \<Rightarrow>
          (EDone (writeError StatusInternalServerError
             (if terminal then ''failed to finalize task state'' else ''failed to update task state'')), w1)
      | (None, w1) \<Rightarrow> (if terminal then ERevoke e hash else event_accepted e, w1))"
| "event_step s (ERevoke e hash) w =
     (let (_, w1) = RevokeAgentToken (sv_store s) (e_TaskID e) w in (event_accepted e, w1))"
| "event_step s (EDone resp) w = (EDone resp, w)"

subsection \<open>Alone, the machines are the handlers\<close>

text \<open>So many steps of a machine.\<close>

primrec iterate :: "nat \<Rightarrow> ('p \<Rightarrow> 'w \<Rightarrow> 'p \<times> 'w) \<Rightarrow> 'p \<Rightarrow> 'w \<Rightarrow> 'p \<times> 'w" where
  "iterate 0 f p w = (p, w)"
| "iterate (Suc n) f p w = (let (p1, w1) = f p w in iterate n f p1 w1)"

lemma event_accepted_stays [simp]: "event_step s (event_accepted e) w = (event_accepted e, w)"
  by (simp add: event_accepted_def)

lemma iterate_done [simp]:
  "iterate n (create_step s) (CDone r) w = (CDone r, w)"
  "iterate n (event_step s) (EDone resp) w = (EDone resp, w)"
  "iterate n (event_step s) (event_accepted e) w = (event_accepted e, w)"
  by (induction n) (simp_all add: event_accepted_def)

lemma iterate_launch:
  assumes "\<And>sched. sv_scheduler s = Some sched \<Longrightarrow> sc_store sched = sv_store s"
  shows "iterate 4 (create_step s) (CLaunch t sk res) w =
     (let (r, w1) = dispatch_created s t sk res w in (CDone r, w1))"
proof (cases "sv_scheduler s")
  case None
  then show ?thesis by (simp add: numeral_eq_Suc dispatch_created_def)
next
  case (Some sched)
  note store = assms [OF Some]
  show ?thesis
  proof (cases "map_of (sc_runtimes sched) (t_Runtime t)")
    case None
    with Some show ?thesis
      by (simp add: numeral_eq_Suc dispatch_created_def Dispatch_def launch_failed_def rollback_def split_beta)
  next
    case rt: (Some rt)
    obtain r w1 where d: "rt_Dispatch rt t sk w = (r, w1)" by (metis prod.exhaust)
    obtain e w2 where u: "UpdateTaskState (sv_store s) (t_ID t) TaskStateRunning w1 = (e, w2)" by (metis prod.exhaust)
    from Some rt d u store show ?thesis
      by (cases r; cases e)
        (simp_all add: numeral_eq_Suc dispatch_created_def Dispatch_def launch_failed_def rollback_def split_beta)
  qed
qed

lemma iterate_create:
  assumes "\<And>sched. sv_scheduler s = Some sched \<Longrightarrow> sc_store sched = sv_store s"
  shows "iterate 10 (create_step s) (CLookup req) w =
     (let (r, w1) = Server_CreateTask s req w in (CDone r, w1))"
proof -
  obtain g w1 where g: "GetSkill (sv_store s) (ctr_SkillName req) w = (g, w1)" by (metis prod.exhaust)
  have ten: "iterate 10 f p v = (let (p1, v1) = f p v in iterate 9 f p1 v1)" for f and p :: create_pc and v
    by (simp add: eval_nat_numeral)
  show ?thesis
  proof (cases "\<exists>sk. g = Inr (Some sk) \<and> policy_check (sv_policy s) req sk = None")
    case False
    with g show ?thesis
      by (auto simp: ten Server_CreateTask_def split: sum.splits option.splits)
  next
    case True
    then obtain sk where sk: "g = Inr (Some sk)" "policy_check (sv_policy s) req sk = None" by blast
    obtain i w2 where gen: "generateID ''task'' w1 = (i, w2)" by (metis prod.exhaust)
    obtain now w3 where clock: "with_host Now w2 = (now, w3)" by (metis prod.exhaust)
    define t where "t = new_task req sk i now"
    have i: "t_ID t = i" by (simp add: t_def)
    obtain e w4 where c: "CreateTask (sv_store s) t w3 = (e, w4)" by (metis prod.exhaust)
    obtain bs e2 w5 where d: "with_host (rand_Read 32) w4 = ((bs, e2), w5)" by (metis prod.exhaust)
    obtain e3 w6 where st: "StoreAgentToken (sv_store s) i (Sum256 (EncodeToString bs)) w5 = (e3, w6)" by (metis prod.exhaust)
    have six: "iterate 9 f p v =
      (let (p1, v1) = f p v; (p2, v2) = f p1 v1; (p3, v3) = f p2 v2; (p4, v4) = f p3 v3; (p5, v5) = f p4 v4
       in iterate 4 f p5 v5)" for f and p :: create_pc and v
      by (simp add: eval_nat_numeral split_beta)
    from g sk gen clock c d st i show ?thesis
      by (cases e; cases e2; cases e3)
        (simp_all add: ten six Server_CreateTask_def issue_token_def t_def [symmetric] Let_def
          iterate_launch [OF assms] first_result_def del: iterate.simps)
  qed
qed

lemma iterate_append:
  "iterate 3 (event_step s) (EAppend e hash) w =
     (case AppendEvent (sv_store s) e w of
        (Some err, w1) \<Rightarrow>
          (EDone (writeError StatusInternalServerError (''failed to store event: '' @ Error_text err)), w1)
      | (None, w1) \<Rightarrow>
          (case finalize_event (sv_store s) (e_TaskID e) (e_Type e) w1 of
             (Some resp, w2) \<Rightarrow> (EDone resp, w2)
           | (None, w2) \<Rightarrow> (event_accepted e, w2)))"
proof -
  obtain err w1 where a: "AppendEvent (sv_store s) e w = (err, w1)" by (metis prod.exhaust)
  show ?thesis
  proof (cases "event_transition (e_Type e)")
    case None
    with a show ?thesis by (cases err) (simp_all add: eval_nat_numeral finalize_event_def)
  next
    case (Some tr)
    obtain state terminal where tr: "tr = (state, terminal)" by (metis prod.exhaust)
    obtain err2 w2 where u: "UpdateTaskState (sv_store s) (e_TaskID e) state w1 = (err2, w2)" by (metis prod.exhaust)
    from a Some tr u show ?thesis
      by (cases err; cases err2; cases terminal)
        (simp_all add: eval_nat_numeral finalize_event_def split_beta)
  qed
qed

lemma iterate_event:
  "iterate 6 (event_step s) (event_start c r) w = (let (resp, w1) = handleCreateEvent c s r w in (EDone resp, w1))"
proof -
  have six: "iterate 6 f p v =
      (let (p1, v1) = f p v; (p2, v2) = f p1 v1; (p3, v3) = f p2 v2 in iterate 3 f p3 v3)" for f and p :: event_pc and v
    by (simp add: eval_nat_numeral split_beta)
  show ?thesis
  proof (cases "\<exists>req hash. event_start c r = EVerify req hash")
    case False
    then show ?thesis
      by (auto simp: event_start_def handleCreateEvent_def Let_def split: sum.splits if_splits)
  next
    case True
    then obtain req where
      tok: "\<not> length (rq_Header r ''Authorization'') < 8" "take 7 (rq_Header r ''Authorization'') = ''Bearer ''"
      and req: "cd_event c (rq_Body r) = Inr req" "cer_TaskID req \<noteq> []"
      and start: "event_start c r = EVerify req (Sum256 (drop 7 (rq_Header r ''Authorization'')))"
      by (auto simp: event_start_def Let_def split: sum.splits if_splits)
    obtain v w1 where ver: "VerifyAgentToken (sv_store s) (cer_TaskID req) (Sum256 (drop 7 (rq_Header r ''Authorization''))) w =
        (v, w1)" by (metis prod.exhaust)
    obtain i w2 where gen: "(if cer_ID req = [] then generateID ''evt'' w1 else (cer_ID req, w1)) = (i, w2)"
      by (metis prod.exhaust)
    obtain now w3 where clock: "with_host Now w2 = (now, w3)" by (metis prod.exhaust)
    show ?thesis
    proof (cases "v = Inr True")
      case False
      with tok req start ver show ?thesis
        by (cases v) (auto simp: six handleCreateEvent_def Let_def)
    next
      case True
      with tok req start ver gen clock show ?thesis
        by (auto simp: six handleCreateEvent_def store_event_def iterate_append event_accepted_def Let_def
            simp del: iterate.simps split: option.splits prod.splits)
    qed
  qed
qed

end
