(* ===== verification/Interleaving.thy ===== *)
theory Interleaving
  imports System Threads
begin

text \<open>
  Requests served at the same time: a list of threads over one world, of which any may take
  its next step. What holds in every interleaving, whatever fails: the database stays well
  formed, a task has one creator, its token is stored once and a revoked token stays revoked.
\<close>

datatype thread = TCreate create_pc | TEvent event_pc

fun thread_step :: "'x world_scheme server \<Rightarrow> thread \<Rightarrow> 'x world_scheme \<Rightarrow> thread \<times> 'x world_scheme" where
  "thread_step s (TCreate p) w = (let (p1, w1) = create_step s p w in (TCreate p1, w1))"
| "thread_step s (TEvent p) w = (let (p1, w1) = event_step s p w in (TEvent p1, w1))"

subsection \<open>Every thread ends\<close>

text \<open>An upper bound of the steps a thread still takes.\<close>

fun create_left :: "create_pc \<Rightarrow> nat" where
  "create_left (CLookup req) = 10"
| "create_left (CIdentify req sk) = 9"
| "create_left (CStamp req sk i) = 8"
| "create_left (CInsert t sk) = 7"
| "create_left (CDraw t sk) = 6"
| "create_left (CStoreToken t sk tok) = 5"
| "create_left (CLaunch t sk res) = 4"
| "create_left (CMarkRunning i res hdl) = 3"
| "create_left (CMarkFailed i err) = 2"
| "create_left (CWithdraw i err) = 1"
| "create_left (CDone r) = 0"

fun event_left :: "event_pc \<Rightarrow> nat" where
  "event_left (EVerify req hash) = 6"
| "event_left (EIdentify req hash) = 5"
| "event_left (EStamp req hash i) = 4"
| "event_left (EAppend e hash) = 3"
| "event_left (EUpdate e hash state terminal) = 2"
| "event_left (ERevoke e hash) = 1"
| "event_left (EDone resp) = 0"

fun thread_left :: "thread \<Rightarrow> nat" where
  "thread_left (TCreate p) = create_left p"
| "thread_left (TEvent p) = event_left p"

lemma create_left_step:
  "create_left p \<noteq> 0 \<Longrightarrow> create_left (fst (create_step s p w)) < create_left p"
  by (cases p) (auto simp: launch_failed_def Let_def split: sum.splits option.splits prod.splits)

lemma event_left_step:
  "event_left p \<noteq> 0 \<Longrightarrow> event_left (fst (event_step s p w)) < event_left p"
  by (cases p) (auto simp: event_accepted_def Let_def split: sum.splits option.splits prod.splits)

lemma thread_left_step:
  "thread_step s t w = (t', w') \<Longrightarrow> thread_left t \<noteq> 0 \<Longrightarrow> thread_left t' < thread_left t"
proof (cases t)
  case (TCreate p)
  then show "thread_step s t w = (t', w') \<Longrightarrow> thread_left t \<noteq> 0 \<Longrightarrow> ?thesis"
    using create_left_step [of p s w] by (auto simp: Let_def split: prod.splits)
next
  case (TEvent p)
  then show "thread_step s t w = (t', w') \<Longrightarrow> thread_left t \<noteq> 0 \<Longrightarrow> ?thesis"
    using event_left_step [of p s w] by (auto simp: Let_def split: prod.splits)
qed

lemma thread_left_0: "thread_left t = 0 \<Longrightarrow> thread_step s t w = (t, w)"
proof (cases t)
  case (TCreate p)
  then show "thread_left t = 0 \<Longrightarrow> ?thesis" by (cases p) simp_all
next
  case (TEvent p)
  then show "thread_left t = 0 \<Longrightarrow> ?thesis" by (cases p) simp_all
qed

subsection \<open>What the tables keep\<close>

text \<open>
  What no step undoes: skills stay, no task disappears and only the state and the date of its
  row change, recorded events stay as they are, and a stored hash stays with its task for
  ever and its revocation too.
\<close>

definition same_task :: "task \<Rightarrow> task \<Rightarrow> bool" where
  "same_task t t' \<longleftrightarrow> t'\<lparr>t_State := t_State t, t_UpdatedAt := t_UpdatedAt t\<rparr> = t"

definition rows_kept :: "abs_store \<Rightarrow> abs_store \<Rightarrow> bool" where
  "rows_kept a a' \<longleftrightarrow>
     as_skills a' = as_skills a \<and> as_events a \<subseteq>\<^sub>m as_events a' \<and>
     (\<forall>i t. as_tasks a i = Some t \<longrightarrow> (\<exists>t'. as_tasks a' i = Some t' \<and> same_task t t'))"

definition tokens_kept :: "abs_store \<Rightarrow> abs_store \<Rightarrow> bool" where
  "tokens_kept a a' \<longleftrightarrow>
     (\<forall>i h r. as_tokens a i = Some (h, r) \<longrightarrow> (\<exists>r'. as_tokens a' i = Some (h, r') \<and> (r \<longrightarrow> r')))"

definition history_kept :: "abs_store \<Rightarrow> abs_store \<Rightarrow> bool" where
  "history_kept a a' \<longleftrightarrow> rows_kept a a' \<and> tokens_kept a a'"

lemma same_task_refl [simp]: "same_task t t"
  by (simp add: same_task_def)

lemma same_task_trans: "same_task t u \<Longrightarrow> same_task u v \<Longrightarrow> same_task t v"
  by (cases t; cases u; cases v) (simp add: same_task_def)

lemma same_taskE:
  assumes "same_task t t'"
  obtains st u where "t' = t\<lparr>t_State := st, t_UpdatedAt := u\<rparr>"
proof (rule that)
  show "t' = t\<lparr>t_State := t_State t', t_UpdatedAt := t_UpdatedAt t'\<rparr>"
    using assms by (cases t; cases t') (simp add: same_task_def)
qed

lemma history_kept_refl [simp]: "history_kept a a"
  by (simp add: history_kept_def rows_kept_def tokens_kept_def)

lemma history_kept_trans:
  assumes "history_kept a b" and "history_kept b d"
  shows "history_kept a d"
proof -
  from assms have "as_skills d = as_skills a" "as_events a \<subseteq>\<^sub>m as_events d"
    using map_le_trans by (auto simp: history_kept_def rows_kept_def)
  moreover have "\<exists>v. as_tasks d i = Some v \<and> same_task t v" if "as_tasks a i = Some t" for i t
    using assms that same_task_trans unfolding history_kept_def rows_kept_def by metis
  moreover have "tokens_kept a d"
    using assms unfolding history_kept_def tokens_kept_def by metis
  ultimately show ?thesis by (simp add: history_kept_def rows_kept_def)
qed

text \<open>A step also gives a first hash to task \<open>p\<close> only.\<close>

definition evolves :: "string option \<Rightarrow> abs_store \<Rightarrow> abs_store \<Rightarrow> bool" where
  "evolves p a a' \<longleftrightarrow>
     history_kept a a' \<and> (\<forall>i. as_tokens a i = None \<longrightarrow> p \<noteq> Some i \<longrightarrow> as_tokens a' i = None)"

lemma evolves_refl [simp]: "evolves p a a"
  by (simp add: evolves_def)

lemma evolves_task: "evolves p a a' \<Longrightarrow> as_tasks a i \<noteq> None \<Longrightarrow> as_tasks a' i \<noteq> None"
  by (fastforce simp: evolves_def history_kept_def rows_kept_def)

lemma evolves_effects:
  "task_created t a a' \<Longrightarrow> evolves p a a'"
  "state_updated i st a a' \<Longrightarrow> evolves p a a'"
  "event_appended e a a' \<Longrightarrow> evolves p a a'"
  "token_revoked i a a' \<Longrightarrow> evolves p a a'"
  "token_stored i h a a' \<Longrightarrow> as_tokens a i = None \<Longrightarrow> evolves (Some i) a a'"
  by (auto simp: evolves_def history_kept_def rows_kept_def tokens_kept_def same_task_def map_le_def
      task_created_def state_updated_def event_appended_def token_revoked_def token_stored_def
      split: option.splits)

lemma evolves_wrote:
  "(\<And>b. R a b \<Longrightarrow> evolves p a b) \<Longrightarrow> wrote err R a a' \<Longrightarrow> evolves p a a'"
  by (auto simp: wrote_def)

subsection \<open>What the threads know\<close>

definition known :: "abs_store \<Rightarrow> string \<Rightarrow> bytes \<Rightarrow> bool" where
  "known a i h \<longleftrightarrow> (\<exists>r. as_tokens a i = Some (h, r))"

definition issued :: "abs_store \<Rightarrow> string \<Rightarrow> create_task_result \<Rightarrow> bool" where
  "issued a i res \<longleftrightarrow> res_TaskID res = i \<and> as_tasks a i \<noteq> None \<and> known a i (Sum256 (res_Token res))"

text \<open>The task that a thread has created, and the one whose token it is about to store.\<close>

fun owns :: "thread \<Rightarrow> string option" where
  "owns (TCreate (CDraw t sk)) = Some (t_ID t)"
| "owns (TCreate (CStoreToken t sk tok)) = Some (t_ID t)"
| "owns (TCreate (CLaunch t sk res)) = Some (t_ID t)"
| "owns (TCreate (CMarkRunning i res hdl)) = Some i"
| "owns (TCreate (CDone (Inr res))) = Some (res_TaskID res)"
| "owns t = None"

fun storing :: "thread \<Rightarrow> string option" where
  "storing (TCreate (CDraw t sk)) = Some (t_ID t)"
| "storing (TCreate (CStoreToken t sk tok)) = Some (t_ID t)"
| "storing t = None"

fun thread_ok :: "abs_store \<Rightarrow> thread \<Rightarrow> bool" where
  "thread_ok a (TCreate (CDraw t sk)) = (as_tasks a (t_ID t) \<noteq> None \<and> as_tokens a (t_ID t) = None)"
| "thread_ok a (TCreate (CStoreToken t sk tok)) = (as_tasks a (t_ID t) \<noteq> None \<and> as_tokens a (t_ID t) = None)"
| "thread_ok a (TCreate (CLaunch t sk res)) = issued a (t_ID t) res"
| "thread_ok a (TCreate (CMarkRunning i res hdl)) = issued a i res"
| "thread_ok a (TCreate (CDone (Inr res))) = issued a (res_TaskID res) res"
| "thread_ok a (TEvent (EIdentify req hash)) = known a (cer_TaskID req) hash"
| "thread_ok a (TEvent (EStamp req hash i)) = known a (cer_TaskID req) hash"
| "thread_ok a (TEvent (EAppend e hash)) = known a (e_TaskID e) hash"
| "thread_ok a (TEvent (EUpdate e hash state terminal)) = known a (e_TaskID e) hash"
| "thread_ok a (TEvent (ERevoke e hash)) = known a (e_TaskID e) hash"
| "thread_ok a t = True"

lemma known_evolves: "evolves p a a' \<Longrightarrow> known a i h \<Longrightarrow> known a' i h"
  unfolding evolves_def history_kept_def tokens_kept_def known_def by blast

lemma issued_evolves: "evolves p a a' \<Longrightarrow> issued a i res \<Longrightarrow> issued a' i res"
  using known_evolves evolves_task by (simp add: issued_def)

lemma storing_owns: "storing t = Some i \<Longrightarrow> owns t = Some i"
  by (induction t rule: storing.induct) simp_all

lemma owns_exists: "thread_ok a t \<Longrightarrow> owns t = Some i \<Longrightarrow> as_tasks a i \<noteq> None"
  by (induction t rule: owns.induct) (simp_all add: issued_def)

text \<open>A step of another thread leaves what a thread knows.\<close>

lemma thread_ok_evolves:
  assumes "evolves p a a'" and "thread_ok a t" and "storing t = None \<or> p \<noteq> storing t"
  shows "thread_ok a' t"
  using assms known_evolves [OF assms(1)] issued_evolves [OF assms(1)] evolves_task [OF assms(1)]
  by (induction a t rule: thread_ok.induct) (auto simp: evolves_def)

subsection \<open>A step of a thread\<close>

locale referential_service = task_service s view wf up
  for s :: "'x world_scheme server" and view :: "'x world_scheme \<Rightarrow> abs_store"
    and wf :: "'x world_scheme \<Rightarrow> bool" and up :: "'x world_scheme \<Rightarrow> bool" +
  assumes no_token: "wf w \<Longrightarrow> as_tasks (view w) i = None \<Longrightarrow> as_tokens (view w) i = None"
begin

text \<open>What a step keeps and leaves, as one predicate of the two configurations.\<close>

definition good_step :: "thread \<Rightarrow> 'x world_scheme \<Rightarrow> thread \<Rightarrow> 'x world_scheme \<Rightarrow> bool" where
  "good_step t w t' w' \<longleftrightarrow>
     wf w' \<and> evolves (storing t) (view w) (view w') \<and> thread_ok (view w') t' \<and>
     (\<forall>i. owns t' = Some i \<longrightarrow> owns t = Some i \<or> as_tasks (view w) i = None)"

lemma same_view_step:
  "wf w' \<Longrightarrow> view w' = view w \<Longrightarrow> thread_ok (view w) t' \<Longrightarrow> owns t' = None \<or> owns t' = owns t \<Longrightarrow>
     good_step t w t' w'"
  by (auto simp: good_step_def)

lemma insert_good:
  assumes "wf w" and "thread_ok (view w) (TCreate (CInsert t sk))" and "create_step s (CInsert t sk) w = (p', w')"
  shows "good_step (TCreate (CInsert t sk)) w (TCreate p') w'"
proof -
  obtain e w1 where c: "CreateTask (sv_store s) t w = (e, w1)" by (metis prod.exhaust)
  from create_task [OF assms(1) c] have w1: "wf w1" "wrote e (task_created t) (view w) (view w1)" by auto
  show ?thesis
  proof (cases e)
    case None
    with c assms(3) have p': "p' = CDraw t sk" "w' = w1" by auto
    from w1 None have cr: "task_created t (view w) (view w1)" by simp
    then have new: "as_tasks (view w) (t_ID t) = None" by (simp add: task_created_def)
    with no_token assms(1) cr have "as_tokens (view w1) (t_ID t) = None" "as_tasks (view w1) (t_ID t) \<noteq> None"
      by (auto simp: task_created_def)
    with p' w1 new evolves_effects(1) [OF cr] show ?thesis by (simp add: good_step_def)
  next
    case (Some x)
    with c assms(3) have "w' = w1" "owns (TCreate p') = None" "thread_ok (view w') (TCreate p')" by auto
    with w1 evolves_wrote [OF evolves_effects(1) w1(2)] show ?thesis by (simp add: good_step_def)
  qed
qed

lemma store_token_good:
  assumes "wf w" and "thread_ok (view w) (TCreate (CStoreToken t sk tok))" and "create_step s (CStoreToken t sk tok) w = (p', w')"
  shows "good_step (TCreate (CStoreToken t sk tok)) w (TCreate p') w'"
proof -
  obtain e w1 where st: "StoreAgentToken (sv_store s) (t_ID t) (Sum256 tok) w = (e, w1)" by (metis prod.exhaust)
  from store_token [OF assms(1) st]
  have w1: "wf w1" "wrote e (token_stored (t_ID t) (Sum256 tok)) (view w) (view w1)" by auto
  have none: "as_tokens (view w) (t_ID t) = None" using assms(2) by simp
  have ev: "evolves (Some (t_ID t)) (view w) (view w1)"
    by (rule evolves_wrote [OF evolves_effects(5) [OF _ none] w1(2)])
  show ?thesis
  proof (cases e)
    case None
    with st assms(3) have p': "p' = CLaunch t sk (first_result t tok)" "w' = w1" by auto
    from w1 None have "issued (view w1) (t_ID t) (first_result t tok)"
      by (auto simp: issued_def known_def first_result_def token_stored_def)
    with p' w1 ev show ?thesis by (simp add: good_step_def)
  next
    case (Some x)
    with st assms(3) have "w' = w1" "owns (TCreate p') = None" "thread_ok (view w') (TCreate p')" by auto
    with w1 ev show ?thesis by (simp add: good_step_def)
  qed
qed

lemma launch_good:
  assumes "wf w" and "thread_ok (view w) (TCreate (CLaunch t sk res))" and "create_step s (CLaunch t sk res) w = (p', w')"
  shows "good_step (TCreate (CLaunch t sk res)) w (TCreate p') w'"
proof (cases "\<exists>sched rt. sv_scheduler s = Some sched \<and> map_of (sc_runtimes sched) (t_Runtime t) = Some rt")
  case False
  with assms have "w' = w" "owns (TCreate p') = None \<or> owns (TCreate p') = owns (TCreate (CLaunch t sk res))"
    "thread_ok (view w) (TCreate p')"
    by (auto simp: launch_failed_def issued_def split: option.splits)
  with assms(1) show ?thesis by (intro same_view_step) auto
next
  case True
  then obtain sched rt where rt: "sv_scheduler s = Some sched" "map_of (sc_runtimes sched) (t_Runtime t) = Some rt"
    by blast
  obtain r w1 where d: "rt_Dispatch rt t sk w = (r, w1)" by (metis prod.exhaust)
  note rc = runtimes [OF rt]
  from runtime_contract.dispatch_wf [OF rc assms(1) d] runtime_contract.dispatch_view [OF rc d]
  have w1: "wf w1" "view w1 = view w" by auto
  have "w' = w1" "owns (TCreate p') = None \<or> owns (TCreate p') = owns (TCreate (CLaunch t sk res))" "thread_ok (view w) (TCreate p')"
    using d rt assms(2,3) by (auto simp: launch_failed_def split: sum.splits)
  with w1 show ?thesis by (intro same_view_step) auto
qed

lemma mark_running_good:
  assumes "wf w" and "thread_ok (view w) (TCreate (CMarkRunning i res hdl))" and "create_step s (CMarkRunning i res hdl) w = (p', w')"
  shows "good_step (TCreate (CMarkRunning i res hdl)) w (TCreate p') w'"
proof (cases "sv_scheduler s")
  case None
  with assms have "w' = w" "owns (TCreate p') = owns (TCreate (CMarkRunning i res hdl))" "thread_ok (view w) (TCreate p')"
    by (auto simp: issued_def)
  with assms(1) show ?thesis by (intro same_view_step) auto
next
  case (Some sched)
  obtain e w1 where u: "UpdateTaskState (sv_store s) i TaskStateRunning w = (e, w1)" by (metis prod.exhaust)
  from update_state [OF assms(1) u] have w1: "wf w1" "wrote e (state_updated i TaskStateRunning) (view w) (view w1)" by auto
  have ev: "evolves None (view w) (view w1)" by (rule evolves_wrote [OF evolves_effects(2) w1(2)])
  have w': "w' = w1" using Some u same_store [OF Some] assms(3)
    by (auto simp: launch_failed_def split: option.splits)
  have "owns (TCreate p') = None \<or> owns (TCreate p') = owns (TCreate (CMarkRunning i res hdl))" "thread_ok (view w') (TCreate p')"
    using Some u same_store [OF Some] assms(2,3) issued_evolves [OF ev] w'
    by (auto simp: launch_failed_def issued_def split: option.splits)
  with w' w1 ev show ?thesis by (auto simp: good_step_def)
qed

lemma create_step_good:
  assumes "wf w" and "thread_ok (view w) (TCreate p)" and "create_step s p w = (p', w')"
  shows "good_step (TCreate p) w (TCreate p') w'"
proof (cases p)
  case (CLookup req)
  obtain g w1 where g: "GetSkill (sv_store s) (ctr_SkillName req) w = (g, w1)" by (metis prod.exhaust)
  from get_skill [OF assms(1) g] have w1: "wf w1" "view w1 = view w" by auto
  have "w' = w1" "owns (TCreate p') = None" "thread_ok (view w) (TCreate p')"
    using assms(3) g CLookup by (auto split: sum.splits option.splits)
  with w1 show ?thesis by (intro same_view_step) auto
next
  case (CIdentify req sk)
  then obtain i where "generateID ''task'' w = (i, w')" and "p' = CStamp req sk i"
    using assms(3) by (auto split: prod.splits)
  with generateID_step assms(1) show ?thesis by (intro same_view_step) auto
next
  case (CStamp req sk i)
  then obtain now where c: "with_host Now w = (now, w')" and "p' = CInsert (new_task req sk i now) sk"
    using assms(3) by (auto split: prod.splits)
  with host_step [OF c] assms(1) show ?thesis by (intro same_view_step) auto
next
  case (CInsert t sk)
  from assms show ?thesis unfolding CInsert by (rule insert_good)
next
  case (CDraw t sk)
  obtain bs e w1 where r: "with_host (rand_Read 32) w = ((bs, e), w1)" by (metis prod.exhaust)
  from host_step [OF r] assms(1) have w1: "wf w1" "view w1 = view w" by auto
  have "w' = w1" "owns (TCreate p') = None \<or> owns (TCreate p') = owns (TCreate p)" "thread_ok (view w) (TCreate p')"
    using r CDraw assms(2,3) by (auto split: option.splits)
  with w1 show ?thesis by (intro same_view_step) auto
next
  case (CStoreToken t sk tok)
  from assms show ?thesis unfolding CStoreToken by (rule store_token_good)
next
  case (CLaunch t sk res)
  from assms show ?thesis unfolding CLaunch by (rule launch_good)
next
  case (CMarkRunning i res hdl)
  from assms show ?thesis unfolding CMarkRunning by (rule mark_running_good)
next
  case (CMarkFailed i err)
  obtain e w1 where u: "UpdateTaskState (sv_store s) i TaskStateFailed w = (e, w1)" by (metis prod.exhaust)
  from update_state [OF assms(1) u] have w1: "wf w1" "wrote e (state_updated i TaskStateFailed) (view w) (view w1)" by auto
  from CMarkFailed u assms(3) have "p' = CWithdraw i err" "w' = w1" by auto
  with w1 evolves_wrote [OF evolves_effects(2) w1(2)] show ?thesis by (simp add: good_step_def)
next
  case (CWithdraw i err)
  obtain e w1 where u: "RevokeAgentToken (sv_store s) i w = (e, w1)" by (metis prod.exhaust)
  from revoke_token [OF assms(1) u] have w1: "wf w1" "wrote e (token_revoked i) (view w) (view w1)" by auto
  from CWithdraw u assms(3) have "p' = CDone (Inl err)" "w' = w1" by auto
  with w1 evolves_wrote [OF evolves_effects(4) w1(2)] show ?thesis by (simp add: good_step_def)
next
  case (CDone r)
  with assms show ?thesis by (auto intro: same_view_step)
qed

lemma append_good:
  assumes "wf w" and "thread_ok (view w) (TEvent (EAppend e hash))" and "event_step s (EAppend e hash) w = (p', w')"
  shows "good_step (TEvent (EAppend e hash)) w (TEvent p') w'"
proof -
  obtain err w1 where a: "AppendEvent (sv_store s) e w = (err, w1)" by (metis prod.exhaust)
  from append_event [OF assms(1) a] have w1: "wf w1" "wrote err (event_appended e) (view w) (view w1)" by auto
  have ev: "evolves None (view w) (view w1)" by (rule evolves_wrote [OF evolves_effects(3) w1(2)])
  have "w' = w1" "thread_ok (view w1) (TEvent p')"
    using assms(2,3) a known_evolves [OF ev]
    by (auto simp: event_accepted_def split: option.splits prod.splits)
  with w1 ev show ?thesis by (simp add: good_step_def)
qed

lemma update_good:
  assumes "wf w" and "thread_ok (view w) (TEvent (EUpdate e hash state terminal))"
    and "event_step s (EUpdate e hash state terminal) w = (p', w')"
  shows "good_step (TEvent (EUpdate e hash state terminal)) w (TEvent p') w'"
proof -
  obtain err w1 where u: "UpdateTaskState (sv_store s) (e_TaskID e) state w = (err, w1)" by (metis prod.exhaust)
  from update_state [OF assms(1) u]
  have w1: "wf w1" "wrote err (state_updated (e_TaskID e) state) (view w) (view w1)" by auto
  have ev: "evolves None (view w) (view w1)" by (rule evolves_wrote [OF evolves_effects(2) w1(2)])
  have "w' = w1" "thread_ok (view w1) (TEvent p')"
    using assms(2,3) u known_evolves [OF ev]
    by (auto simp: event_accepted_def split: option.splits if_splits)
  with w1 ev show ?thesis by (simp add: good_step_def)
qed

lemma event_step_good:
  assumes "wf w" and "thread_ok (view w) (TEvent p)" and "event_step s p w = (p', w')"
  shows "good_step (TEvent p) w (TEvent p') w'"
proof (cases p)
  case (EVerify req hash)
  obtain v w1 where ver: "VerifyAgentToken (sv_store s) (cer_TaskID req) hash w = (v, w1)" by (metis prod.exhaust)
  from verify_token [OF assms(1) ver] have w1: "wf w1" "view w1 = view w"
    and v: "v = Inr True \<Longrightarrow> token_valid (view w) (cer_TaskID req) hash" by auto
  have "w' = w1" "thread_ok (view w) (TEvent p')"
    using assms(3) ver EVerify v by (auto simp: known_def token_valid_def split: sum.splits if_splits)
  with w1 show ?thesis by (intro same_view_step) auto
next
  case (EIdentify req hash)
  obtain i w1 where g: "(if cer_ID req = [] then generateID ''evt'' w else (cer_ID req, w)) = (i, w1)"
    by (metis prod.exhaust)
  then have w1: "wf w1" "view w1 = view w" using generateID_step assms(1) by (auto split: if_splits)
  have "w' = w1" "thread_ok (view w) (TEvent p')" using assms(2,3) g EIdentify by auto
  with w1 show ?thesis by (intro same_view_step) auto
next
  case (EStamp req hash i)
  obtain now w1 where c: "with_host Now w = (now, w1)" by (metis prod.exhaust)
  have "w' = w1" "thread_ok (view w) (TEvent p')" using assms(2,3) c EStamp by auto
  with host_step [OF c] assms(1) show ?thesis by (intro same_view_step) auto
next
  case (EAppend e hash)
  from assms show ?thesis unfolding EAppend by (rule append_good)
next
  case (EUpdate e hash state terminal)
  from assms show ?thesis unfolding EUpdate by (rule update_good)
next
  case (ERevoke e hash)
  obtain err w1 where r: "RevokeAgentToken (sv_store s) (e_TaskID e) w = (err, w1)" by (metis prod.exhaust)
  from revoke_token [OF assms(1) r] have w1: "wf w1" "wrote err (token_revoked (e_TaskID e)) (view w) (view w1)" by auto
  have ev: "evolves None (view w) (view w1)" by (rule evolves_wrote [OF evolves_effects(4) w1(2)])
  have "w' = w1" "thread_ok (view w1) (TEvent p')" using assms(3) r ERevoke by (auto simp: event_accepted_def)
  with w1 ev ERevoke show ?thesis by (simp add: good_step_def)
next
  case (EDone resp)
  with assms show ?thesis by (auto intro: same_view_step)
qed

lemma thread_step_good:
  "wf w \<Longrightarrow> thread_ok (view w) t \<Longrightarrow> thread_step s t w = (t', w') \<Longrightarrow> good_step t w t' w'"
  using create_step_good event_step_good by (cases t) (auto simp: Let_def split: prod.splits)

end

subsection \<open>Interleavings\<close>

text \<open>The wired servers meet the contract: their store has no token without its task.\<close>

lemma wired_referential: "wired s \<Longrightarrow> referential_service s sys_view sys_wf sys_up"
  by (intro referential_service.intro referential_service_axioms.intro wired_service)
    (auto simp: sys_wf_def sys_view_def abs_pg_no_token)

interpretation conc_svc: referential_service
  "sys_server ord (sys_runtimes bord h (drivers marshal inc)) pol" sys_view sys_wf sys_up
  for ord bord h marshal inc pol
  by (rule wired_referential) (unfold wired_def, blast)

text \<open>
  A request arrives as a new thread; any thread takes a step; a reading request, which makes
  one call at most, is served; a handler is abandoned where it stands; the whole process
  stops and loses its threads; and around the database anything happens.
\<close>

inductive conc_step ::
  "host \<Rightarrow> assets \<Rightarrow> codec \<Rightarrow> system server \<Rightarrow> thread list \<times> system \<Rightarrow> thread list \<times> system \<Rightarrow> bool"
  for h x c s where
  arrive_create: "conc_step h x c s (ts, w) (ts @ [TCreate (CLookup req)], w)"
| arrive_event: "conc_step h x c s (ts, w) (ts @ [TEvent (event_start c r)], w)"
| advance: "i < length ts \<Longrightarrow> thread_step s (ts ! i) w = (t, w') \<Longrightarrow> conc_step h x c s (ts, w) (ts[i := t], w')"
| read: "is_get (rq_Method r) \<Longrightarrow> Server_Handler h x c s r w = (resp, w') \<Longrightarrow> conc_step h x c s (ts, w) (ts, w')"
| abandon: "conc_step h x c s (ts, w) (ts[i := TEvent (EDone resp)], w)"
| stop: "conc_step h x c s (ts, w) ([], w)"
| beside: "sy_pg w' = sy_pg w \<Longrightarrow> conc_step h x c s (ts, w) (ts, w')"

definition conc_ok :: "thread list \<times> system \<Rightarrow> bool" where
  "conc_ok tw \<longleftrightarrow>
     (let (ts, w) = tw in
      sys_wf w \<and> (\<forall>t \<in> set ts. thread_ok (sys_view w) t) \<and>
      apart owns ts)"

lemma evolves_kept: "evolves p a a' \<Longrightarrow> history_kept a a'"
  by (simp add: evolves_def)

lemma conc_ok_arrive: "conc_ok (ts, w) \<Longrightarrow> owns t = None \<Longrightarrow> thread_ok (sys_view w) t \<Longrightarrow> conc_ok (ts @ [t], w)"
  by (auto simp: conc_ok_def apart_snoc)

lemma conc_ok_world: "conc_ok (ts, w) \<Longrightarrow> sys_wf w' \<Longrightarrow> sys_view w' = sys_view w \<Longrightarrow> conc_ok (ts, w')"
  by (simp add: conc_ok_def)

lemma conc_ok_abandon:
  assumes "conc_ok (ts, w)"
  shows "conc_ok (ts[i := TEvent (EDone resp)], w)"
proof -
  have "thread_ok (sys_view w) t" if "t \<in> set (ts[i := TEvent (EDone resp)])" for t
    using set_update_subset_insert [of ts i "TEvent (EDone resp)"] that assms by (auto simp: conc_ok_def)
  moreover have "apart owns (ts[i := TEvent (EDone resp)])"
    by (rule apart_update) (use assms in \<open>simp_all add: conc_ok_def\<close>)
  ultimately show ?thesis using assms by (simp add: conc_ok_def)
qed

text \<open>The step of one thread keeps what all of them know.\<close>

lemma conc_ok_advance:
  assumes "wired s" and ok: "conc_ok (ts, w)" and i: "i < length ts" and st: "thread_step s (ts ! i) w = (t, w')"
  shows "conc_ok (ts[i := t], w') \<and> history_kept (sys_view w) (sys_view w')"
proof -
  have wf: "sys_wf w" and oks: "\<And>j. j < length ts \<Longrightarrow> thread_ok (sys_view w) (ts ! j)"
    and one: "apart owns ts"
    using ok by (auto simp: conc_ok_def)
  from referential_service.thread_step_good [OF wired_referential [OF assms(1)] wf oks [OF i] st]
  have wf': "sys_wf w'" and ev: "evolves (storing (ts ! i)) (sys_view w) (sys_view w')"
    and okt: "thread_ok (sys_view w') t"
    and new: "\<And>n. owns t = Some n \<Longrightarrow> owns (ts ! i) = Some n \<or> as_tasks (sys_view w) n = None"
    by (auto simp: referential_service.good_step_def [OF wired_referential [OF assms(1)]])
  have other: "thread_ok (sys_view w') (ts ! j)" if "j < length ts" "j \<noteq> i" for j
  proof (rule thread_ok_evolves [OF ev oks [OF that(1)]])
    show "storing (ts ! j) = None \<or> storing (ts ! i) \<noteq> storing (ts ! j)"
      using apartD [OF one that(1) i] that(2) storing_owns by (cases "storing (ts ! j)") auto
  qed
  have "owns (ts ! j) \<noteq> Some n" if "j < length ts" "j \<noteq> i" "owns t = Some n" for j n
  proof
    assume same: "owns (ts ! j) = Some n"
    with owns_exists [OF oks [OF that(1)]] have "as_tasks (sys_view w) n \<noteq> None" by simp
    with new [OF that(3)] have "owns (ts ! i) = Some n" by blast
    with apartD [OF one that(1) i same] that(2) show False by simp
  qed
  then have "apart owns (ts[i := t])" using one by (rule apart_update [rotated])
  moreover have "thread_ok (sys_view w') u" if "u \<in> set (ts[i := t])" for u
  proof -
    from that obtain j where "j < length ts" "u = ts[i := t] ! j" by (auto simp: in_set_conv_nth)
    with okt other show ?thesis by (cases "j = i") auto
  qed
  ultimately show ?thesis using wf' evolves_kept [OF ev] by (auto simp: conc_ok_def)
qed

lemma conc_step_ok:
  assumes "wired s" and "conc_step h x c s tw tw'" and "conc_ok tw"
  shows "conc_ok tw' \<and> history_kept (sys_view (snd tw)) (sys_view (snd tw'))"
  using assms(2,3)
proof (cases rule: conc_step.cases)
  case (arrive_create ts w req)
  with assms(3) conc_ok_arrive [of ts w "TCreate (CLookup req)"] show ?thesis by simp
next
  case (arrive_event ts w r)
  have "thread_ok (sys_view w) (TEvent (event_start c r))"
    by (auto simp: event_start_def Let_def split: sum.splits)
  with arrive_event assms(3) conc_ok_arrive [of ts w "TEvent (event_start c r)"] show ?thesis by simp
next
  case (advance i ts w t w')
  with conc_ok_advance [OF assms(1)] assms(3) show ?thesis by simp
next
  case (read r w resp w' ts)
  have "sys_wf w" using read assms(3) by (simp add: conc_ok_def)
  with task_service.Handler_reads [OF wired_service [OF assms(1)] _ read(3,4)] read conc_ok_world assms(3)
  show ?thesis by auto
next
  case (abandon ts w i resp)
  with conc_ok_abandon assms(3) show ?thesis by simp
next
  case (stop ts w)
  with assms(3) show ?thesis by (simp add: conc_ok_def)
next
  case (beside w' w ts)
  have "sys_wf w" using beside assms(3) by (simp add: conc_ok_def)
  with beside conc_ok_world [of ts w w'] assms(3) show ?thesis by (simp add: sys_wf_def sys_view_def)
qed

lemma conc_run_ok:
  assumes "wired s" and "(conc_step h x c s)\<^sup>*\<^sup>* tw tw'" and "conc_ok tw"
  shows "conc_ok tw' \<and> history_kept (sys_view (snd tw)) (sys_view (snd tw'))"
  using assms(2)
proof (induction rule: rtranclp_induct)
  case base
  with assms(3) show ?case by simp
next
  case (step y z)
  with conc_step_ok [OF assms(1) step(2)] history_kept_trans show ?case by blast
qed

lemma conc_ok_start: "sys_wf w \<Longrightarrow> conc_ok ([], w)"
  by (simp add: conc_ok_def)

subsection \<open>Interference and schedules\<close>

text \<open>A thread whose steps have the world changed before each of them.\<close>

primrec interfered ::
  "'x world_scheme server \<Rightarrow> ('x world_scheme \<Rightarrow> 'x world_scheme) list \<Rightarrow> thread \<Rightarrow> 'x world_scheme \<Rightarrow>
     thread \<times> 'x world_scheme" where
  "interfered s [] t w = (t, w)"
| "interfered s (g # gs) t w = (let (t1, w1) = thread_step s t (g w) in interfered s gs t1 w1)"

lemma interfered_ends:
  "thread_left t \<le> length gs \<Longrightarrow> thread_left (fst (interfered s gs t w)) = 0"
proof (induction gs arbitrary: t w)
  case Nil
  then show ?case by simp
next
  case (Cons g gs)
  obtain t1 w1 where st: "thread_step s t (g w) = (t1, w1)" by (metis prod.exhaust)
  have "thread_left t1 \<le> length gs"
    using thread_left_step [OF st] thread_left_0 [of t s "g w"] st Cons.prems by (cases "thread_left t = 0") auto
  with Cons.IH st show ?case by simp
qed

lemma thread_ended: "thread_left t = 0 \<Longrightarrow> (\<exists>r. t = TCreate (CDone r)) \<or> (\<exists>resp. t = TEvent (EDone resp))"
proof (cases t)
  case (TCreate p)
  then show "thread_left t = 0 \<Longrightarrow> ?thesis" by (cases p) simp_all
next
  case (TEvent p)
  then show "thread_left t = 0 \<Longrightarrow> ?thesis" by (cases p) simp_all
qed

lemma interfered_kind:
  "(\<exists>p'. fst (interfered s gs (TCreate p) w) = TCreate p') \<and> (\<exists>q'. fst (interfered s gs (TEvent q) w) = TEvent q')"
  by (induction gs arbitrary: p q w) (auto simp: split_beta)

text \<open>A run by a schedule: which thread steps next.\<close>

fun schedule ::
  "'x world_scheme server \<Rightarrow> nat list \<Rightarrow> thread list \<times> 'x world_scheme \<Rightarrow> thread list \<times> 'x world_scheme" where
  "schedule s [] tw = tw"
| "schedule s (i # is) (ts, w) =
     (if i < length ts then (let (t, w1) = thread_step s (ts ! i) w in schedule s is (ts[i := t], w1))
      else schedule s is (ts, w))"

lemma schedule_conc: "(conc_step h x c s)\<^sup>*\<^sup>* tw (schedule s is tw)"
proof (induction s "is" tw rule: schedule.induct)
  case (1 s tw)
  then show ?case by simp
next
  case (2 s i "is" ts w)
  obtain t w1 where st: "thread_step s (ts ! i) w = (t, w1)" by (metis prod.exhaust)
  show ?case
  proof (cases "i < length ts")
    case True
    with conc_step.advance [OF True st, of h x c] 2 st show ?thesis by (auto intro: converse_rtranclp_into_rtranclp)
  next
    case False
    with 2 show ?thesis by simp
  qed
qed

subsection \<open>Two final events in flight\<close>

text \<open>A thread that is left alone for a while.\<close>

lemma conc_alone:
  assumes "i < length ts" and "ts ! i = TEvent p" and "iterate n (event_step s) p w = (p', w')"
  shows "(conc_step h x c s)\<^sup>*\<^sup>* (ts, w) (ts[i := TEvent p'], w')"
  using assms
proof (induction n arbitrary: ts p w)
  case 0
  then have "ts[i := TEvent p'] = ts" by (metis list_update_id iterate.simps(1) prod.inject)
  with 0 show ?case by simp
next
  case (Suc n)
  obtain p1 w1 where st: "event_step s p w = (p1, w1)" by (metis prod.exhaust)
  from Suc.prems st have run: "iterate n (event_step s) p1 w1 = (p', w')" by simp
  have one: "conc_step h x c s (ts, w) (ts[i := TEvent p1], w1)"
    by (rule conc_step.advance) (use Suc.prems st in simp_all)
  have "(conc_step h x c s)\<^sup>*\<^sup>* (ts[i := TEvent p1], w1) ((ts[i := TEvent p1])[i := TEvent p'], w')"
    by (rule Suc.IH [OF _ _ run]) (use Suc.prems in simp_all)
  with one show ?case by (simp add: converse_rtranclp_into_rtranclp)
qed

text \<open>Past the check of its token the machine stores its event whatever has become of the token.\<close>

lemma iterate_identified:
  "iterate 5 (event_step s) (EIdentify req hash) w = (let (resp, w1) = store_event (sv_store s) req w in (EDone resp, w1))"
proof -
  obtain i w1 where gen: "(if cer_ID req = [] then generateID ''evt'' w else (cer_ID req, w)) = (i, w1)"
    by (metis prod.exhaust)
  obtain now w2 where clock: "with_host Now w1 = (now, w2)" by (metis prod.exhaust)
  have five: "iterate 5 f p v = (let (p1, v1) = f p v; (p2, v2) = f p1 v1 in iterate 3 f p2 v2)"
    for f and p :: event_pc and v
    by (simp add: eval_nat_numeral split_beta)
  from gen clock show ?thesis
    by (auto simp: five store_event_def iterate_append event_accepted_def Let_def simp del: iterate.simps
        split: option.splits prod.splits)
qed

lemma token_checked:
  assumes "wired s" and "sys_wf w" and "sys_up w" and "token_valid (sys_view w) (cer_TaskID req) hash"
  shows "\<exists>w1. event_step s (EVerify req hash) w = (EIdentify req hash, w1) \<and>
    sys_wf w1 \<and> sys_up w1 \<and> sys_view w1 = sys_view w"
proof -
  obtain ok w1 where ver: "VerifyAgentToken sys_store (cer_TaskID req) hash w = (ok, w1)" by (metis prod.exhaust)
  from sys.verify_token [OF assms(2) ver] sys.live_verify [OF assms(3) ver] assms(4) ver show ?thesis
    by (auto simp: wired_store [OF assms(1)])
qed

text \<open>An event that the schema has no reason to refuse.\<close>

definition storable :: "abs_store \<Rightarrow> create_event_request \<Rightarrow> bool" where
  "storable a req \<longleftrightarrow>
     as_tasks a (cer_TaskID req) \<noteq> None \<and> cer_Payload req \<noteq> None \<and> cer_ID req \<noteq> [] \<and> as_events a (cer_ID req) = None"

lemma final_event_stored:
  assumes "wired s" and "sys_wf w" and "sys_up w" and "storable (sys_view w) req"
    and "event_transition (cer_Type req) = Some (state, terminal)"
    and "store_event (sv_store s) req w = (resp, w')"
  shows "rs_Status resp = StatusCreated \<and> sys_wf w' \<and> sys_up w' \<and>
    (\<exists>e. e_TaskID e = cer_TaskID req \<and> e_Type e = cer_Type req \<and>
       as_events (sys_view w') = (as_events (sys_view w))(cer_ID req \<mapsto> e)) \<and>
    (\<exists>t. as_tasks (sys_view w') (cer_TaskID req) = Some t \<and> t_State t = state)"
proof -
  have "cer_Type req \<in> set event_types"
    using assms(5) by (auto simp: event_transition_def event_types_def go_consts split: if_splits)
  with store_event_accepted [OF assms(1-3) _ _ _ _ _ assms(6)] assms(4)
  have ok: "rs_Status resp = StatusCreated" by (simp add: storable_def)
  note live = task_service.store_event_live [OF wired_service [OF assms(1)] assms(2,3,6)]
  with ok assms(4) obtain e where e: "e_TaskID e = cer_TaskID req" "e_Type e = cer_Type req"
    "event_recorded (cer_ID req) e (sys_view w) (sys_view w')" by (auto simp: storable_def go_consts)
  then have fin: "finalized (cer_TaskID req) (cer_Type req)
      ((sys_view w)\<lparr>as_events := (as_events (sys_view w))(cer_ID req \<mapsto> e)\<rparr>) (sys_view w')"
    by (simp add: event_recorded_def)
  from finalized_events [OF fin] have "as_events (sys_view w') = (as_events (sys_view w))(cer_ID req \<mapsto> e)" by simp
  moreover have "\<exists>t. as_tasks (sys_view w') (cer_TaskID req) = Some t \<and> t_State t = state"
    using finalized_task(1) [OF fin assms(5)] by force
  moreover have "sys_wf w'" "sys_up w'" using live by auto
  ultimately show ?thesis using ok e by blast
qed

lemma event_start_verify:
  "agent_bearer r = Some tok \<Longrightarrow> cd_event c (rq_Body r) = Inr req \<Longrightarrow> cer_TaskID req \<noteq> [] \<Longrightarrow>
     event_start c r = EVerify req (Sum256 tok)"
  by (auto simp: event_start_def agent_bearer_def Let_def split: if_splits)

text \<open>Two machines that have both checked the token, and then run one after the other.\<close>

lemma both_checked:
  assumes "wired s" and "sys_wf w" and "sys_up w"
    and "token_valid (sys_view w) (cer_TaskID q1) (Sum256 tok)" and "token_valid (sys_view w) (cer_TaskID q2) (Sum256 tok)"
    and "agent_bearer r1 = Some tok" and "cd_event c (rq_Body r1) = Inr q1" and "cer_TaskID q1 \<noteq> []"
    and "agent_bearer r2 = Some tok" and "cd_event c (rq_Body r2) = Inr q2" and "cer_TaskID q2 \<noteq> []"
  shows "\<exists>w2. (conc_step h x c s)\<^sup>*\<^sup>* ([], w) ([TEvent (EIdentify q1 (Sum256 tok)), TEvent (EIdentify q2 (Sum256 tok))], w2) \<and>
    sys_wf w2 \<and> sys_up w2 \<and> sys_view w2 = sys_view w"
proof -
  let ?v1 = "TEvent (EVerify q1 (Sum256 tok))" and ?v2 = "TEvent (EVerify q2 (Sum256 tok))"
  let ?i1 = "TEvent (EIdentify q1 (Sum256 tok))" and ?i2 = "TEvent (EIdentify q2 (Sum256 tok))"
  from token_checked [OF assms(1-4)] obtain w1 where 1: "event_step s (EVerify q1 (Sum256 tok)) w = (EIdentify q1 (Sum256 tok), w1)"
    "sys_wf w1" "sys_up w1" "sys_view w1 = sys_view w" by blast
  from token_checked [OF assms(1) 1(2,3), of q2 "Sum256 tok"] 1(4) assms(5)
  obtain w2 where 2: "event_step s (EVerify q2 (Sum256 tok)) w1 = (EIdentify q2 (Sum256 tok), w2)"
    "sys_wf w2" "sys_up w2" "sys_view w2 = sys_view w" by auto
  have "conc_step h x c s ([], w) ([?v1], w)"
    using conc_step.arrive_event [of h x c s "[]" w r1] event_start_verify [OF assms(6-8)] by simp
  moreover have "conc_step h x c s ([?v1], w) ([?v1, ?v2], w)"
    using conc_step.arrive_event [of h x c s "[?v1]" w r2] event_start_verify [OF assms(9-11)] by simp
  moreover have "conc_step h x c s ([?v1, ?v2], w) ([?i1, ?v2], w1)"
    using conc_step.advance [of 0 "[?v1, ?v2]" s w ?i1 w1] 1(1) by simp
  moreover have "conc_step h x c s ([?i1, ?v2], w1) ([?i1, ?i2], w2)"
    using conc_step.advance [of 1 "[?i1, ?v2]" s w1 ?i2 w2] 2(1) by simp
  ultimately have "(conc_step h x c s)\<^sup>*\<^sup>* ([], w) ([?i1, ?i2], w2)"
    by (meson converse_rtranclp_into_rtranclp rtranclp.rtrancl_refl)
  with 2 show ?thesis by blast
qed

subsection \<open>Concrete schedules\<close>

text \<open>Two final events of one task, told apart by their bodies.\<close>

definition ex_two_codec :: codec where
  "ex_two_codec =
     \<lparr>cd_task = (\<lambda>b. Inr (ex_create ''local'')),
      cd_event = (\<lambda>b. Inr (if br_data b = [] then
          \<lparr>cer_ID = ''e1'', cer_TaskID = ''t1'', cer_Type = ''task.completed'', cer_Payload = Some []\<rparr>
        else \<lparr>cer_ID = ''e2'', cer_TaskID = ''t1'', cer_Type = ''task.failed'', cer_Payload = Some []\<rparr>)),
      cd_rfc3339 = (\<lambda>s. None)\<rparr>"

definition ex_finals :: "thread list" where
  "ex_finals = map (\<lambda>b. TEvent (event_start ex_two_codec ((ex_bearer ''tok'')\<lparr>rq_Body := \<lparr>br_data = b, br_err = None\<rparr>\<rparr>))) [[], ''x'']"

lemma ex_two_finals:
  "\<exists>r1 r2 w. schedule (ex_server None) [0, 1, 0, 0, 0, 0, 0, 1, 1, 1, 1, 1] (ex_finals, ex_tables ex_task [ex_token ''tok'']) =
     ([TEvent (EDone r1), TEvent (EDone r2)], w) \<and> rs_Status r1 = StatusCreated \<and> rs_Status r2 = StatusCreated \<and>
     map e_Type (pg_events (sy_pg w)) = [''task.completed'', ''task.failed''] \<and> map t_State (pg_tasks (sy_pg w)) = [''failed'']"
  by (simp add: ex_finals_def event_start_def ex_bearer_def ex_http_def ex_two_codec_def ex_tables_def ex_token_def ex_task_def
      ex_state_simps ex_store_simps pg_VerifyAgentToken_def pg_AppendEvent_def insert_event_stmt_def
      event_transition_def event_types_def writeJSON_def with_host_def Now_def event_accepted_def
      sys_server_def NewServer_def Let_def ConstantTimeEq_def update_by_Cons go_consts)

text \<open>A creation and the completion of its task, under the token the creation has drawn.\<close>

definition ex_race_codec :: codec where
  "ex_race_codec =
     (ex_codec ''task.completed'')\<lparr>cd_event := (\<lambda>b. Inr \<lparr>cer_ID = ''e1'', cer_TaskID = fst (generateID ''task'' ex_system),
        cer_Type = ''task.completed'', cer_Payload = Some []\<rparr>)\<rparr>"

definition ex_race :: "thread list" where
  "ex_race = [TCreate (CLookup (ex_create ''local'')), TEvent (event_start ex_race_codec (ex_bearer (token_at ex_host 12)))]"

lemma ex_overwritten:
  "\<exists>res resp w. schedule (ex_server None) [0, 0, 0, 0, 0, 0, 0, 1, 1, 1, 1, 1, 1, 0] (ex_race, ex_system) =
     ([TCreate (CDone (Inr res)), TEvent (EDone resp)], w) \<and> rs_Status resp = StatusCreated \<and>
     map t_State (pg_tasks (sy_pg w)) = [''running''] \<and> map tk_revoked (pg_tokens (sy_pg w)) = [True] \<and>
     map e_Type (pg_events (sy_pg w)) = [''task.completed'']"
  by (simp add: ex_race_def event_start_def ex_bearer_def ex_http_def ex_race_codec_def ex_codec_def token_at_def
      ex_pipeline_simps ex_state_simps ex_store_simps pg_VerifyAgentToken_def pg_AppendEvent_def insert_event_stmt_def
      event_transition_def event_types_def writeJSON_def event_accepted_def local_runtime_def Local_Dispatch_def
      local_admits_def local_spawn_def maxConcurrency_def local_started_def first_result_def
      ConstantTimeEq_def update_by_Cons upsert_by_def rand_bytes_def go_consts)

lemma ex_finals_run:
  "(conc_step h x ex_two_codec s)\<^sup>*\<^sup>* ([], w) (schedule s is (ex_finals, w))"
proof -
  let ?t = "\<lambda>b. TEvent (event_start ex_two_codec ((ex_bearer ''tok'')\<lparr>rq_Body := \<lparr>br_data = b, br_err = None\<rparr>\<rparr>))"
  have "conc_step h x ex_two_codec s ([], w) ([] @ [?t []], w)" by (rule conc_step.arrive_event)
  moreover have "conc_step h x ex_two_codec s ([?t []], w) ([?t []] @ [?t ''x''], w)" by (rule conc_step.arrive_event)
  ultimately have "(conc_step h x ex_two_codec s)\<^sup>*\<^sup>* ([], w) (ex_finals, w)" by (simp add: ex_finals_def)
  then show ?thesis using schedule_conc by (rule rtranclp_trans)
qed

lemma ex_race_run:
  "(conc_step h x ex_race_codec s)\<^sup>*\<^sup>* ([], w) (schedule s is (ex_race, w))"
proof -
  have "conc_step h x ex_race_codec s ([], w) ([] @ [TCreate (CLookup (ex_create ''local''))], w)"
    by (rule conc_step.arrive_create)
  moreover have "conc_step h x ex_race_codec s ([TCreate (CLookup (ex_create ''local''))], w) (ex_race, w)"
    using conc_step.arrive_event [of h x ex_race_codec s "[TCreate (CLookup (ex_create ''local''))]" w] by (simp add: ex_race_def)
  ultimately have "(conc_step h x ex_race_codec s)\<^sup>*\<^sup>* ([], w) (ex_race, w)" by simp
  then show ?thesis using schedule_conc by (rule rtranclp_trans)
qed

end
