(* ===== verification/Go_Time.thy ===== *)
theory Go_Time
  imports Go_Std "HOL-Library.Monad_Syntax"
begin

text \<open>
  Dates as text: what the source uses of package \<open>time\<close>. \<open>router.go\<close> parses the parameter
  \<open>since\<close> with the layout \<open>RFC3339\<close>, and \<open>encoding/json\<close> prints every date of an answer in the
  same form. A \<open>go_time\<close> is the number of nanoseconds since 1970; the calendar is the Gregorian
  one in both directions of time.
\<close>

subsection \<open>The calendar\<close>

definition is_leap :: "int \<Rightarrow> bool" where
  "is_leap y \<longleftrightarrow> y mod 4 = 0 \<and> (y mod 100 \<noteq> 0 \<or> y mod 400 = 0)"

definition month_days :: "int \<Rightarrow> int list" where
  "month_days y = [31, if is_leap y then 29 else 28, 31, 30, 31, 30, 31, 31, 30, 31, 30, 31]"

definition days_in :: "int \<Rightarrow> int \<Rightarrow> int" where
  "days_in m y = month_days y ! nat (m - 1)"

text \<open>Days from the first of January of year 1.\<close>

definition year_start :: "int \<Rightarrow> int" where
  "year_start y = (let p = y - 1 in 365 * p + p div 4 - p div 100 + p div 400)"

definition unix_day :: "int \<Rightarrow> int \<Rightarrow> int \<Rightarrow> int" where
  "unix_day y m d = year_start y + sum_list (take (nat (m - 1)) (month_days y)) + (d - 1) - 719162"

definition date_ns :: "int \<Rightarrow> int \<Rightarrow> int \<Rightarrow> int \<Rightarrow> int \<Rightarrow> int \<Rightarrow> int \<Rightarrow> go_time" where
  "date_ns y m d hour minute sec ns =
     (unix_day y m d * 86400 + hour * 3600 + minute * 60 + sec) * 1000000000 + ns"

text \<open>Back: cycles of 400, 100, 4 and 1 years, the last of each possibly longer by a day.\<close>

definition civil_year :: "int \<Rightarrow> int \<times> int" where
  "civil_year d =
     (let n400 = d div 146097; r400 = d mod 146097;
          n100 = min (r400 div 36524) 3; r100 = r400 - 36524 * n100;
          n4 = r100 div 1461; r4 = r100 mod 1461;
          n1 = min (r4 div 365) 3
      in (400 * n400 + 100 * n100 + 4 * n4 + n1 + 1, r4 - 365 * n1))"

fun month_day :: "int list \<Rightarrow> int \<Rightarrow> int \<Rightarrow> int \<times> int" where
  "month_day [] m k = (m, k + 1)"
| "month_day (n # ns) m k = (if k < n then (m, k + 1) else month_day ns (m + 1) (k - n))"

definition civil :: "int \<Rightarrow> int \<times> int \<times> int" where
  "civil day = (let (y, k) = civil_year (day + 719162) in (y, month_day (month_days y) 1 k))"

subsection \<open>Parsing\<close>

text \<open>
  \<open>time.Parse\<close> with the layout \<open>2006-01-02T15:04:05Z07:00\<close>. The hour may have one digit, and
  a fraction may follow the seconds although the layout has none, after a point or a comma;
  digits beyond the ninth are dropped. \<open>None\<close> stands for every error.
\<close>

definition getnum :: "bool \<Rightarrow> string \<Rightarrow> (int \<times> string) option" where
  "getnum fixed s =
     (case s of
        [] \<Rightarrow> None
      | a # s1 \<Rightarrow>
          (case digit_val a of
             None \<Rightarrow> None
           | Some m \<Rightarrow>
               (case (case s1 of [] \<Rightarrow> None | b # s2 \<Rightarrow> map_option (\<lambda>n. (n, s2)) (digit_val b)) of
                  Some (n, s2) \<Rightarrow> Some (int (10 * m + n), s2)
                | None \<Rightarrow> if fixed then None else Some (int m, s1))))"

fun skip_char :: "char \<Rightarrow> string \<Rightarrow> string option" where
  "skip_char c [] = None"
| "skip_char c (d # s) = (if d = c then Some s else None)"

definition in_range :: "int \<Rightarrow> int \<Rightarrow> int \<Rightarrow> unit option" where
  "in_range lo hi n = (if lo \<le> n \<and> n \<le> hi then Some () else None)"

definition parse_year :: "string \<Rightarrow> (int \<times> string) option" where
  "parse_year s =
     (if length s < 4 then None else map_option (\<lambda>n. (int n, drop 4 s)) (digits_val 0 (take 4 s)))"

definition is_digit :: "char \<Rightarrow> bool" where
  "is_digit c \<longleftrightarrow> digit_val c \<noteq> None"

definition fraction_ns :: "string \<Rightarrow> int" where
  "fraction_ns ds =
     (let us = take 9 ds in
      case digits_val 0 us of None \<Rightarrow> 0 | Some n \<Rightarrow> int n * 10 ^ (9 - length us))"

definition parse_fraction :: "string \<Rightarrow> int \<times> string" where
  "parse_fraction s =
     (case s of
        p # d # s1 \<Rightarrow>
          if (p = CHR ''.'' \<or> p = CHR '','') \<and> is_digit d
          then (fraction_ns (takeWhile is_digit (d # s1)), dropWhile is_digit (d # s1))
          else (0, s)
      | _ \<Rightarrow> (0, s))"

definition parse_zone :: "string \<Rightarrow> (int \<times> string) option" where
  "parse_zone s =
     (if s \<noteq> [] \<and> hd s = CHR ''Z'' then Some (0, tl s)
      else if length s < 6 \<or> s ! 3 \<noteq> CHR '':'' then None
      else do {
        (hr, _) \<leftarrow> getnum True (take 2 (drop 1 s));
        (mm, _) \<leftarrow> getnum True (take 2 (drop 4 s));
        in_range 0 24 hr;
        in_range 0 60 mm;
        (let offset = (hr * 60 + mm) * 60 in
         if hd s = CHR ''+'' then Some (offset, drop 6 s)
         else if hd s = CHR ''-'' then Some (- offset, drop 6 s)
         else None)
      })"

definition Parse_RFC3339 :: "string \<Rightarrow> go_time option" where
  "Parse_RFC3339 s = do {
     (year, s) \<leftarrow> parse_year s;
     s \<leftarrow> skip_char (CHR ''-'') s;
     (month, s) \<leftarrow> getnum True s;
     in_range 1 12 month;
     s \<leftarrow> skip_char (CHR ''-'') s;
     (day, s) \<leftarrow> getnum True s;
     s \<leftarrow> skip_char (CHR ''T'') s;
     (hour, s) \<leftarrow> getnum False s;
     in_range 0 23 hour;
     s \<leftarrow> skip_char (CHR '':'') s;
     (minute, s) \<leftarrow> getnum True s;
     in_range 0 59 minute;
     s \<leftarrow> skip_char (CHR '':'') s;
     (sec, s) \<leftarrow> getnum True s;
     in_range 0 59 sec;
     (let (ns, s) = parse_fraction s in do {
        (offset, s) \<leftarrow> parse_zone s;
        in_range 1 (days_in month year) day;
        (if s = [] then Some (date_ns year month day hour minute sec ns - offset * 1000000000) else None)
      })
   }"

subsection \<open>Printing\<close>

text \<open>A number with leading zeros, and the digits of a fraction without the last zeros.\<close>

fun pad :: "nat \<Rightarrow> nat \<Rightarrow> string" where
  "pad 0 n = []"
| "pad (Suc k) n = pad k (n div 10) @ [digit_char (n mod 10)]"

definition fraction_text :: "int \<Rightarrow> string" where
  "fraction_text ns =
     (if ns = 0 then [] else CHR ''.'' # rev (dropWhile (\<lambda>c. c = CHR ''0'') (rev (pad 9 (nat ns)))))"

definition zone_text :: "int \<Rightarrow> string" where
  "zone_text offset =
     (if offset = 0 then ''Z''
      else let z = nat (\<bar>offset\<bar> div 60) in
        (if offset < 0 then CHR ''-'' else CHR ''+'') # pad 2 (z div 60) @ '':'' @ pad 2 (z mod 60))"

text \<open>
  The text of a time in JSON, in a zone that is ahead of UTC by so many seconds. A year that
  does not have four digits has no such text.
\<close>

definition rfc3339_text :: "(go_time \<Rightarrow> int) \<Rightarrow> go_time \<Rightarrow> string" where
  "rfc3339_text zone t =
     (let offset = zone t; local = t + offset * 1000000000;
          secs = local div 1000000000; ns = local mod 1000000000;
          sod = secs mod 86400; (y, m, d) = civil (secs div 86400)
      in if y < 0 \<or> 9999 < y then []
         else pad 4 (nat y) @ ''-'' @ pad 2 (nat m) @ ''-'' @ pad 2 (nat d) @ ''T'' @
           pad 2 (nat (sod div 3600)) @ '':'' @ pad 2 (nat (sod div 60 mod 60)) @ '':'' @
           pad 2 (nat (sod mod 60)) @ fraction_text ns @ zone_text offset)"

subsection \<open>The calendar, there and back\<close>

lemma unix_epoch: "unix_day 1970 1 1 = 0"
  by code_simp

text \<open>The quotients are the digits of the number of years before.\<close>

lemma div_digit: "0 \<le> r \<Longrightarrow> r < n \<Longrightarrow> (n * q + r) div n = (q :: int)"
  by simp

lemma mod_digit: "0 \<le> r \<Longrightarrow> r < n \<Longrightarrow> (n * q + r) mod n = (r :: int)"
  by simp

lemma cycle_quotients:
  fixes a b c e :: int
  assumes "0 \<le> b" "b \<le> 3" "0 \<le> c" "c \<le> 24" "0 \<le> e" "e \<le> 3"
  shows "(400 * a + 100 * b + 4 * c + e) div 4 = 100 * a + 25 * b + c"
    and "(400 * a + 100 * b + 4 * c + e) div 100 = 4 * a + b"
    and "(400 * a + 100 * b + 4 * c + e) div 400 = a"
proof -
  have 4: "400 * a + 100 * b + 4 * c + e = 4 * (100 * a + 25 * b + c) + e" by simp
  show "(400 * a + 100 * b + 4 * c + e) div 4 = 100 * a + 25 * b + c"
    unfolding 4 by (rule div_digit) (use assms in linarith)+
  have 100: "400 * a + 100 * b + 4 * c + e = 100 * (4 * a + b) + (4 * c + e)" by simp
  show "(400 * a + 100 * b + 4 * c + e) div 100 = 4 * a + b"
    unfolding 100 by (rule div_digit) (use assms in linarith)+
  have 400: "400 * a + 100 * b + 4 * c + e = 400 * a + (100 * b + 4 * c + e)" by simp
  show "(400 * a + 100 * b + 4 * c + e) div 400 = a"
    unfolding 400 by (rule div_digit) (use assms in linarith)+
qed

lemma is_leap_last:
  fixes a b c :: int
  assumes "0 \<le> c" and "c \<le> 24" and "c = 24 \<longrightarrow> b = 3"
  shows "is_leap (400 * a + 100 * b + 4 * c + 4)" (is "is_leap ?y")
proof -
  have "?y = 4 * (100 * a + 25 * b + c + 1) + 0" by simp
  then have 4: "?y mod 4 = 0" by (metis mod_digit order_refl zero_less_numeral)
  show ?thesis
  proof (cases "c = 24")
    case True
    then have "?y = 400 * (a + 1) + 0" using assms(3) by simp
    then have "?y mod 400 = 0" by (metis mod_digit order_refl zero_less_numeral)
    with 4 show ?thesis by (simp only: is_leap_def) simp
  next
    case False
    have "?y = 100 * (4 * a + b) + (4 * c + 4)" by simp
    moreover have "0 \<le> 4 * c + 4" "4 * c + 4 < 100" using assms False by linarith+
    ultimately have "?y mod 100 = 4 * c + 4" by (metis mod_digit)
    with assms(1) have "?y mod 100 \<noteq> 0" by linarith
    with 4 show ?thesis unfolding is_leap_def by blast
  qed
qed

text \<open>A quotient that may not reach \<open>n\<close>, and what is left.\<close>

lemma capped_quotient:
  fixes x q m n :: int
  assumes "0 \<le> x" and "0 < m" and "0 \<le> n" and "q = min (x div m) n"
  shows "0 \<le> q" and "q \<le> n" and "0 \<le> x - m * q" and "q < n \<Longrightarrow> x - m * q < m"
proof -
  have "m * (x div m) + x mod m = x" "0 \<le> x mod m" "x mod m < m" "0 \<le> x div m"
    using assms(1,2) by (simp_all add: pos_imp_zdiv_nonneg_iff)
  moreover have "m * q \<le> m * (x div m)" unfolding assms(4) using assms(2) by (intro mult_left_mono) auto
  ultimately show "0 \<le> q" "q \<le> n" "0 \<le> x - m * q" using assms(3,4) by linarith+
  assume "q < n"
  then have "q = x div m" using assms(4) by simp
  with \<open>m * (x div m) + x mod m = x\<close> \<open>x mod m < m\<close> show "x - m * q < m" by (metis add_diff_cancel_left')
qed

lemma civil_year_spec:
  assumes "civil_year d = (y, k)"
  shows "year_start y + k = d" and "0 \<le> k" and "k < 365 + (if is_leap y then 1 else 0)"
proof -
  define a r b r1 c r2 e where def: "a = d div 146097" "r = d mod 146097" "b = min (r div 36524) 3" "r1 = r - 36524 * b"
    "c = r1 div 1461" "r2 = r1 mod 1461" "e = min (r2 div 365) 3"
  from assms have y: "y = 400 * a + 100 * b + 4 * c + e + 1" and k: "k = r2 - 365 * e"
    by (simp_all add: civil_year_def Let_def def)
  have r: "d = 146097 * a + r" "0 \<le> r" "r < 146097" by (simp_all add: def(1,2))
  have b: "0 \<le> b" "b \<le> 3" "0 \<le> r1" "b < 3 \<Longrightarrow> r1 < 36524"
    using capped_quotient [OF r(2) _ _ def(3)] unfolding def(4) by simp_all
  have r1: "r1 \<le> 36524" "r1 = 36524 \<longrightarrow> b = 3" using b(2,4) r(3) def(4) by (cases "b < 3"; simp)+
  have c: "r1 = 1461 * c + r2" "0 \<le> r2" "r2 < 1461" by (simp_all add: def(5,6))
  have c24: "0 \<le> c" "c \<le> 24" using b(3) r1(1) c by linarith+
  have e: "0 \<le> e" "e \<le> 3" "0 \<le> k" "e < 3 \<Longrightarrow> k < 365"
    using capped_quotient [OF c(2) _ _ def(7)] unfolding k by simp_all
  show "0 \<le> k" by (rule e(3))
  have "year_start y = 365 * (400 * a + 100 * b + 4 * c + e) + (100 * a + 25 * b + c) - (4 * a + b) + a"
    using cycle_quotients [OF b(1,2) c24 e(1,2), of a] by (simp add: year_start_def y)
  then show "year_start y + k = d" using r(1) c(1) def(4) k by simp
  show "k < 365 + (if is_leap y then 1 else 0)"
  proof (cases "k < 365")
    case False
    then have e3: "e = 3" using e(2,4) by linarith
    then have "r2 = 1460" "k = 365" using k c(3) False by linarith+
    then have "c = 24 \<longrightarrow> b = 3" using r1(2) c(1) by auto
    moreover have "y = 400 * a + 100 * b + 4 * c + 4" using y e3 by simp
    ultimately have "is_leap y" using is_leap_last [OF c24] by blast
    with \<open>k = 365\<close> show ?thesis by simp
  qed simp
qed

lemma month_day_spec:
  assumes "month_day ns m k = (m', d)" and "0 \<le> k" and "k < sum_list ns"
  shows "\<exists>j < length ns. m' = m + int j \<and> sum_list (take j ns) + (d - 1) = k \<and> 1 \<le> d \<and> d \<le> ns ! j"
  using assms
proof (induction ns m k arbitrary: m' d rule: month_day.induct)
  case (1 m k)
  then show ?case by simp
next
  case (2 n ns m k)
  show ?case
  proof (cases "k < n")
    case True
    with 2(2,3) show ?thesis by (intro exI [of _ 0]) auto
  next
    case False
    with 2 obtain j where "j < length ns" "m' = m + 1 + int j" "sum_list (take j ns) + (d - 1) = k - n" "1 \<le> d" "d \<le> ns ! j"
      by fastforce
    then show ?thesis by (intro exI [of _ "Suc j"]) auto
  qed
qed

lemma sum_month_days: "sum_list (month_days y) = 365 + (if is_leap y then 1 else 0)"
  by (simp add: month_days_def)

lemma civil_spec:
  assumes "civil day = (y, m, d)"
  shows "unix_day y m d = day" and "1 \<le> m" and "m \<le> 12" and "1 \<le> d" and "d \<le> days_in m y"
proof -
  obtain k where y: "civil_year (day + 719162) = (y, k)" and md: "month_day (month_days y) 1 k = (m, d)"
    using assms by (auto simp: civil_def split: prod.splits)
  note spec = civil_year_spec [OF y]
  from month_day_spec [OF md spec(2)] spec(3) obtain j where j: "j < length (month_days y)" "m = 1 + int j"
    "sum_list (take j (month_days y)) + (d - 1) = k" "1 \<le> d" "d \<le> month_days y ! j"
    by (auto simp: sum_month_days)
  have len: "length (month_days y) = 12" by (simp add: month_days_def)
  have nat: "nat (m - 1) = j" using j(2) by simp
  show "unix_day y m d = day" using spec(1) j(3) by (simp add: unix_day_def nat)
  show "1 \<le> m" "m \<le> 12" "1 \<le> d" "d \<le> days_in m y" using j len by (simp_all add: days_in_def nat)
qed

subsection \<open>What is printed is read back\<close>

lemma length_pad [simp]: "length (pad k n) = k"
  by (induction k arbitrary: n) simp_all

lemma digits_val_pad: "n < 10 ^ k \<Longrightarrow> digits_val acc (pad k n) = Some (acc * 10 ^ k + n)"
proof (induction k arbitrary: n)
  case (Suc k)
  have "n div 10 < 10 ^ k" using Suc.prems by (simp add: less_mult_imp_div_less)
  with Suc.IH show ?case by (simp add: digits_val_snoc digit_val_char)
qed simp

lemma pad_digits: "list_all is_digit (pad k n)"
  by (induction k arbitrary: n) (simp_all add: is_digit_def digit_val_char)

lemma pad_2: "n < 100 \<Longrightarrow> pad 2 n = [digit_char (n div 10), digit_char (n mod 10)]"
  by (simp add: numeral_2_eq_2)

lemma getnum_pad: "n < 100 \<Longrightarrow> getnum fixed (pad 2 n @ s) = Some (int n, s)"
  by (simp add: pad_2 getnum_def digit_val_char of_nat_div of_nat_mod)

lemma parse_year_pad: "n < 10000 \<Longrightarrow> parse_year (pad 4 n @ s) = Some (int n, s)"
  by (simp add: parse_year_def digits_val_pad)

text \<open>A fraction: the zeros that are not printed do not count.\<close>

lemma strip_zeros:
  "xs = rev (dropWhile (\<lambda>c. c = z) (rev xs)) @ replicate (length (takeWhile (\<lambda>c. c = z) (rev xs))) z"
proof -
  have "takeWhile (\<lambda>c. c = z) (rev xs) = replicate (length (takeWhile (\<lambda>c. c = z) (rev xs))) z"
    by (metis (mono_tags) replicate_length_same set_takeWhileD)
  then have "rev xs = replicate (length (takeWhile (\<lambda>c. c = z) (rev xs))) z @ dropWhile (\<lambda>c. c = z) (rev xs)"
    by (metis takeWhile_dropWhile_id)
  then show ?thesis by (metis rev_append rev_replicate rev_rev_ident)
qed

lemma digits_val_zeros:
  "digits_val acc (xs @ replicate k CHR ''0'') = map_option (\<lambda>n. n * 10 ^ k) (digits_val acc xs)"
proof (induction k)
  case (Suc k)
  have "xs @ replicate (Suc k) CHR ''0'' = (xs @ replicate k CHR ''0'') @ [CHR ''0'']"
    by (simp add: replicate_append_same)
  moreover have "digit_val CHR ''0'' = Some 0" by (simp add: digit_val_def Let_def)
  ultimately show ?case using Suc.IH by (cases "digits_val acc xs") (simp_all only: digits_val_snoc, simp_all)
qed (simp add: option.map_id0 [unfolded id_def])

lemma parse_fraction_text:
  assumes "0 \<le> ns" and "ns < 1000000000" and "z \<noteq> []" and "hd z \<notin> {CHR ''.'', CHR '',''}" and "\<not> is_digit (hd z)"
  shows "parse_fraction (fraction_text ns @ z) = (ns, z)"
proof (cases "ns = 0")
  case True
  with assms(3,4) show ?thesis
    by (auto simp: fraction_text_def parse_fraction_def neq_Nil_conv split: list.split)
next
  case False
  let ?p = "pad 9 (nat ns)"
  define ds k where "ds = rev (dropWhile (\<lambda>c. c = CHR ''0'') (rev ?p))"
    and "k = length (takeWhile (\<lambda>c. c = CHR ''0'') (rev ?p))"
  have p: "?p = ds @ replicate k CHR ''0''" unfolding ds_def k_def by (rule strip_zeros)
  have val: "digits_val 0 ?p = Some (nat ns)" using digits_val_pad [of "nat ns" 9 0] assms(2) by simp
  then obtain m where m: "digits_val 0 ds = Some m" "nat ns = m * 10 ^ k"
    unfolding p digits_val_zeros by auto
  have len: "length ds + k = 9" using p by (metis length_append length_pad length_replicate)
  have "ds \<noteq> []" using m False assms(1) by auto
  then obtain d ds' where d: "ds = d # ds'" by (cases ds) auto
  have dig: "list_all is_digit ds" using pad_digits [of 9 "nat ns"] by (simp add: p)
  have "takeWhile is_digit (ds @ z) = ds" "dropWhile is_digit (ds @ z) = z"
    using dig assms(3,5) by (simp_all add: takeWhile_append dropWhile_append list_all_iff neq_Nil_conv) auto
  moreover have "fraction_ns ds = ns"
    using m len assms(1) by (simp add: fraction_ns_def) (metis diff_add_inverse int_nat_eq of_nat_mult of_nat_numeral of_nat_power)
  ultimately show ?thesis using False dig d
    by (simp add: fraction_text_def parse_fraction_def flip: ds_def)
qed

lemma zone_head: "zone_text off \<noteq> [] \<and> hd (zone_text off) \<in> {CHR ''Z'', CHR ''+'', CHR ''-''}"
  by (simp add: zone_text_def Let_def)

lemma parse_zone_text:
  assumes "off mod 60 = 0" and "\<bar>off\<bar> < 86400"
  shows "parse_zone (zone_text off) = Some (off, [])"
proof (cases "off = 0")
  case True
  then show ?thesis by (simp add: zone_text_def parse_zone_def)
next
  case False
  define z where "z = nat (\<bar>off\<bar> div 60)"
  have "\<bar>off\<bar> mod 60 = 0" using assms(1) by presburger
  then have z: "z < 1440" "int z * 60 = \<bar>off\<bar>" using assms(2) by (auto simp: z_def)
  then have d: "z div 60 < 24" "z mod 60 < 60" by auto
  have num: "getnum True (pad 2 (z div 60)) = Some (int (z div 60), [])" "getnum True (pad 2 (z mod 60)) = Some (int (z mod 60), [])"
    using d getnum_pad [of "z div 60" True "[]"] getnum_pad [of "z mod 60" True "[]"] by simp_all
  have "(int (z div 60) * 60 + int (z mod 60)) * 60 = \<bar>off\<bar>"
    using z(2) by (metis div_mult_mod_eq of_nat_add of_nat_mult of_nat_numeral)
  moreover obtain a b where ab: "pad 2 (z div 60) = [a, b]" using d(1) pad_2 [of "z div 60"] by auto
  ultimately show ?thesis using False num d
    by (simp add: zone_text_def parse_zone_def in_range_def Let_def flip: z_def)
qed

lemma date_digits:
  fixes secs :: int
  shows "(secs div 86400) * 86400 + (secs mod 86400 div 3600) * 3600 +
    (secs mod 86400 div 60 mod 60) * 60 + secs mod 86400 mod 60 = secs"
proof -
  have "s div 3600 * 3600 + s div 60 mod 60 * 60 + s mod 60 = s" for s :: int
  proof -
    have "s div 3600 = s div 60 div 60" by (simp add: zdiv_zmult2_eq [symmetric])
    with div_mult_mod_eq [of "s div 60" 60] div_mult_mod_eq [of s 60] show ?thesis by linarith
  qed
  from this [of "secs mod 86400"] show ?thesis using div_mult_mod_eq [of secs 86400] by linarith
qed

lemma day_part: "0 \<le> s \<Longrightarrow> s < 86400 \<Longrightarrow> 0 \<le> s div 3600 \<and> s div 3600 \<le> (23 :: int)"
  by (simp add: pos_imp_zdiv_nonneg_iff)

lemma days_in_le:
  assumes "1 \<le> m" and "m \<le> 12"
  shows "days_in m y \<le> 31"
proof -
  have "nat (m - 1) < length (month_days y)" using assms by (simp add: month_days_def)
  then have "days_in m y \<in> set (month_days y)" unfolding days_in_def by (rule nth_mem)
  then show ?thesis by (auto simp: month_days_def split: if_splits)
qed

text \<open>
  A printed time is parsed to itself, in any zone of whole minutes within a day, for local
  years of four digits.
\<close>

lemma Parse_text:
  assumes "zone t mod 60 = 0" and "\<bar>zone t\<bar> < 86400" and "rfc3339_text zone t \<noteq> []"
  shows "Parse_RFC3339 (rfc3339_text zone t) = Some t"
proof -
  define loc secs ns where d: "loc = t + zone t * 1000000000" "secs = loc div 1000000000" "ns = loc mod 1000000000"
  define hour minute sec where h: "hour = secs mod 86400 div 3600" "minute = secs mod 86400 div 60 mod 60" "sec = secs mod 86400 mod 60"
  obtain y m dd where c: "civil (secs div 86400) = (y, m, dd)" by (metis prod.exhaust)
  have y: "0 \<le> y" "y \<le> 9999" and shape: "rfc3339_text zone t = pad 4 (nat y) @ ''-'' @ pad 2 (nat m) @ ''-'' @ pad 2 (nat dd) @ ''T'' @
           pad 2 (nat hour) @ '':'' @ pad 2 (nat minute) @ '':'' @ pad 2 (nat sec) @ fraction_text ns @ zone_text (zone t)"
    using assms(3) c by (auto simp: rfc3339_text_def Let_def d h split: if_splits)
  note cs = civil_spec [OF c]
  have dd: "dd \<le> 31" using days_in_le [OF cs(2,3), of y] cs(5) by simp
  have hr: "0 \<le> hour" "hour \<le> 23" "0 \<le> minute" "minute \<le> 59" "0 \<le> sec" "sec \<le> 59" 
    using day_part [of "secs mod 86400"] by (simp_all add: h)
  have nsr: "0 \<le> ns" "ns < 1000000000" by (simp_all add: d)
  have frac: "parse_fraction (fraction_text ns @ zone_text (zone t)) = (ns, zone_text (zone t))"
    using zone_head [of "zone t"] nsr
    by (intro parse_fraction_text) (auto simp: is_digit_def digit_val_def Let_def)
  have "date_ns y m dd hour minute sec ns = loc"
    using cs(1) date_digits [of secs] div_mult_mod_eq [of loc 1000000000]
    by (simp add: date_ns_def h d(2,3))
  then show ?thesis
    using y cs(2-5) dd hr frac parse_zone_text [OF assms(1,2)]
    by (simp add: shape Parse_RFC3339_def parse_year_pad getnum_pad in_range_def d(1))
qed

end
