(* ===== verification/Codec.thy ===== *)
theory Codec
  imports Api Slack_Bot Local_Driver Go_Json Go_Time "HOL-Library.AList" "HOL-Library.List_Lexorder" "HOL-Library.Char_ord"
begin

text \<open>
  The requests of the API as JSON: the struct tags of \<open>createTaskRequest\<close> and
  \<open>createEventRequest\<close> (\<open>internal/api/router.go\<close>) and what \<open>json.Decoder\<close> and \<open>json.Unmarshal\<close>
  make of them. The text of an error about malformed input is a parameter.
\<close>

subsection \<open>Values of type \<open>any\<close>\<close>

text \<open>
  A number becomes a \<open>float64\<close>: 53 bits, exponents from $-1074$, out of range an error. It is
  kept as the text it is printed with, which has its shortest digits.
\<close>

definition number_parts :: "string \<Rightarrow> bool \<times> nat \<times> int" where
  "number_parts lit =
     (let neg = (lit \<noteq> [] \<and> hd lit = CHR ''-'');
          body = (if neg then tl lit else lit);
          ints = takeWhile dec_digit body;
          r1 = dropWhile dec_digit body;
          fracs = (case r1 of c # cs \<Rightarrow> if c = CHR ''.'' then takeWhile dec_digit cs else [] | [] \<Rightarrow> []);
          r2 = (case r1 of c # cs \<Rightarrow> if c = CHR ''.'' then dropWhile dec_digit cs else r1 | [] \<Rightarrow> []);
          exp = (case r2 of [] \<Rightarrow> 0 | c # cs \<Rightarrow> (case parse_signed cs of None \<Rightarrow> 0 | Some e \<Rightarrow> e));
          digits = (case digits_val 0 (ints @ fracs) of None \<Rightarrow> 0 | Some n \<Rightarrow> n)
      in (neg, digits, exp - int (length fracs)))"

definition round_double :: "rat \<Rightarrow> rat" where
  "round_double q =
     (if q = 0 then 0
      else let e = max (ilog2 q - 52) (- 1074) in of_int (round_even (q / 2 powi e)) * 2 powi e)"

definition ParseFloat :: "string \<Rightarrow> float64 option" where
  "ParseFloat lit =
     (let (neg, digits, e) = number_parts lit; v = round_double (of_nat digits * 10 powi e) in
      if 2 ^ 1024 \<le> v then None
      else Some (if v = 0 then (if neg then NegZero else Fin 0) else Fin (if neg then - v else v)))"

text \<open>How a \<open>float64\<close> is printed: without an exponent from $10^{-6}$ to $10^{21}$.\<close>

definition exponent_form :: "int \<times> int \<Rightarrow> string" where
  "exponent_form d =
     (let s = nat_dec (nat (fst d)); x = snd d + int (length s) - 1 in
      hd s # (if tl s = [] then [] else CHR ''.'' # tl s) @
      CHR ''e'' # (if x < 0 then CHR ''-'' else CHR ''+'') # nat_dec (nat \<bar>x\<bar>))"

definition positive_text :: "rat \<Rightarrow> string" where
  "positive_text q =
     (case shortest_by round_double q of
        None \<Rightarrow> []
      | Some d \<Rightarrow> if q < 1 / 10 ^ 6 \<or> 10 ^ 21 \<le> q then exponent_form d else fixed_point d)"

fun float_text :: "float64 \<Rightarrow> string" where
  "float_text (Fin q) =
     (if q = 0 then ''0'' else if q < 0 then CHR ''-'' # positive_text (- q) else positive_text q)"
| "float_text x = ''-0''"

definition number_text :: "string \<Rightarrow> string option" where
  "number_text lit = map_option float_text (ParseFloat lit)"

text \<open>
  A Go map has no order: its members stand in the order in which their keys came first, each
  with the last of its values.
\<close>

definition merge_members :: "(string \<times> json) list \<Rightarrow> (string \<times> json) list \<Rightarrow> (string \<times> json) list" where
  "merge_members ms ns = fold (\<lambda>m. AList.update (fst m) (snd m)) ns ms"

fun any_value :: "json \<Rightarrow> json option" where
  "any_value (JNumber lit) = map_option JNumber (number_text lit)"
| "any_value (JArray xs) = map_option JArray (those (map any_value xs))"
| "any_value (JObject ms) =
     map_option (\<lambda>ns. JObject (merge_members [] ns))
       (those (map (\<lambda>(k, v). map_option (Pair k) (any_value v)) ms))"
| "any_value v = Some v"

subsection \<open>Fields of a struct\<close>

text \<open>
  A member goes to the field of its name, otherwise to the first field that has the name up
  to case. The names are ASCII, where the case folding of Unicode reaches \<open>K\<close> from the Kelvin
  sign and \<open>S\<close> from the long s, and no other letter from outside ASCII.
\<close>

definition upper_char :: "char \<Rightarrow> char" where
  "upper_char c = (if 97 \<le> byte c \<and> byte c \<le> 122 then char_of (byte c - 32) else c)"

definition kelvin_sign :: string where "kelvin_sign = byte_string [226, 132, 170]"
definition long_s :: string where "long_s = byte_string [197, 191]"

fun fold_name :: "string \<Rightarrow> string" where
  "fold_name [] = []"
| "fold_name (c # cs) =
     (if HasPrefix (c # cs) kelvin_sign then CHR ''K'' # fold_name (drop 2 cs)
      else if HasPrefix (c # cs) long_s then CHR ''S'' # fold_name (drop 1 cs)
      else upper_char c # fold_name cs)"

definition json_field :: "string list \<Rightarrow> string \<Rightarrow> string option" where
  "json_field names k =
     (if k \<in> set names then Some k else find (\<lambda>n. fold_name n = fold_name k) names)"

text \<open>
  Setting a field from a value: \<open>null\<close> leaves strings and numbers as they are and makes a map
  nil; members are added to a map that is there already. \<open>None\<close> is a mismatch of types.
\<close>

fun string_field :: "json \<Rightarrow> string \<Rightarrow> string option" where
  "string_field (JString s) old = Some s"
| "string_field JNull old = Some old"
| "string_field v old = None"

fun int_field :: "json \<Rightarrow> int \<Rightarrow> int option" where
  "int_field (JNumber lit) old = ParseInt lit"
| "int_field JNull old = Some old"
| "int_field v old = None"

fun map_field :: "json \<Rightarrow> json_map \<Rightarrow> json_map option" where
  "map_field (JObject ms) old =
     map_option (\<lambda>ns. Some (merge_members (slice old) ns))
       (those (map (\<lambda>(k, v). map_option (Pair k) (any_value v)) ms))"
| "map_field JNull old = Some None"
| "map_field v old = None"

fun set_fields :: "('r \<Rightarrow> string \<times> json \<Rightarrow> 'r option) \<Rightarrow> 'r \<Rightarrow> (string \<times> json) list \<Rightarrow> 'r option" where
  "set_fields upd r [] = Some r"
| "set_fields upd r (m # ms) = (case upd r m of None \<Rightarrow> None | Some r' \<Rightarrow> set_fields upd r' ms)"

definition decode_struct :: "('r \<Rightarrow> string \<times> json \<Rightarrow> 'r option) \<Rightarrow> 'r \<Rightarrow> json \<Rightarrow> 'r option" where
  "decode_struct upd zero v =
     (case v of JObject ms \<Rightarrow> set_fields upd zero ms | JNull \<Rightarrow> Some zero | _ \<Rightarrow> None)"

subsection \<open>The two requests\<close>

definition task_names :: "string list" where
  "task_names = [''skill_name'', ''parameters'', ''runtime'', ''user'', ''team'', ''deadline_seconds'']"

definition zero_task_request :: create_task_request where
  "zero_task_request =
     \<lparr>ctr_SkillName = [], ctr_Parameters = None, ctr_Runtime = [], ctr_User = [], ctr_Team = [], ctr_DeadlineSecs = 0\<rparr>"

definition set_task_field :: "create_task_request \<Rightarrow> string \<times> json \<Rightarrow> create_task_request option" where
  "set_task_field r m =
     (case json_field task_names (fst m) of
        None \<Rightarrow> Some r
      | Some f \<Rightarrow>
          if f = ''skill_name'' then map_option (\<lambda>x. r\<lparr>ctr_SkillName := x\<rparr>) (string_field (snd m) (ctr_SkillName r))
          else if f = ''parameters'' then map_option (\<lambda>x. r\<lparr>ctr_Parameters := x\<rparr>) (map_field (snd m) (ctr_Parameters r))
          else if f = ''runtime'' then map_option (\<lambda>x. r\<lparr>ctr_Runtime := x\<rparr>) (string_field (snd m) (ctr_Runtime r))
          else if f = ''user'' then map_option (\<lambda>x. r\<lparr>ctr_User := x\<rparr>) (string_field (snd m) (ctr_User r))
          else if f = ''team'' then map_option (\<lambda>x. r\<lparr>ctr_Team := x\<rparr>) (string_field (snd m) (ctr_Team r))
          else map_option (\<lambda>x. r\<lparr>ctr_DeadlineSecs := x\<rparr>) (int_field (snd m) (ctr_DeadlineSecs r)))"

definition event_names :: "string list" where
  "event_names = [''id'', ''task_id'', ''type'', ''payload'']"

definition zero_event_request :: create_event_request where
  "zero_event_request = \<lparr>cer_ID = [], cer_TaskID = [], cer_Type = [], cer_Payload = None\<rparr>"

definition set_event_field :: "create_event_request \<Rightarrow> string \<times> json \<Rightarrow> create_event_request option" where
  "set_event_field r m =
     (case json_field event_names (fst m) of
        None \<Rightarrow> Some r
      | Some f \<Rightarrow>
          if f = ''id'' then map_option (\<lambda>x. r\<lparr>cer_ID := x\<rparr>) (string_field (snd m) (cer_ID r))
          else if f = ''task_id'' then map_option (\<lambda>x. r\<lparr>cer_TaskID := x\<rparr>) (string_field (snd m) (cer_TaskID r))
          else if f = ''type'' then map_option (\<lambda>x. r\<lparr>cer_Type := x\<rparr>) (string_field (snd m) (cer_Type r))
          else map_option (\<lambda>x. r\<lparr>cer_Payload := x\<rparr>) (map_field (snd m) (cer_Payload r)))"

subsection \<open>Decoding a stream or a text\<close>

definition io_EOF :: error where "io_EOF = NewError ''EOF''"
definition io_ErrUnexpectedEOF :: error where "io_ErrUnexpectedEOF = NewError ''unexpected EOF''"

text \<open>\<open>json.NewDecoder(r).Decode(&v)\<close>: one value from the front of the stream.\<close>

definition Decode :: "(bytes \<Rightarrow> error) \<Rightarrow> (json \<Rightarrow> 'a option) \<Rightarrow> body_reader \<Rightarrow> 'a result" where
  "Decode bad f b =
     (let value = (\<lambda>v. case f v of None \<Rightarrow> Inl (bad (br_data b)) | Some x \<Rightarrow> Inr x) in
      case scan_value (br_data b) of
        Complete v \<Rightarrow> value v
      | Ended v \<Rightarrow> (case br_err b of None \<Rightarrow> value v | Some e \<Rightarrow> Inl e)
      | Unfinished started \<Rightarrow>
          (case br_err b of
             None \<Rightarrow> Inl (if started then io_ErrUnexpectedEOF else io_EOF)
           | Some e \<Rightarrow> Inl e)
      | Malformed \<Rightarrow> Inl (bad (br_data b)))"

text \<open>\<open>json.Unmarshal\<close>: the whole text is one value.\<close>

fun scan_all :: "scanner \<Rightarrow> bytes \<Rightarrow> json option" where
  "scan_all s [] = ready s"
| "scan_all s (c # cs) = (case scan_step s c of None \<Rightarrow> None | Some s' \<Rightarrow> scan_all s' cs)"

definition Unmarshal :: "(bytes \<Rightarrow> error) \<Rightarrow> (json \<Rightarrow> 'a option) \<Rightarrow> bytes \<Rightarrow> 'a result" where
  "Unmarshal bad f data =
     (case scan_all (BeginValue, []) data of
        None \<Rightarrow> Inl (bad data)
      | Some v \<Rightarrow> (case f v of None \<Rightarrow> Inl (bad data) | Some x \<Rightarrow> Inr x))"

text \<open>The parameters of a task in a slash command are unmarshalled into an empty map.\<close>

definition go_slack_codec :: "(bytes \<Rightarrow> error) \<Rightarrow> slack_codec" where
  "go_slack_codec bad =
     \<lparr>sl_ParseQuery = ParseQuery, sl_Params = Unmarshal bad (\<lambda>v. map_field v (Some []))\<rparr>"

definition go_codec :: "(bytes \<Rightarrow> error) \<Rightarrow> codec" where
  "go_codec bad =
     \<lparr>cd_task = Decode bad (decode_struct set_task_field zero_task_request),
      cd_event = Decode bad (decode_struct set_event_field zero_event_request),
      cd_rfc3339 = Parse_RFC3339\<rparr>"

subsection \<open>Answers and files\<close>

text \<open>
  What \<open>Marshal\<close> makes of the domain types, by the struct tags of \<open>internal/storage/store.go\<close>:
  nil is \<open>null\<close>, maps are printed in the order of their keys, a description may be left out.
  The text of a time depends on the time zone of the process and is a parameter.
\<close>

fun sorted_value :: "json \<Rightarrow> json" where
  "sorted_value (JArray xs) = JArray (map sorted_value xs)"
| "sorted_value (JObject ms) = JObject (sort_key fst (map (\<lambda>(k, v). (k, sorted_value v)) ms))"
| "sorted_value v = v"

definition map_json :: "json_map \<Rightarrow> json" where
  "map_json p = (case p of None \<Rightarrow> JNull | Some ms \<Rightarrow> sorted_value (JObject ms))"

definition strings_json :: "string list option \<Rightarrow> json" where
  "strings_json xs = (case xs of None \<Rightarrow> JNull | Some ys \<Rightarrow> JArray (map JString ys))"

definition param_json :: "param \<Rightarrow> json" where
  "param_json p =
     JObject ([(''name'', JString (p_Name p)), (''type'', JString (p_Type p)), (''required'', JBool (p_Required p))] @
       (if p_Description p = [] then [] else [(''description'', JString (p_Description p))]))"

definition skill_json :: "(go_time \<Rightarrow> string) \<Rightarrow> skill \<Rightarrow> json" where
  "skill_json time sk =
     JObject
       [(''name'', JString (sk_Name sk)), (''version'', JString (sk_Version sk)),
        (''description'', JString (sk_Description sk)), (''entrypoint'', JString (sk_Entrypoint sk)),
        (''parameters'', case sk_Parameters sk of None \<Rightarrow> JNull | Some ps \<Rightarrow> JArray (map param_json ps)),
        (''required_tools'', strings_json (sk_RequiredTools sk)),
        (''required_models'', strings_json (sk_RequiredModels sk)),
        (''source_file'', JString (sk_SourceFile sk)), (''loaded_at'', JString (time (sk_LoadedAt sk)))]"

definition policy_context_json :: "policy_context \<Rightarrow> json" where
  "policy_context_json pc =
     JObject [(''user'', JString (pc_User pc)), (''team'', JString (pc_Team pc)),
       (''model_allowed'', strings_json (pc_ModelAllowed pc))]"

definition task_value :: "(go_time \<Rightarrow> string) \<Rightarrow> task \<Rightarrow> json" where
  "task_value time t =
     JObject
       [(''id'', JString (t_ID t)), (''skill_name'', JString (t_SkillName t)),
        (''parameters'', map_json (t_Parameters t)), (''policy_context'', policy_context_json (t_PolicyContext t)),
        (''runtime'', JString (t_Runtime t)), (''state'', JString (t_State t)),
        (''created_at'', JString (time (t_CreatedAt t))), (''updated_at'', JString (time (t_UpdatedAt t))),
        (''deadline_seconds'', JNumber (Itoa (t_DeadlineSecs t)))]"

definition event_value :: "(go_time \<Rightarrow> string) \<Rightarrow> event \<Rightarrow> json" where
  "event_value time e =
     JObject
       [(''id'', JString (e_ID e)), (''task_id'', JString (e_TaskID e)), (''type'', JString (e_Type e)),
        (''payload'', map_json (e_Payload e)), (''created_at'', JString (time (e_CreatedAt e)))]"

text \<open>The value of a JSON answer; other bodies have none. \<open>Encode\<close> ends it with a newline.\<close>

fun body_value :: "(go_time \<Rightarrow> string) \<Rightarrow> body \<Rightarrow> json option" where
  "body_value time (BObject ms) = Some (JObject (map (\<lambda>(k, v). (k, JString v)) ms))"
| "body_value time (BSkills sks) = Some (JArray (map (skill_json time) sks))"
| "body_value time (BSkill sk) = Some (skill_json time sk)"
| "body_value time (BTasks ts) = Some (JArray (map (task_value time) ts))"
| "body_value time (BTask t) = Some (task_value time t)"
| "body_value time (BEvents es) = Some (JArray (map (event_value time) es))"
| "body_value time b = None"

definition Encode :: "(go_time \<Rightarrow> string) \<Rightarrow> body \<Rightarrow> bytes" where
  "Encode time b = (case body_value time b of None \<Rightarrow> [] | Some v \<Rightarrow> json_text v @ nl)"

text \<open>The file \<open>task.json\<close> that an agent is started with.\<close>

definition task_file :: "task_json \<Rightarrow> json" where
  "task_file j =
     JObject
       [(''task_id'', JString (tj_TaskID j)), (''skill'', JString (tj_Skill j)),
        (''parameters'', map_json (tj_Parameters j)),
        (''policy_context'', policy_context_json (tj_PolicyContext j)),
        (''deadline_seconds'', JNumber (Itoa (tj_DeadlineSeconds j)))]"

subsection \<open>A client's text\<close>

lemma digit_number: "d < 10 \<Longrightarrow> dec_digit (digit_char d)" 
  by (simp add: dec_digit_def digit_char_def byte_char_of)

lemma number_run_digits: "list_all dec_digit ds \<Longrightarrow> number_run NInt ds"
  by (induction ds) (simp_all add: number_ends_def)

lemma nat_dec_digits: "list_all dec_digit (nat_dec n)"
proof (induction n rule: nat_dec.induct)
  case (1 n)
  then show ?case by (cases "n < 10") (simp_all add: nat_dec.simps [of n] digit_number)
qed

lemma nat_dec_lead: "hd (nat_dec n) = CHR ''0'' \<Longrightarrow> n = 0"
proof (induction n rule: nat_dec.induct)
  case (1 n)
  show ?case
  proof (cases "n < 10")
    case True
    with 1(2) have "digit_val (digit_char n) = digit_val CHR ''0''" by (simp add: nat_dec.simps [of n])
    with True show ?thesis by (simp add: digit_val_char) (simp add: digit_val_def Let_def)
  next
    case False
    with 1 show ?thesis by (simp add: nat_dec.simps [of n])
  qed
qed

lemma nat_dec_0: "nat_dec 0 = ''0''"
  by code_simp

lemma number_nat: "number_literal (nat_dec n)" "number_run NNeg (nat_dec n)"
proof -
  obtain d ds where d: "nat_dec n = d # ds" by (cases "nat_dec n") auto
  from nat_dec_digits [of n] d have run: "number_run NInt ds" and dig: "dec_digit d"
    by (simp_all add: number_run_digits)
  have z: "d = CHR ''0'' \<Longrightarrow> ds = []" using nat_dec_lead [of n] d by (auto simp: nat_dec_0)
  show "number_literal (nat_dec n)" "number_run NNeg (nat_dec n)"
    using d dig run z dec_digit_not(5) [OF dig]
    by (auto simp: number_literal_def number_ends_def)
qed

lemma number_Itoa: "number_literal (Itoa i)"
  by (simp add: Itoa_def number_nat) (simp add: number_literal_def number_nat)

definition params_json :: "json_map \<Rightarrow> json" where
  "params_json p = (case p of None \<Rightarrow> JNull | Some ms \<Rightarrow> JObject ms)"

text \<open>
  Parameters as a map of Go holds them: text in UTF-8, numbers as they are printed, keys
  distinct, within the depth the decoder allows.
\<close>

definition params_ok :: "json_map \<Rightarrow> bool" where
  "params_ok p \<longleftrightarrow>
     (case p of None \<Rightarrow> True
      | Some ms \<Rightarrow> json_valid (JObject ms) \<and> any_value (JObject ms) = Some (JObject ms) \<and>
                   json_depth (JObject ms) < maxNestingDepth)"

lemma map_field_params: "params_ok p \<Longrightarrow> map_field (params_json p) None = Some p"
  by (cases p) (auto simp: params_ok_def params_json_def)

definition task_members :: "create_task_request \<Rightarrow> (string \<times> json) list" where
  "task_members q =
     [(''skill_name'', JString (ctr_SkillName q)), (''parameters'', params_json (ctr_Parameters q)),
      (''runtime'', JString (ctr_Runtime q)), (''user'', JString (ctr_User q)), (''team'', JString (ctr_Team q)),
      (''deadline_seconds'', JNumber (Itoa (ctr_DeadlineSecs q)))]"

definition task_text :: "create_task_request \<Rightarrow> string" where
  "task_text q = json_text (JObject (task_members q))"

definition task_ok :: "create_task_request \<Rightarrow> bool" where
  "task_ok q \<longleftrightarrow> utf8 (ctr_SkillName q) \<and> utf8 (ctr_Runtime q) \<and> utf8 (ctr_User q) \<and> utf8 (ctr_Team q) \<and>
     params_ok (ctr_Parameters q) \<and> in_int64 (ctr_DeadlineSecs q)"

definition event_members :: "create_event_request \<Rightarrow> (string \<times> json) list" where
  "event_members q =
     [(''id'', JString (cer_ID q)), (''task_id'', JString (cer_TaskID q)), (''type'', JString (cer_Type q)),
      (''payload'', params_json (cer_Payload q))]"

definition event_text :: "create_event_request \<Rightarrow> string" where
  "event_text q = json_text (JObject (event_members q))"

definition event_ok :: "create_event_request \<Rightarrow> bool" where
  "event_ok q \<longleftrightarrow> utf8 (cer_ID q) \<and> utf8 (cer_TaskID q) \<and> utf8 (cer_Type q) \<and> params_ok (cer_Payload q)"

lemma utf8_ascii: "list_all (\<lambda>c. byte c < 128) s \<Longrightarrow> utf8 s"
  by (induction s) simp_all

lemma params_valid: "params_ok p \<Longrightarrow> json_valid (params_json p) \<and> json_depth (params_json p) < maxNestingDepth"
  by (cases p) (auto simp: params_ok_def params_json_def maxNestingDepth_def)

lemma Decode_text:
  assumes "json_valid (JObject ms)" and "json_depth (JObject ms) \<le> maxNestingDepth" and "f (JObject ms) = Some x"
  shows "Decode bad f \<lparr>br_data = json_text (JObject ms) @ t, br_err = e\<rparr> = Inr x"
proof -
  have "scan_value (json_text (JObject ms) @ t) = Complete (JObject ms)"
    by (rule scan_value_text [OF assms(1) _ assms(2)]) (simp add: composite_def)
  with assms(3) show ?thesis by (simp add: Decode_def)
qed

lemma scan_all_run: "scan_run s d = Some s' \<Longrightarrow> scan_all s (d @ t) = scan_all s' t"
  by (induction s d rule: scan_run.induct) (auto split: if_splits option.splits)

lemma Unmarshal_text:
  assumes "json_valid (JObject ms)" and "json_depth (JObject ms) \<le> maxNestingDepth" and "f (JObject ms) = Some x"
  shows "Unmarshal bad f (json_text (JObject ms)) = Inr x"
proof -
  have "scan_run (BeginValue, []) (json_text (JObject ms)) = Some (EndValue (JObject ms), [])"
    by (rule run_text [OF assms(1) _ assms(2)]) (simp add: composite_def)
  from scan_all_run [OF this, of "[]"] assms(3) show ?thesis by (simp add: Unmarshal_def del: json_text.simps)
qed

lemma Decode_task_text:
  assumes "task_ok q"
  shows "cd_task (go_codec bad) \<lparr>br_data = task_text q @ t, br_err = e\<rparr> = Inr q"
proof -
  have p: "params_ok (ctr_Parameters q)" using assms by (simp add: task_ok_def)
  have "json_valid (JObject (task_members q))"
    using assms params_valid [OF p] by (simp add: task_ok_def task_members_def number_Itoa utf8_ascii byte_def del: utf8.simps)
  moreover have "json_depth (JObject (task_members q)) \<le> maxNestingDepth"
    using params_valid [OF p] by (simp add: task_members_def)
  moreover have "decode_struct set_task_field zero_task_request (JObject (task_members q)) = Some q"
    using map_field_params [OF p] assms
    by (simp add: decode_struct_def set_task_field_def json_field_def task_names_def zero_task_request_def
        task_members_def ParseInt_Itoa task_ok_def)
  ultimately show ?thesis by (simp add: go_codec_def task_text_def Decode_text del: json_text.simps)
qed

lemma Decode_event_text:
  assumes "event_ok q"
  shows "cd_event (go_codec bad) \<lparr>br_data = event_text q @ t, br_err = e\<rparr> = Inr q"
proof -
  have p: "params_ok (cer_Payload q)" using assms by (simp add: event_ok_def)
  have "json_valid (JObject (event_members q))"
    using assms params_valid [OF p] by (simp add: event_ok_def event_members_def utf8_ascii byte_def del: utf8.simps)
  moreover have "json_depth (JObject (event_members q)) \<le> maxNestingDepth"
    using params_valid [OF p] by (simp add: event_members_def)
  moreover have "decode_struct set_event_field zero_event_request (JObject (event_members q)) = Some q"
    using map_field_params [OF p] assms
    by (simp add: decode_struct_def set_event_field_def json_field_def event_names_def zero_event_request_def
        event_members_def event_ok_def)
  ultimately show ?thesis by (simp add: go_codec_def event_text_def Decode_text del: json_text.simps)
qed


subsection \<open>An answer, read back\<close>

lemma hex_ascii: "d < 16 \<Longrightarrow> byte (hex_digit d) < 128"
  by (simp add: byte_def hex_digit_code)

lemma EncodeToString_ascii: "list_all (\<lambda>c. byte c < 128) (EncodeToString bs)"
  by (induction bs) (simp_all add: EncodeToString_def hex_byte_ok hex_ascii nibbles)

lemma generateID_utf8: "list_all (\<lambda>c. byte c < 128) p \<Longrightarrow> generateID p w = (i, w') \<Longrightarrow> utf8 i"
  by (auto simp: generateID_def byte_def EncodeToString_ascii [unfolded byte_def] intro!: utf8_ascii split: prod.splits)

lemma CreateTask_utf8:
  assumes "Server_CreateTask s q w = (Inr res, w')"
  shows "utf8 (res_TaskID res)" and "utf8 (res_Token res)"
proof -
  obtain sk w1 i w2 now w3 t w4 tok w5 where
    "GetSkill (sv_store s) (ctr_SkillName q) w = (Inr (Some sk), w1)" "policy_check (sv_policy s) q sk = None"
    and gen: "generateID ''task'' w1 = (i, w2)"
    and "with_host Now w2 = (now, w3)" "t = new_task q sk i now" "CreateTask (sv_store s) t w3 = (None, w4)"
    and it: "issue_token (sv_store s) i w4 = (Inr tok, w5)"
    and d: "dispatch_created s t sk \<lparr>res_TaskID = i, res_Runtime = t_Runtime t, res_ExternalID = [], res_Token = tok\<rparr> w5 = (Inr res, w')"
    by (rule CreateTask_run [OF assms])
  from it obtain bs where "tok = EncodeToString bs"
    by (auto simp: issue_token_def Let_def split: prod.splits option.splits)
  then have "utf8 tok" by (simp add: utf8_ascii EncodeToString_ascii)
  moreover have "utf8 i" using gen by (rule generateID_utf8 [rotated]) (simp add: byte_def)
  moreover have "res_TaskID res = i \<and> res_Token res = tok"
    using d by (auto simp: dispatch_created_def split: option.splits prod.splits)
  ultimately show "utf8 (res_TaskID res)" and "utf8 (res_Token res)" by simp_all
qed

lemma Encode_object:
  assumes "list_all (\<lambda>(k, v). utf8 k \<and> utf8 v) ms"
  shows "scan_value (Encode time (BObject ms) @ u) = Complete (JObject (map (\<lambda>(k, v). (k, JString v)) ms))"
proof -
  let ?j = "JObject (map (\<lambda>(k, v). (k, JString v)) ms)"
  have "fold max (map (\<lambda>(k, v). json_depth v) (map (\<lambda>(k, v). (k, JString v)) ms)) 0 = 0"
    by (induction ms) auto
  moreover have "json_valid ?j" using assms by (induction ms) auto
  ultimately have "scan_value (json_text ?j @ nl @ u) = Complete ?j"
    by (intro scan_value_text) (simp_all add: composite_def maxNestingDepth_def)
  then show ?thesis by (simp add: Encode_def del: json_text.simps)
qed

lemma MaxBytes_text:
  "length u \<le> n \<Longrightarrow> \<exists>t' e'. MaxBytesReader n \<lparr>br_data = u @ t, br_err = e\<rparr> = \<lparr>br_data = u @ t', br_err = e'\<rparr>"
  by (simp add: MaxBytesReader_def)

lemma created_answer:
  assumes "utf8 (res_ExternalID res)" "utf8 (res_Runtime res)" "utf8 (res_TaskID res)" "utf8 (res_Token res)"
  shows "\<exists>ms. scan_value (Encode time (rs_Body (created_response res)) @ u) = Complete (JObject ms) \<and>
    map_of ms ''task_id'' = Some (JString (res_TaskID res)) \<and> map_of ms ''token'' = Some (JString (res_Token res))"
  using assms by (simp add: created_response_def writeJSON_def Encode_object utf8_ascii byte_def del: utf8.simps)

lemma utf8_Itoa: "utf8 (Itoa i)"
proof -
  have "list_all (\<lambda>c. byte c < 128) (nat_dec n)" for n
    using nat_dec_digits [of n] by (rule list.pred_mono_strong) (simp add: dec_digit_def)
  then show ?thesis by (simp add: Itoa_def utf8_ascii byte_def del: utf8.simps)
qed

end
