(* ===== verification/Slack_Wire.thy ===== *)
theory Slack_Wire
  imports Codec
begin

text \<open>
  A slash command from the bytes on the wire to the answer: the signed form that Slack posts, the
  words of its text and the JSON of its parameters, through the handlers of
  \<open>internal/gateway/slack\<close> with the decoders of the standard library.
\<close>

subsection \<open>The request\<close>

text \<open>A request as Slack makes it: a form, and the two headers that sign it.\<close>

definition signed_request :: "string \<Rightarrow> int \<Rightarrow> url_values \<Rightarrow> http_request \<Rightarrow> http_request" where
  "signed_request secret ts kvs r =
     r\<lparr>rq_Method := ''POST'', rq_Body := \<lparr>br_data = encode_query kvs, br_err = None\<rparr>,
       rq_Header := (rq_Header r)
         (''X-Slack-Request-Timestamp'' := Itoa ts,
          ''X-Slack-Signature'' := slack_expected secret (Itoa ts) (encode_query kvs))\<rparr>"

definition run_text :: "string \<Rightarrow> (string \<times> json) list \<Rightarrow> string" where
  "run_text name ms = ''run '' @ name @ '' '' @ json_text (JObject ms)"

lemma Itoa_nonempty: "Itoa i \<noteq> []"
  by (simp add: Itoa_def)

lemma signed_accepted:
  assumes "secret \<noteq> []" and "in_int64 ts" and "length (encode_query kvs) \<le> maxSlackBodySize"
    and "\<bar>Unix (fst (with_host Now w)) - ts\<bar> \<le> 300"
  shows "verifySlackRequest (signed_request secret ts kvs r) secret w = (Inr (encode_query kvs), snd (with_host Now w))"
proof -
  let ?r = "signed_request secret ts kvs r"
  obtain now w1 where n: "with_host Now w = (now, w1)" by (metis prod.exhaust)
  have sig: "slack_expected secret (Itoa ts) (encode_query kvs) \<noteq> []"
    by (simp add: slack_expected_def slackSignatureVersion_def)
  have hdr: "rq_Header ?r ''X-Slack-Request-Timestamp'' = Itoa ts"
    "rq_Header ?r ''X-Slack-Signature'' = slack_expected secret (Itoa ts) (encode_query kvs)"
    by (simp_all add: signed_request_def)
  have "\<not> timestamp_age (Unix now) ts > maxTimestampAge"
    using timestamp_window [of "Unix now" ts] assms(4) n by simp
  moreover have "slack_body (rq_Body ?r) = Inr (encode_query kvs)"
    using assms(3) by (simp add: signed_request_def slack_body_def read_limited_def)
  moreover have "ParseInt (Itoa ts) = Some ts" using assms(2) by (rule ParseInt_Itoa)
  ultimately show ?thesis
    using assms(1) n sig Itoa_nonempty [of ts] by (simp add: verifySlackRequest_def hdr)
qed

subsection \<open>The words\<close>

lemma plain_not_blank: "plain_char c \<Longrightarrow> c \<noteq> CHR '' '' \<and> c \<noteq> CHR 0x09"
  by (auto simp: plain_char_def)

lemma splitFirst_plain:
  assumes "w \<noteq> []" and "list_all plain_char w" and "rest \<noteq> []" and "plain_char (hd rest)" and "plain_char (last rest)"
  shows "splitFirst (w @ CHR '' '' # rest) = (w, rest)"
proof -
  have "TrimSpace (w @ CHR '' '' # rest) = w @ CHR '' '' # rest"
    using assms by (intro TrimSpace_plain) (auto simp: neq_Nil_conv)
  moreover have "IndexAny (w @ CHR '' '' # rest) [CHR '' '', CHR 0x09] = Some (length w)"
    using assms(2) by (induction w) (auto simp: plain_not_blank)
  moreover have "TrimSpace rest = rest" using assms(3-5) by (intro TrimSpace_plain)
  ultimately show ?thesis by (simp add: splitFirst_def Let_def)
qed

lemma object_text_ends: "json_text (JObject ms) \<noteq> [] \<and> hd (json_text (JObject ms)) = CHR ''{'' \<and> last (json_text (JObject ms)) = CHR ''}''"
  by simp

lemma run_text_words:
  assumes "name \<noteq> []" and "list_all plain_char name"
  shows "splitFirst (TrimSpace (run_text name ms)) = (''run'', name @ CHR '' '' # json_text (JObject ms))"
    and "splitFirst (name @ CHR '' '' # json_text (JObject ms)) = (name, json_text (JObject ms))"
proof -
  let ?j = "json_text (JObject ms)"
  note j = object_text_ends [of ms]
  have brace: "plain_char CHR ''{''" "plain_char CHR ''}''" by (simp_all add: plain_char_def)
  show "splitFirst (name @ CHR '' '' # ?j) = (name, ?j)"
    by (rule splitFirst_plain) (use assms j brace in \<open>simp_all del: json_text.simps\<close>)
  have r: "plain_char CHR ''r''" "plain_char CHR ''u''" "plain_char CHR ''n''" by (simp_all add: plain_char_def)
  have whole: "run_text name ms = ''run'' @ CHR '' '' # (name @ CHR '' '' # ?j)" by (simp add: run_text_def del: json_text.simps)
  have "TrimSpace (run_text name ms) = run_text name ms"
    unfolding whole by (rule TrimSpace_plain) (use j brace r in \<open>simp_all del: json_text.simps\<close>)
  moreover have "splitFirst (''run'' @ CHR '' '' # (name @ CHR '' '' # ?j)) = (''run'', name @ CHR '' '' # ?j)"
    by (rule splitFirst_plain) (use assms j brace r in \<open>auto simp: neq_Nil_conv simp del: json_text.simps\<close>)
  ultimately show "splitFirst (TrimSpace (run_text name ms)) = (''run'', name @ CHR '' '' # ?j)"
    by (simp add: whole del: json_text.simps)
qed

lemma params_unmarshal:
  assumes "params_ok (Some ms)"
  shows "sl_Params (go_slack_codec bad) (json_text (JObject ms)) = Inr (Some ms)"
proof -
  from assms have "json_valid (JObject ms)" "json_depth (JObject ms) \<le> maxNestingDepth"
    by (simp_all add: params_ok_def)
  moreover have "map_field (JObject ms) (Some []) = Some (Some ms)"
    using assms by (auto simp: params_ok_def)
  ultimately show ?thesis by (simp add: go_slack_codec_def Unmarshal_text del: json_text.simps)
qed

subsection \<open>Property\<close>

text \<open>
  C37: A signed slash command reaches the pipeline as it was typed. A form that Slack encodes and
  signs within five minutes of the clock, whose text is \<open>run\<close>, a skill name and a JSON object,
  leads to exactly one call of the task creator, with this name and these parameters, on the
  runtime \<open>local\<close>; the answer names the task, or says that submitting failed.
\<close>

theorem slack_run_over_wire:
  assumes "bo_signingSecret b = secret" and "secret \<noteq> []" and "bo_creator b = Some create"
    and "in_int64 ts" and "\<bar>Unix (fst (with_host Now w)) - ts\<bar> \<le> 300"
    and "length kvs \<le> defaultMaxParams" and "length (encode_query kvs) \<le> maxSlackBodySize"
    and "map_of kvs ''text'' = Some (run_text name ms)"
    and "name \<noteq> []" and "list_all plain_char name" and "params_ok (Some ms)"
  shows "slack_ServeHTTP (go_slack_codec bad) b (signed_request secret ts kvs r) w =
    (case create \<lparr>tci_SkillName = name, tci_Parameters = Some ms, tci_Runtime = ''local'',
                  tci_User = ''slack-user'', tci_Team = []\<rparr> (snd (with_host Now w)) of
       (Inl err, w') \<Rightarrow>
         (respondJSON ''ephemeral''
            ''Failed to submit task (runtime error). Check the hermesmanager logs or contact an admin.'', w')
     | (Inr res, w') \<Rightarrow>
         (respondJSON ''in_channel'' (''Task '' @ tco_TaskID res @ '' created for skill '' @ quote name), w'))"
proof -
  let ?j = "json_text (JObject ms)"
  have form: "sl_ParseQuery (go_slack_codec bad) (encode_query kvs) = Inr (Values_Get kvs)"
    by (simp add: go_slack_codec_def ParseQuery_encode assms(6))
  have said: "Values_Get kvs ''text'' = run_text name ms" by (simp add: Values_Get_def assms(8))
  have lower: "ToLower ''run'' = ''run''" by code_simp
  have "slack_command (go_slack_codec bad) b (run_text name ms) w1 =
      handleRun (go_slack_codec bad) b (name @ CHR '' '' # ?j) w1" for w1
    using run_text_words(1) [OF assms(9,10), of ms] lower
    by (simp add: slack_command_def Let_def del: json_text.simps)
  moreover have "rq_Method (signed_request secret ts kvs r) = ''POST''" by (simp add: signed_request_def)
  moreover have "?j \<noteq> []" by simp
  ultimately show ?thesis
    using signed_accepted [OF assms(2,4,7,5)] form said run_text_words(2) [OF assms(9,10), of ms]
      params_unmarshal [OF assms(11)] assms(1,3,9)
    by (simp add: slack_ServeHTTP_def handleRun_def del: json_text.simps)
qed

definition ex_form :: url_values where
  "ex_form = [(''command'', ''/hermes''), (''text'', run_text ''hello'' [(''name'', JString ''World'')])]"

lemma ex_form_text: "length (encode_query ex_form) < 200"
  by code_simp

lemma ex_form_params: "params_ok (Some [(''name'', JString ''World'')])"
  by (simp add: params_ok_def utf8_ascii byte_def merge_members_def maxNestingDepth_def del: utf8.simps)

theorem slack_run_over_wire_witness:
  "\<forall>st r. \<exists>resp w'. slack_ServeHTTP (go_slack_codec (\<lambda>b. Canceled)) (NewBot st ''key'' (Some ex_creator))
      (signed_request ''key'' 7 ex_form r) ex_counted = (resp, w') \<and> cw_created w' = 1 \<and>
      rs_Body resp = BObject [(''response_type'', ''in_channel''), (''text'', ''Task t1 created for skill '' @ quote ''hello'')]"
proof (intro allI)
  fix st :: "counted store" and r
  let ?b = "NewBot st ''key'' (Some ex_creator)"
  have len: "length ex_form \<le> defaultMaxParams" "length (encode_query ex_form) \<le> maxSlackBodySize"
    using ex_form_text by (simp_all add: ex_form_def defaultMaxParams_def maxSlackBodySize_def)
  have said: "map_of ex_form ''text'' = Some (run_text ''hello'' [(''name'', JString ''World'')])"
    by (simp add: ex_form_def del: json_text.simps)
  have clock: "\<bar>Unix (fst (with_host Now ex_counted)) - 7\<bar> \<le> 300"
    by (simp add: with_host_def Now_def ex_counted_def ex_host_def Unix_def)
  have made: "ex_creator i w = (Inr \<lparr>tco_TaskID = ''t1'', tco_Token = []\<rparr>, w\<lparr>cw_created := Suc (cw_created w)\<rparr>)" for i w
    by (simp add: ex_creator_def)
  have "cw_created (snd (with_host Now ex_counted)) = 0" by (simp add: with_host_def Now_def ex_counted_def)
  moreover have "bo_signingSecret ?b = ''key''" "bo_creator ?b = Some ex_creator" by (simp_all add: NewBot_def)
  moreover have "list_all plain_char ''hello''" by (simp add: plain_char_def)
  moreover have "in_int64 7" by (simp add: in_int64_def int64_bounds)
  ultimately show "\<exists>resp w'. slack_ServeHTTP (go_slack_codec (\<lambda>b. Canceled)) ?b (signed_request ''key'' 7 ex_form r) ex_counted = (resp, w') \<and>
      cw_created w' = 1 \<and> rs_Body resp = BObject [(''response_type'', ''in_channel''), (''text'', ''Task t1 created for skill '' @ quote ''hello'')]"
    using slack_run_over_wire [of ?b "''key''" ex_creator 7 ex_counted ex_form "''hello''" "[(''name'', JString ''World'')]" "\<lambda>b. Canceled" r]
      clock len said ex_form_params made
    by (simp add: respondJSON_def writeJSON_def)
qed

end
