(* ===== verification/Spec2Isabelle.thy ===== *)
theory Spec2Isabelle
  imports Go_Float Postgres Policy Scheduler Sha256 Api System Binary Interleaving Codec Slack_Wire
begin

text \<open>
  HermesManager is a control plane for agents. Clients create tasks over HTTP; a task names a
  skill, is checked against a policy, stored in PostgreSQL, given a token and started on a
  runtime (a local process, a Kubernetes job, a Docker container). The agent reports events
  under its token, and the events move the task to its end. This development models the Go
  program under \<open>src/\<close> and proves what holds of it.

  The parts, from the bottom up; each theory names its source at its start.

  \<^item> \<open>Prelude\<close>: collections of simplification facts, lists of rows with a key, pages of sorted
    lists, lists whose positions differ. \<open>Go_Std\<close>, \<open>Go_Int\<close>, \<open>Go_Float\<close>, \<open>Sha256\<close>: what the source uses
    of Go's standard library, executable (strings, integers of 32 and 64 bits, \<open>float64\<close>
    quotients and their decimal text, SHA-256 and HMAC). \<open>Go_Json\<close>: the scanner of \<open>encoding/json\<close>,
    string literals in UTF-8, printing, and that what is printed is read back. \<open>Go_Url\<close>: forms and
    queries of \<open>net/url\<close>, escaped and read back. \<open>Go_Time\<close>: the calendar, dates as \<open>encoding/json\<close> prints
    them and as \<open>time.Parse\<close> reads them.
  \<^item> \<open>Host\<close>: errors with their texts and wrapping, the environment, the clock, the random
    source, and the record \<open>world\<close> that every component extends. \<open>Domain\<close>: the types of
    \<open>internal/storage/store.go\<close>.
  \<^item> \<open>Store_Contract\<close>: the interface \<open>Store\<close> as a record of operations, its abstract state (four
    finite maps) and its laws as locales: \<open>store_contract\<close> (what any call does, a failing one
    too), \<open>live_store\<close> (what cannot fail while the database answers), and a store as a part of
    a larger state.
  \<^item> \<open>Postgres\<close>: \<open>internal/storage/postgres/store.go\<close> over the tables of
    \<open>internal/storage/migrations/001_init.up.sql\<close>: every method is its SQL statement, with primary keys, foreign keys,
    checks, NOT NULL, integer range and the order of rows left open where SQL leaves it
    open. A fault may hit any round trip, before or after its effect. The two locales are
    interpreted here on the model. \<open>Pg_Health\<close>: \<open>New\<close>, the pool settings, \<open>health.go\<close>.
  \<^item> \<open>Policy\<close> (\<open>internal/policy\<close>), \<open>Runtime_Registry\<close> (\<open>internal/runtime/runtime.go\<close>),
    \<open>Scheduler\<close> (\<open>internal/scheduler\<close>), \<open>Task_Service\<close> (\<open>internal/api/taskservice.go\<close>) with the
    locales \<open>runtime_contract\<close> and \<open>task_service\<close>.
  \<^item> \<open>Local_Driver\<close>, \<open>Docker_Driver\<close>, \<open>K8s_Driver\<close>: the three drivers; the Kubernetes API server is an
    interface with a concrete cluster behind it.
  \<^item> \<open>Http\<close> (requests, responses, \<open>middleware.go\<close>, \<open>auth.go\<close>, \<open>health.go\<close>, \<open>web/spa.go\<close>), \<open>Api\<close>
    (\<open>router.go\<close>: handlers and routes), \<open>Api_Laws\<close> (what every request does to the store, over the
    locale \<open>task_service\<close>).
  \<^item> \<open>Slack_Verify\<close>, \<open>Slack_Bot\<close> (\<open>internal/gateway/slack\<close>), \<open>Skill_Loader\<close> (\<open>internal/skills\<close>).
  \<^item> \<open>System\<close>: the world of the binary and the server as \<open>main.go\<close> wires it, where the locales
    are interpreted on the drivers, the store and the service. \<open>Startup\<close>, \<open>Binary\<close>:
    \<open>cmd/hermesmanager/main.go\<close>, the wiring and the process around it (command line, server settings,
    exit status).
  \<^item> \<open>Codec\<close>: requests, answers and the agent's \<open>task.json\<close> as JSON, by the struct tags of the source: an
    instance of the codec that the handlers are written over, with the dates and forms of \<open>Go_Time\<close> and
    \<open>Go_Url\<close>. \<open>Slack_Wire\<close>: a slash command from its signed form to the call of the pipeline.
  \<^item> \<open>Threads\<close>, \<open>Interleaving\<close>: the two writing handlers as state machines of their calls, and many
    of them over one world in any order.

  Conventions. A function that returns a value and an error has type \<open>error + 'a\<close>; state is
  passed and returned. A Go \<open>int\<close> is an \<open>int\<close> of HOL where the source compares and stores it,
  with the wrap-around written out where a computation can reach it (\<open>Go_Int\<close>, the counter of
  the round robin is a \<open>64 word\<close>). A string is the list of its bytes. Map iteration order is
  a parameter.

  What is proved here. The first sections are about single requests to the wired server: they refine an
  abstract life of a task (\<open>life\<close>), in which a task only moves forward (\<open>phase\<close>) and never leaves a
  final state; creations and events do exactly what they promise on every
  branch, reads do not write, tokens guard the routes; a client's JSON text is read as it was meant
  and so is the answer, the query of a listing and the form of a slash command. Then about requests served at the same time:
  the machines compute the handlers, end within ten and six steps, and keep integrity,
  history (\<open>history_kept\<close>) and revocation in every interleaving, while two races are possible:
  two final events of a task can both be accepted (\<open>finals_race\<close>), and a completion accepted during a
  dispatch is overwritten (\<open>completion_overwritten\<close>). Then about starting the binary and choosing a
  runtime. The properties of single components (tables, policy, selection, drivers, Slack,
  retries) stand in their own theories.

  Bounds. The only fuel is the number of steps of the machines, ten and six, which \<open>alone_as_written\<close> and
  \<open>handlers_end\<close> show to be enough; every other loop is structural.

  Parameters, code that is not under \<open>src/\<close>: YAML (\<open>fs_SkillYAML\<close>,
  \<open>pl_PolicyYAML\<close>), the text of a JSON error, the zone that a date is printed in (the function
  \<open>time\<close> of \<open>Encode\<close>, of which \<open>rfc3339_text\<close> is the one of Go), the construction of the connection pool, the
  credentials of a cluster, the UUID of a request, the file system, the embedded assets.

  Not modelled: log output and its level; the listening socket and the delivery of signals
  (\<open>main\<close> ends with the handler it serves, \<open>run_binary\<close> takes what the running server does as a
  function and continues with what follows a signal); TLS and
  HTTP parsing below a request; the bytes of the web application; \<open>embed.go\<close>, which only
  embeds the migration; the agents themselves; the pods of a Kubernetes job (the API server keeps objects by name, and a
  deleted one may linger); a random source that fails, for which Go 1.26 ends the process. That PostgreSQL refuses text with NUL bytes or
  that is not UTF-8 is one of the faults that may hit a round trip, and is not derived from the text;
  a database that answers is one without such a fault. The Slack bot is modelled although \<open>main.go\<close>
  does not mount it.
\<close>

section \<open>Requests and the life of a task\<close>

text \<open>
  C1: A request refines one step of the abstract life cycle. On a database that answers, every
  HTTP request to the wired server (any method, path, header, body; any state of the agents,
  the cluster and the process) changes the tables as one rule of \<open>life\<close> allows: not at all; by
  one new task with a valid token; by one task rolled back; or by one event under its task's valid token.
\<close>

theorem requests_refine_life:
  assumes "wired s" and "sys_wf w" and "sys_up w" and "Server_Handler h x c s r w = (resp, w')"
  shows "sys_wf w' \<and> sys_up w' \<and> life (sys_view w) (sys_view w')"
  using service_step_life [OF assms(1) service_step.request [OF assms(4)] assms(2,3)] .

theorem requests_refine_life_witness:
  "\<exists>resp w'. Server_Handler ex_host ex_assets (ex_codec ''task.started'') (ex_server None)
       (ex_http ''POST'' [''v1'', ''tasks'']) ex_system = (resp, w') \<and>
     rs_Status resp = StatusCreated \<and> life (sys_view ex_system) (sys_view w')"
  using ex_task_created requests_refine_life [OF ex_wired ex_system_ok] by blast

text \<open>
  C2: A finished task stays as it is. From a state where no finished task has a valid token,
  and over every sequence of requests on a database that answers, with anything in between
  that leaves the database alone, a completed, failed or timed-out task keeps every field of
  its row and never gets a valid token again.
\<close>

theorem terminal_is_final:
  assumes "wired s" and "sys_wf w" and "sys_up w" and "closed_tasks (sys_view w)"
    and "(service_step h x c s)\<^sup>*\<^sup>* w w'"
    and "as_tasks (sys_view w) i = Some t" and "terminal_state (t_State t)"
  shows "as_tasks (sys_view w') i = Some t \<and> closed_tasks (sys_view w')"
proof -
  have "frozen i t (sys_view w)" using assms(4,6,7) by (auto simp: frozen_def closed_tasks_def)
  with service_run_frozen [OF assms(1,5,2,3)] assms(4) show ?thesis by (auto simp: frozen_def)
qed

theorem terminal_is_final_witness:
  "\<exists>w'. service_step ex_host ex_assets (ex_codec ''task.started'') (ex_server None) (ex_tables ex_done_task []) w' \<and>
     length (pg_tasks (sy_pg w')) = 2 \<and>
     as_tasks (sys_view w') ''t1'' = Some ex_done_task"
proof -
  obtain res w' where run: "Server_Handler ex_host ex_assets (ex_codec ''task.started'') (ex_server None)
      (ex_http ''POST'' [''v1'', ''tasks'']) (ex_tables ex_done_task []) = (res, w')"
    and new: "length (pg_tasks (sy_pg w')) = 2"
    using ex_task_created_beside by blast
  note step = service_step.request [OF run]
  have "terminal_state (t_State ex_done_task)" by (simp add: ex_done_task_def terminal_state_def)
  with terminal_is_final [OF ex_wired ex_tables_ok(1,2) ex_tables_closed r_into_rtranclp, OF step ex_tables_task]
  have "as_tasks (sys_view w') ''t1'' = Some ex_done_task" by simp
  with step new show ?thesis by blast
qed

text \<open>
  C3: A task only moves forward. From a state where no finished task has a valid token, and over
  every sequence of requests on a database that answers, no task is lost, nothing of its row
  changes but its state and the date of the change, and the state never goes back from
  running to pending or from final to any other level.
\<close>

theorem tasks_advance:
  assumes "wired s" and "sys_wf w" and "sys_up w" and "closed_tasks (sys_view w)"
    and "(service_step h x c s)\<^sup>*\<^sup>* w w'" and "as_tasks (sys_view w) i = Some t"
  shows "\<exists>st u. as_tasks (sys_view w') i = Some (t\<lparr>t_State := st, t_UpdatedAt := u\<rparr>) \<and>
    phase_of (t_State t) \<le> phase_of st"
  using service_run_advances [OF assms(1,5,2-4,6)] by (auto simp: advanced_def)

theorem tasks_advance_witness:
  "\<exists>w' st u. service_step ex_host ex_assets (ex_codec ''task.started'') (ex_server None) (ex_tables ex_done_task []) w' \<and>
     length (pg_tasks (sy_pg w')) = 2 \<and>
     as_tasks (sys_view w') ''t1'' = Some (ex_done_task\<lparr>t_State := st, t_UpdatedAt := u\<rparr>) \<and>
     phase_of TaskStateCompleted \<le> phase_of st"
proof -
  obtain res w' where run: "Server_Handler ex_host ex_assets (ex_codec ''task.started'') (ex_server None)
      (ex_http ''POST'' [''v1'', ''tasks'']) (ex_tables ex_done_task []) = (res, w')"
    and new: "length (pg_tasks (sy_pg w')) = 2"
    using ex_task_created_beside by blast
  note step = service_step.request [OF run]
  have "t_State ex_done_task = TaskStateCompleted" by (simp add: ex_done_task_def)
  with tasks_advance [OF ex_wired ex_tables_ok(1,2) ex_tables_closed r_into_rtranclp, OF step ex_tables_task]
    step new show ?thesis by metis
qed

text \<open>
  Every request keeps the database well formed, whatever fails: with round trips lost before
  or after their effect or a refused dispatch, keys stay unique and
  every task, event and token keeps its references and its valid state.
\<close>

lemma requests_keep_integrity:
  assumes "wired s" and "sys_wf w" and "Server_Handler h x c s r w = (resp, w')"
  shows "sys_wf w'"
  using task_service.Handler_keeps [OF wired_service [OF assms(1)] assms(3)] assms(2) by blast


section \<open>Creating tasks\<close>

text \<open>
  C8: What an accepted creation promises, failing round trips included. The task is new, of a
  skill that exists and that the policy allows; its row holds the parameters, user, team,
  runtime and deadline of the request with their defaults, and is running; the token in the
  answer is the one that verifies for it; no other task and no other token changed.
\<close>

theorem created_task:
  assumes "wired s" and "sys_wf w" and "Server_CreateTask s req w = (Inr res, w')"
  shows "sys_wf w' \<and> as_tasks (sys_view w) (res_TaskID res) = None \<and>
    only_task (res_TaskID res) (sys_view w) (sys_view w') \<and>
    (\<exists>sk now c u. as_skills (sys_view w) (ctr_SkillName req) = Some sk \<and> policy_check (sv_policy s) req sk = None \<and>
       as_tasks (sys_view w') (res_TaskID res) = Some ((new_task req sk (res_TaskID res) now)
         \<lparr>t_State := TaskStateRunning, t_CreatedAt := c, t_UpdatedAt := u\<rparr>)) \<and>
    token_valid (sys_view w') (res_TaskID res) (Sum256 (res_Token res))"
proof -
  have "sv_scheduler s \<noteq> None" using assms(1) by (auto simp: wired_def)
  with task_service.create_success [OF wired_service [OF assms(1)] assms(2,3)] show ?thesis by simp
qed

theorem created_task_witness:
  "\<exists>res w'. Server_CreateTask (ex_server None) (ex_create ''local'') ex_system = (Inr res, w') \<and>
     token_valid (sys_view w') (res_TaskID res) (Sum256 (res_Token res))"
  using ex_created created_task [OF ex_wired ex_system_ok(1)] by blast

text \<open>
  C11: A local creation is accepted when nothing stands against it. On a database that answers (no
  statement fails for a reason outside the schema), for a skill that exists and that the policy allows, with a free slot, working system calls
  and an unused random id, the pipeline ends with a result.
\<close>

theorem create_succeeds:
  assumes "wired s" and "sys_wf w" and "sys_up w"
    and "as_skills (sys_view w) (ctr_SkillName req) = Some sk" and "policy_check (sv_policy s) req sk = None"
    and "ctr_Runtime req \<in> {[], ''local''}" and "sv_scheduler s = Some sched"
    and "map_of (sc_runtimes sched) ''local'' = Some rt" and "local_admits (sy_local w)"
    and "lo_fault (sy_local w) = (\<lambda>n st. None)"
    and "ctr_DeadlineSecs req < 2 ^ 31" and "ctr_Parameters req \<noteq> None"
    and "as_tasks (sys_view w) (fst (generateID ''task'' w)) = None"
  shows "\<exists>res w'. Server_CreateTask s req w = (Inr res, w')"
  by (rule create_local_ok [OF assms])

theorem create_succeeds_witness:
  "\<exists>res w'. Server_CreateTask (ex_server None) (ex_create ''local''\<lparr>ctr_Parameters := Some []\<rparr>) ex_system = (Inr res, w')"
proof -
  have sched: "sv_scheduler (ex_server None) = Some (NewScheduler id ex_runtimes sys_store)" by (simp add: ex_server_def)
  have rt: "map_of (sc_runtimes (NewScheduler id ex_runtimes sys_store)) ''local'' = Some (local_runtime ex_host)"
    by (simp add: NewScheduler_def ex_runtimes_eq)
  have skill: "as_skills (sys_view ex_system) (ctr_SkillName (ex_create ''local''\<lparr>ctr_Parameters := Some []\<rparr>)) = Some ex_skill"
    by (simp add: sys_view_def abs_pg_def lookup_by_Cons ex_state_simps)
  have pol: "policy_check (sv_policy (ex_server None)) (ex_create ''local''\<lparr>ctr_Parameters := Some []\<rparr>) ex_skill = None"
    by (simp add: policy_check_def ex_server_def)
  have new: "as_tasks (sys_view ex_system) i = None" for i by (simp add: sys_view_def abs_pg_def ex_state_simps)
  show ?thesis
    by (rule create_succeeds [OF ex_wired ex_system_ok skill pol _ sched rt _ _ _ _ new])
      (simp_all add: ex_state_simps local_admits_def maxConcurrency_def)
qed

text \<open>
  C5: What a failed creation leaves behind while the database answers: nothing, or one failed
  task whose token is revoked.
\<close>

theorem failed_creation:
  assumes "wired s" and "sys_wf w" and "sys_up w" and "Server_CreateTask s req w = (Inl err, w')"
  shows "sys_view w' = sys_view w \<or> (\<exists>i. rolled_back i (sys_view w) (sys_view w'))"
  by (rule task_service.create_failure [OF wired_service [OF assms(1)] assms(2-4)])

theorem failed_creation_witness:
  "\<exists>err w'. Server_CreateTask (ex_server None) (ex_create ''docker'') ex_system = (Inl err, w') \<and>
     (\<exists>i. rolled_back i (sys_view ex_system) (sys_view w'))"
proof -
  obtain err w' where run: "Server_CreateTask (ex_server None) (ex_create ''docker'') ex_system = (Inl err, w')"
    and rows: "length (pg_tasks (sy_pg w')) = 1" using ex_unavailable by blast
  from rows obtain t where "pg_tasks (sy_pg w') = [t]" by (auto simp: length_Suc_conv)
  then have "as_tasks (sys_view w') (t_ID t) \<noteq> as_tasks (sys_view ex_system) (t_ID t)"
    by (simp add: sys_view_def abs_pg_def lookup_by_Cons ex_system_def ex_pg_skill_def ex_pg_def)
  with failed_creation [OF ex_wired ex_system_ok run] run show ?thesis by metis
qed

text \<open>
  C14: A creation whose token cannot be stored is not rolled back: its new row stays behind,
  pending. When the database has not taken the token in spite of the error, and answers from
  then on, no request, in any number and order, changes this row, and it never gets a valid
  token.
\<close>

theorem orphan_stays_pending:
  assumes "wired s" and "sys_wf w" and "Server_CreateTask s req w = (Inl (token_lost e), w1)"
  shows "\<exists>i t. as_tasks (sys_view w) i = None \<and> as_tasks (sys_view w1) i = Some t \<and> t_State t = TaskStatePending \<and>
    (as_tokens (sys_view w1) i = None \<longrightarrow> sys_up w1 \<longrightarrow>
       (\<forall>w2. (service_step h x c s)\<^sup>*\<^sup>* w1 w2 \<longrightarrow>
          as_tasks (sys_view w2) i = Some t \<and> (\<forall>tok. \<not> token_valid (sys_view w2) i tok)))"
proof -
  from task_service.create_token_lost [OF wired_service [OF assms(1)] assms(2,3)] obtain i t
    where wf: "sys_wf w1" and t: "as_tasks (sys_view w) i = None" "as_tasks (sys_view w1) i = Some t" "t_State t = TaskStatePending"
    by blast
  have "as_tasks (sys_view w2) i = Some t \<and> (\<forall>tok. \<not> token_valid (sys_view w2) i tok)"
    if "as_tokens (sys_view w1) i = None" "sys_up w1" "(service_step h x c s)\<^sup>*\<^sup>* w1 w2" for w2
  proof -
    have "frozen i t (sys_view w1)" using t that(1) by (simp add: frozen_def token_valid_def)
    with service_run_frozen [OF assms(1) that(3) wf that(2)] show ?thesis by (simp add: frozen_def)
  qed
  with t show ?thesis by blast
qed

theorem orphan_stays_pending_witness:
  "\<exists>w1 i t. Server_CreateTask (ex_server None) (ex_create ''local'') ex_losing = (Inl (token_lost DeadlineExceeded), w1) \<and>
     as_tasks (sys_view w1) i = Some t \<and> t_State t = TaskStatePending \<and>
     (\<forall>w2. (service_step ex_host ex_assets (ex_codec ''task.completed'') (ex_server None))\<^sup>*\<^sup>* w1 w2 \<longrightarrow>
        as_tasks (sys_view w2) i = Some t)"
proof -
  obtain w1 where run: "Server_CreateTask (ex_server None) (ex_create ''local'') ex_losing = (Inl (token_lost DeadlineExceeded), w1)"
    and up: "sys_up w1" and none: "pg_tokens (sy_pg w1) = []" using ex_losing_run by blast
  from none have free: "as_tokens (sys_view w1) = (\<lambda>i. None)" by (simp add: sys_view_def abs_pg_def fun_eq_iff)
  from orphan_stays_pending [OF ex_wired ex_losing_ok run, of ex_host ex_assets "ex_codec ''task.completed''"]
  obtain i t where "as_tasks (sys_view w1) i = Some t" "t_State t = TaskStatePending"
    "\<forall>w2. (service_step ex_host ex_assets (ex_codec ''task.completed'') (ex_server None))\<^sup>*\<^sup>* w1 w2 \<longrightarrow>
       as_tasks (sys_view w2) i = Some t"
    using up unfolding free by blast
  with run show ?thesis by blast
qed

text \<open>
  C15: A creation that the policy denies answers 403 with the rule, before anything is written,
  drawn or started: the tables, the processes, the cluster and the process of the server are
  as they were.
\<close>

theorem policy_refusal:
  assumes "wired s" and "sys_wf w" and "sys_up w"
    and "cd_task c (rq_Body r) = Inr req" and "ctr_SkillName req \<noteq> []"
    and "as_skills (sys_view w) (ctr_SkillName req) = Some sk" and "sv_policy s = Some e"
    and "Evaluate e (policy_request_of req sk) = (False, rule_id, None)"
    and "handleCreateTask c s r w = (resp, w')"
  shows "resp = writeError StatusForbidden (''blocked by policy rule: '' @ rule_id) \<and>
    sys_view w' = sys_view w \<and> sy_local w' = sy_local w \<and> sy_cluster w' = sy_cluster w \<and> w_host w' = w_host w"
proof -
  note svc = wired_service [OF assms(1)]
  obtain g w1 where g: "GetSkill sys_store (ctr_SkillName req) w = (g, w1)" by (metis prod.exhaust)
  from sys.get_skill [OF assms(2) g] sys.live_get_skill [OF assms(3) g] assms(6)
  have gs: "g = Inr (Some sk)" and v: "sys_view w1 = sys_view w" by auto
  have "policy_check (sv_policy s) req sk = Some (PolicyDeniedError rule_id)"
    using assms(7,8) by (simp add: policy_check_def)
  with g gs wired_store [OF assms(1)]
  have "Server_CreateTask s req w = (Inl (PolicyDeniedError rule_id), w1)" by (simp add: Server_CreateTask_def)
  with assms(4,5,9) have "resp = writeError StatusForbidden (''blocked by policy rule: '' @ rule_id)" "w' = w1"
    by (auto simp: handleCreateTask_def create_error_response_def)
  with v sys_store_frame(1) [OF g] show ?thesis by auto
qed

theorem policy_refusal_witness:
  "\<exists>resp w'. handleCreateTask (ex_codec ''task.started'') (ex_server (Some ex_deny_dev)) (ex_http ''POST'' [''v1'', ''tasks''])
      ex_system = (resp, w') \<and> rs_Status resp = StatusForbidden \<and> sys_view w' = sys_view ex_system"
proof -
  obtain resp w' where run: "handleCreateTask (ex_codec ''task.started'') (ex_server (Some ex_deny_dev))
      (ex_http ''POST'' [''v1'', ''tasks'']) ex_system = (resp, w')" by (metis prod.exhaust)
  have "cd_task (ex_codec ''task.started'') (rq_Body (ex_http ''POST'' [''v1'', ''tasks''])) = Inr (ex_create ''local'')"
    "ctr_SkillName (ex_create ''local'') \<noteq> []"
    "as_skills (sys_view ex_system) (ctr_SkillName (ex_create ''local'')) = Some ex_skill"
    "sv_policy (ex_server (Some ex_deny_dev)) = Some ex_deny_dev"
    "Evaluate ex_deny_dev (policy_request_of (ex_create ''local'') ex_skill) = (False, ''no-dev'', None)"
    by (simp_all add: ex_codec_def ex_state_simps sys_view_def abs_pg_def lookup_by_Cons policy_request_of_def
        Evaluate_def ex_deny_dev_def matchRule_def condition_field_def apply_action_def)
  from policy_refusal [OF ex_wired ex_system_ok this run] run show ?thesis
    by (auto simp: writeError_def writeJSON_def)
qed

section \<open>Events\<close>

text \<open>
  C4: The event endpoint, completely. On a database that answers, an answer of 201 means that
  the request carried the valid token of its task and that exactly this event is recorded and
  the state of the task set as the type of the event says, with the token revoked by a final
  event and everything else as it was; any other answer means that nothing changed.
\<close>

theorem event_endpoint:
  assumes "wired s" and "sys_wf w" and "sys_up w" and "handleCreateEvent c s r w = (resp, w')"
  shows "if rs_Status resp = StatusCreated
    then \<exists>tok req ev e. agent_bearer r = Some tok \<and> cd_event c (rq_Body r) = Inr req \<and>
      token_valid (sys_view w) (cer_TaskID req) (Sum256 tok) \<and> rs_Body resp = BObject [(''id'', ev)] \<and>
      (cer_ID req \<noteq> [] \<longrightarrow> ev = cer_ID req) \<and> e_TaskID e = cer_TaskID req \<and> e_Type e = cer_Type req \<and>
      e_Payload e = cer_Payload req \<and> event_recorded ev e (sys_view w) (sys_view w')
    else sys_view w' = sys_view w"
  by (rule task_service.create_event_outcome [OF wired_service [OF assms(1)] assms(2-4)])

theorem event_endpoint_witness:
  "\<exists>resp w'. handleCreateEvent (ex_codec ''task.completed'') (ex_server None) (ex_bearer ''tok'')
      (ex_tables ex_task [ex_token ''tok'']) = (resp, w') \<and> rs_Status resp = StatusCreated \<and>
     as_events (sys_view w') ''e1'' \<noteq> None"
proof -
  obtain resp w' where run: "handleCreateEvent (ex_codec ''task.completed'') (ex_server None) (ex_bearer ''tok'')
      (ex_tables ex_task [ex_token ''tok'']) = (resp, w')" and ok: "rs_Status resp = StatusCreated"
    using ex_event_accepted by blast
  from event_endpoint [OF ex_wired ex_tables_ok(3,4) run] ok
  obtain tok req ev e where "cd_event (ex_codec ''task.completed'') (rq_Body (ex_bearer ''tok'')) = Inr req"
    "cer_ID req \<noteq> [] \<longrightarrow> ev = cer_ID req"
    "event_recorded ev e (sys_view (ex_tables ex_task [ex_token ''tok''])) (sys_view w')" by auto
  then have "as_events (sys_view w') ''e1'' = Some e"
    by (auto simp: ex_codec_def event_recorded_def finalized_events)
  with run ok show ?thesis by auto
qed

text \<open>
  C16: Without a valid token the event endpoint changes nothing, whatever fails: if the tables
  differ afterwards, the request carried a token whose SHA-256 is the stored, unrevoked hash
  of the task it names.
\<close>

theorem event_needs_valid_token:
  assumes "wired s" and "sys_wf w" and "handleCreateEvent c s r w = (resp, w')" and "sys_view w' \<noteq> sys_view w"
  shows "\<exists>tok req. agent_bearer r = Some tok \<and> cd_event c (rq_Body r) = Inr req \<and>
    token_valid (sys_view w) (cer_TaskID req) (Sum256 tok)"
  using task_service.event_needs_token [OF wired_service [OF assms(1)] assms(2,3)] assms(4) by blast

theorem event_needs_valid_token_witness:
  "\<exists>resp w'. handleCreateEvent (ex_codec ''task.completed'') (ex_server None) (ex_bearer ''tok'')
      (ex_tables ex_task [ex_token ''tok'']) = (resp, w') \<and> sys_view w' \<noteq> sys_view (ex_tables ex_task [ex_token ''tok'']) \<and>
     token_valid (sys_view (ex_tables ex_task [ex_token ''tok''])) ''t1'' (Sum256 ''tok'')"
proof -
  let ?w = "ex_tables ex_task [ex_token ''tok'']"
  obtain resp w' where run: "handleCreateEvent (ex_codec ''task.completed'') (ex_server None) (ex_bearer ''tok'') ?w = (resp, w')"
    and ev: "length (pg_events (sy_pg w')) = 1" using ex_event_accepted by blast
  have "as_events (sys_view w') \<noteq> as_events (sys_view ?w)"
  proof -
    from ev obtain e where "pg_events (sy_pg w') = [e]" by (auto simp: length_Suc_conv)
    then have "as_events (sys_view w') (e_ID e) = Some e" by (simp add: sys_view_def abs_pg_def lookup_by_Cons)
    moreover have "as_events (sys_view ?w) (e_ID e) = None"
      by (simp add: sys_view_def abs_pg_def ex_tables_def ex_pg_skill_def ex_pg_def)
    ultimately show ?thesis by auto
  qed
  then have ne: "sys_view w' \<noteq> sys_view ?w" by auto
  have tok: "agent_bearer (ex_bearer ''tok'') = Some ''tok''" by (simp add: agent_bearer_def ex_bearer_def)
  from event_needs_valid_token [OF ex_wired ex_tables_ok(3) run ne] obtain t req
    where "agent_bearer (ex_bearer ''tok'') = Some t" "cd_event (ex_codec ''task.completed'') (rq_Body (ex_bearer ''tok'')) = Inr req"
      and "token_valid (sys_view ?w) (cer_TaskID req) (Sum256 t)" by blast
  with tok have "token_valid (sys_view ?w) ''t1'' (Sum256 ''tok'')" by (auto simp: ex_codec_def)
  with run ne show ?thesis by blast
qed



text \<open>
  C9: The agent of a local task cannot report. The driver draws a second token for the process
  it starts, and the token that verifies is the first one, that of the answer to the client:
  unless the two hash alike, every event the agent sends with the token of its environment
  is refused.
\<close>

theorem agents_cannot_report:
  assumes "wired s" and "sys_wf w" and "sys_up w" and "Server_CreateTask s req w = (Inr res, w')"
    and "ctr_Runtime req \<in> {[], ''local''}" and "sv_scheduler s \<noteq> None"
  shows "\<exists>q p tok. p \<in> set (lo_procs (sy_local w')) \<and> ps_TaskID p = res_TaskID res \<and>
    map_of (ps_Env p) ''HERMESMANAGER_AGENT_TOKEN'' = Some tok \<and>
    res_Token res = token_at (w_host w) q \<and> tok = token_at (w_host w) (q + 32) \<and>
    (\<forall>c r ev resp w2. Sum256 tok \<noteq> Sum256 (res_Token res) \<longrightarrow> agent_bearer r = Some tok \<longrightarrow>
       cd_event c (rq_Body r) = Inr ev \<longrightarrow> cer_TaskID ev = res_TaskID res \<longrightarrow>
       handleCreateEvent c s r w' = (resp, w2) \<longrightarrow>
       rs_Status resp \<noteq> StatusCreated \<and> sys_view w2 = sys_view w')"
proof -
  note svc = wired_service [OF assms(1)]
  from task_service.create_keeps [OF svc assms(4)] assms(2,3) have w': "sys_wf w'" "sys_up w'" by auto
  from task_service.create_success [OF svc assms(2,4)]
  have valid: "token_valid (sys_view w') (res_TaskID res) (Sum256 (res_Token res))" by simp
  from agent_token_drawn_again [OF assms(1,4-6)] obtain q p
    where p: "p \<in> set (lo_procs (sy_local w'))" "ps_TaskID p = res_TaskID res" "res_Token res = token_at (w_host w) q"
      "map_of (ps_Env p) ''HERMESMANAGER_AGENT_TOKEN'' = Some (token_at (w_host w) (q + 32))" by blast
  let ?tok = "token_at (w_host w) (q + 32)"
  have "rs_Status resp \<noteq> StatusCreated \<and> sys_view w2 = sys_view w'"
    if "Sum256 ?tok \<noteq> Sum256 (res_Token res)" "agent_bearer r = Some ?tok" "cd_event c (rq_Body r) = Inr ev"
      "cer_TaskID ev = res_TaskID res" "handleCreateEvent c s r w' = (resp, w2)" for c r ev resp w2
    using task_service.create_event_outcome [OF svc w' that(5)] that(1-4) valid
    by (auto simp: token_valid_def split: if_splits)
  with p show ?thesis by blast
qed

theorem agents_cannot_report_witness:
  "\<exists>res w' p tok. Server_CreateTask (ex_server None) (ex_create ''local'') ex_system = (Inr res, w') \<and>
     p \<in> set (lo_procs (sy_local w')) \<and> map_of (ps_Env p) ''HERMESMANAGER_AGENT_TOKEN'' = Some tok \<and>
     tok \<noteq> res_Token res"
proof -
  obtain res w' where run: "Server_CreateTask (ex_server None) (ex_create ''local'') ex_system = (Inr res, w')"
    using ex_created by blast
  have "ctr_Runtime (ex_create ''local'') \<in> {[], ''local''}" "sv_scheduler (ex_server None) \<noteq> None"
    by (simp_all add: ex_create_def ex_server_def)
  from agents_cannot_report [OF ex_wired ex_system_ok run this] obtain q p
    where p: "p \<in> set (lo_procs (sy_local w'))" "res_Token res = token_at (w_host ex_system) q"
      "map_of (ps_Env p) ''HERMESMANAGER_AGENT_TOKEN'' = Some (token_at (w_host ex_system) (q + 32))" by blast
  have "map (h_rand ex_host) [q + 32..<q + 64] \<noteq> map (h_rand ex_host) [q..<q + 32]"
  proof
    assume same: "map (h_rand ex_host) [q + 32..<q + 64] = map (h_rand ex_host) [q..<q + 32]"
    have "h_rand ex_host (q + 32) = map (h_rand ex_host) [q + 32..<q + 64] ! 0" by (simp add: nth_map)
    also have "\<dots> = h_rand ex_host q" unfolding same by (simp add: nth_map)
    finally have "char_of (q + 32) = (char_of q :: char)" by (simp add: ex_host_def)
    then have "(of_char (char_of (q + 32) :: char) :: nat) = of_char (char_of q :: char)" by (rule arg_cong)
    then have "(q + 32) mod 256 = q mod 256" by (simp only: of_char_of)
    then have "(256::nat) dvd 32" using mod_eq_dvd_iff_nat [of q "q + 32" 256] by simp
    then show False using dvd_imp_le by fastforce
  qed
  then have "token_at (w_host ex_system) (q + 32) \<noteq> token_at (w_host ex_system) q"
    by (simp add: token_at_def EncodeToString_inj ex_system_def add.assoc)
  with run p show ?thesis by metis
qed

section \<open>Access\<close>

text \<open>
  C18: The API token guards every API route. With a token configured, a request without it is
  answered 401 or 403 with nothing done, unless it is one of a probe, of the application's
  assets, of the agents' event endpoint (which checks the task's own token), or one the router
  itself turns away.
\<close>

theorem api_token_required:
  assumes "Getenv h ''HERMESMANAGER_API_TOKEN'' \<noteq> []"
    and "\<not> api_authorized (Getenv h ''HERMESMANAGER_API_TOKEN'') r"
    and "Server_Handler h x c s r w = (resp, w')"
  shows "(rs_Status resp \<in> {StatusUnauthorized, StatusForbidden} \<and> w' = w) \<or>
    mux_route r \<in> {Healthz, Readyz, SpaRoute, CreateEventRoute, Redirect, MethodNotAllowed}"
proof (cases "auth_exempt r")
  case True
  then show ?thesis using exempt_routes by blast
next
  case False
  with assms check_bearer_stop [OF assms(2), of "wrapMiddleware (as_uuid x) (server_mux x c s)" w] show ?thesis
    by (auto simp: Server_Handler_def authMiddleware_def Let_def auth_handler_cases http_Error_def)
qed

theorem api_token_required_witness:
  "\<exists>resp w'. Server_Handler ex_guarded ex_assets (ex_codec ''task.started'') (ex_server None)
      (ex_http ''POST'' [''v1'', ''tasks'']) ex_system = (resp, w') \<and>
     rs_Status resp \<in> {StatusUnauthorized, StatusForbidden} \<and> w' = ex_system"
proof -
  have g: "Getenv ex_guarded ''HERMESMANAGER_API_TOKEN'' \<noteq> []"
    "\<not> api_authorized (Getenv ex_guarded ''HERMESMANAGER_API_TOKEN'') (ex_http ''POST'' [''v1'', ''tasks''])"
    by (simp_all add: ex_guarded_def Getenv_def api_authorized_def ex_http_def SplitN2_def)
  obtain resp w' where run: "Server_Handler ex_guarded ex_assets (ex_codec ''task.started'') (ex_server None)
      (ex_http ''POST'' [''v1'', ''tasks'']) ex_system = (resp, w')" by (metis prod.exhaust)
  have "mux_route (ex_http ''POST'' [''v1'', ''tasks'']) = CreateTaskRoute"
    by (simp add: mux_route_def ex_http_def is_get_def)
  with api_token_required [OF g run] run show ?thesis by auto
qed

text \<open>
  C19: Reading requests do not write. A GET or HEAD request, to any path and whatever fails,
  leaves the four tables as they were.
\<close>

theorem reads_do_not_write:
  assumes "wired s" and "sys_wf w" and "is_get (rq_Method r)" and "Server_Handler h x c s r w = (resp, w')"
  shows "sys_view w' = sys_view w"
  using task_service.Handler_reads [OF wired_service [OF assms(1)] assms(2-4)] by simp

theorem reads_do_not_write_witness:
  "\<exists>resp w'. Server_Handler ex_host ex_assets (ex_codec ''task.started'') (ex_server None)
      (ex_http ''GET'' [''v1'', ''tasks'']) ex_system = (resp, w') \<and> sys_view w' = sys_view ex_system"
proof -
  obtain resp w' where run: "Server_Handler ex_host ex_assets (ex_codec ''task.started'') (ex_server None)
      (ex_http ''GET'' [''v1'', ''tasks'']) ex_system = (resp, w')" by (metis prod.exhaust)
  have "is_get (rq_Method (ex_http ''GET'' [''v1'', ''tasks'']))" by (simp add: is_get_def ex_http_def)
  from reads_do_not_write [OF ex_wired ex_system_ok(1) this run] run show ?thesis by blast
qed

text \<open>
  C20: A task listing that answers 200 is a page of the task table: of all tasks of the asked
  state, each once and newest first, those from the \<open>offset\<close> parameter on, and at most as many as
  the \<open>limit\<close> parameter says, which is never less than one nor more than a hundred whatever the
  parameter holds.
\<close>

theorem task_listing:
  assumes "wired s" and "sys_wf w" and "handleListTasks s r w = (resp, w')" and "rs_Status resp = StatusOK"
  shows "\<exists>ts. rs_Body resp = BTasks ts \<and> 1 \<le> query_limit r \<and> query_limit r \<le> 100 \<and>
    page_of (as_tasks (sys_view w)) t_ID t_CreatedAt
      (\<lambda>t. rq_Query r ''state'' = [] \<or> t_State t = rq_Query r ''state'') (query_limit r) (query_offset r) ts"
proof -
  obtain ts w1 where l: "ListTasks sys_store (task_filter_of r) w = (ts, w1)" by (metis prod.exhaust)
  from assms(3,4) l wired_store [OF assms(1)] obtain rows where rows: "ts = Inr rows"
    and body: "rs_Body resp = BTasks (slice rows)"
    by (auto simp: handleListTasks_def writeError_def writeJSON_def go_consts split: sum.splits)
  note lim = query_limit_bounds [of r]
  have state: "(\<lambda>t. case query_opt r ''state'' of None \<Rightarrow> True | Some s \<Rightarrow> t_State t = s) =
      (\<lambda>t. rq_Query r ''state'' = [] \<or> t_State t = rq_Query r ''state'')"
    by (simp add: query_opt_def fun_eq_iff)
  from sys.list_tasks [OF assms(2) l] rows lim
  have "page_of (as_tasks (sys_view w)) t_ID t_CreatedAt
      (\<lambda>t. rq_Query r ''state'' = [] \<or> t_State t = rq_Query r ''state'') (query_limit r) (query_offset r) (slice rows)"
    by (simp add: task_filter_of_def state)
  with body lim show ?thesis by blast
qed

theorem task_listing_witness:
  "\<exists>resp w'. handleListTasks (ex_server None) (ex_http ''GET'' [''v1'', ''tasks'']) (ex_tables ex_task []) = (resp, w') \<and>
     rs_Status resp = StatusOK \<and> (\<exists>ts. rs_Body resp = BTasks ts \<and> length ts \<le> 100)"
proof -
  obtain resp w' where run: "handleListTasks (ex_server None) (ex_http ''GET'' [''v1'', ''tasks'']) (ex_tables ex_task []) = (resp, w')"
    and ok: "rs_Status resp = StatusOK" using ex_listing by blast
  from task_listing [OF ex_wired ex_tables_ok(5) run ok] run ok show ?thesis
    by (fastforce dest: page_of_length)
qed

lemma event_listing:
  assumes "wired s" and "sys_wf w" and "handleListEvents c s r w = (resp, w')" and "rs_Status resp = StatusOK"
  shows "\<exists>es. rs_Body resp = BEvents es \<and>
    page_of (as_events (sys_view w)) e_ID e_CreatedAt (event_matches (pg_timestamp (sy_pg w)) (event_filter_of c r))
      (query_limit r) (query_offset r) es"
proof -
  obtain es w1 where l: "ListEvents sys_store (event_filter_of c r) w = (es, w1)" by (metis prod.exhaust)
  from assms(3,4) l wired_store [OF assms(1)] obtain rows where rows: "es = Inr rows"
    and body: "rs_Body resp = BEvents (slice rows)"
    by (auto simp: handleListEvents_def writeError_def writeJSON_def go_consts split: sum.splits)
  from l obtain d where run: "pg_ListEvents (event_filter_of c r) (sy_pg w) = (es, d)"
    by (auto simp: sys_store_def store_on_part_def on_part_pair pg_store_def)
  from assms(2) have "pg_wf (sy_pg w)" by (simp add: sys_wf_def)
  from pg_ListEvents_law [OF this run] rows query_limit_bounds [of r] body show ?thesis
    by (auto simp: event_filter_of_def sys_view_def)
qed

text \<open>A zone east of Greenwich whose sign is not escaped: the date is not seen.\<close>

lemma unescaped_plus:
  "Values_Get (URL_Query ''since=1970-01-01T01:00:01+01:00'') ''since'' = ''1970-01-01T01:00:01 01:00''"
  "Parse_RFC3339 ''1970-01-01T01:00:01 01:00'' = None"
  by code_simp+

lemma since_plus_ignored:
  "rq_RawQuery r = ''since=1970-01-01T01:00:01+01:00'' \<Longrightarrow> ef_Since (event_filter_of (go_codec bad) r) = None"
  by (simp add: event_filter_of_def query_opt_def go_codec_def rq_Query_def unescaped_plus)

definition ex_since :: url_values where
  "ex_since = [(''task_id'', ''t1''), (''since'', rfc3339_text (\<lambda>t. 3600) 1000000000)]"

lemma ex_since_text: "rfc3339_text (\<lambda>t. 3600) 1000000000 = ''1970-01-01T01:00:01+01:00''"
  by code_simp

text \<open>
  C21: The date of an event can be asked for. A query that a client encodes, with a date as the
  answers print it in \<open>since\<close> (any zone of whole minutes), lists of all the events from that
  instant on, at the precision of the database, and of the asked task and type, each once and
  newest first, those from the offset on, up to the limit.
\<close>

theorem events_since_date:
  assumes "wired s" and "sys_wf w" and "handleListEvents (go_codec bad) s r w = (resp, w')" and "rs_Status resp = StatusOK"
    and "rq_RawQuery r = encode_query kvs" and "length kvs \<le> defaultMaxParams"
    and "map_of kvs ''since'' = Some (rfc3339_text zone t)" and "rfc3339_text zone t \<noteq> []"
    and "zone t mod 60 = 0" and "\<bar>zone t\<bar> < 86400"
  shows "\<exists>es. rs_Body resp = BEvents es \<and> int (length es) \<le> query_limit r \<and> query_limit r \<le> 100 \<and>
    page_of (as_events (sys_view w)) e_ID e_CreatedAt
      (\<lambda>e. (Values_Get kvs ''task_id'' = [] \<or> e_TaskID e = Values_Get kvs ''task_id'') \<and>
           (Values_Get kvs ''type'' = [] \<or> e_Type e = Values_Get kvs ''type'') \<and>
           pg_timestamp (sy_pg w) t \<le> e_CreatedAt e)
      (query_limit r) (query_offset r) es"
proof -
  have q: "rq_Query r k = Values_Get kvs k" for k by (simp add: rq_Query_def assms(5) URL_Query_encode [OF assms(6)])
  have "Values_Get kvs ''since'' = rfc3339_text zone t" by (simp add: Values_Get_def assms(7))
  then have "ef_Since (event_filter_of (go_codec bad) r) = Some t"
    using Parse_text [OF assms(9,10,8)] assms(8) by (simp add: event_filter_of_def query_opt_def q go_codec_def)
  then have "event_matches (pg_timestamp (sy_pg w)) (event_filter_of (go_codec bad) r) =
      (\<lambda>e. (Values_Get kvs ''task_id'' = [] \<or> e_TaskID e = Values_Get kvs ''task_id'') \<and>
           (Values_Get kvs ''type'' = [] \<or> e_Type e = Values_Get kvs ''type'') \<and>
           pg_timestamp (sy_pg w) t \<le> e_CreatedAt e)"
    by (auto simp: event_matches_def fun_eq_iff event_filter_of_def query_opt_def q)
  with event_listing [OF assms(1-4)] query_limit_bounds [of r] show ?thesis
    by (fastforce dest: page_of_length)
qed

theorem events_since_date_witness:
  "\<exists>resp w' es. handleListEvents (go_codec (\<lambda>b. Canceled)) (ex_server None)
      ((ex_http ''GET'' [''v1'', ''events''])\<lparr>rq_RawQuery := encode_query ex_since\<rparr>) ex_reported = (resp, w') \<and>
     rs_Body resp = BEvents es \<and> (\<forall>e \<in> set es. e_TaskID e = ''t1'' \<and> 1000000000 \<le> e_CreatedAt e)"
proof -
  let ?r = "(ex_http ''GET'' [''v1'', ''events''])\<lparr>rq_RawQuery := encode_query ex_since\<rparr>"
  obtain resp w' where run: "handleListEvents (go_codec (\<lambda>b. Canceled)) (ex_server None) ?r ex_reported = (resp, w')"
    and ok: "rs_Status resp = StatusOK" using ex_events_listed by blast
  have "pg_timestamp (sy_pg ex_reported) t = t" for t by (simp add: ex_reported_def ex_pg_skill_def ex_pg_def)
  moreover have "length ex_since \<le> defaultMaxParams" by (simp add: ex_since_def defaultMaxParams_def)
  moreover have "map_of ex_since ''since'' = Some (rfc3339_text (\<lambda>t. 3600) 1000000000)"
    "Values_Get ex_since ''task_id'' = ''t1''" by (simp_all add: ex_since_def Values_Get_def)
  ultimately show ?thesis
    using events_since_date [OF ex_wired ex_reported_ok run ok, of ex_since "\<lambda>t. 3600" 1000000000] run ex_since_text
    by (fastforce dest: page_of_row)
qed
section \<open>Requests and answers as text\<close>

lemma ex_created_local:
  "\<exists>res w'. Server_CreateTask (ex_server None) (ex_create ''local'') ex_system = (Inr res, w') \<and>
    utf8 (res_ExternalID res) \<and> utf8 (res_Runtime res)"
  by (simp add: ex_pipeline_simps ex_state_simps ex_store_simps local_runtime_def Local_Dispatch_def
      local_admits_def local_spawn_def maxConcurrency_def local_started_def
      utf8_ascii utf8_Itoa byte_def del: utf8.simps)

lemma ex_request_ok: "task_ok (ex_create ''local'')"
  by (simp add: task_ok_def ex_create_def params_ok_def in_int64_def int64_bounds utf8_ascii byte_def merge_members_def
      maxNestingDepth_def del: utf8.simps)

lemma ex_request_text: "length (task_text (ex_create ''local'')) < 200"
  by code_simp


text \<open>
  C12: What a client sends and gets as text. A creation request that is printed as JSON (any
  text in UTF-8, any integer of 64 bits, parameters within the depth the decoder allows), within
  the limit of the body and with anything after it, is decoded to itself: the handler does
  what \<open>CreateTask\<close> does with the request. And the answer, read as JSON, has the id and the
  token of the task that was made.
\<close>

theorem created_over_wire:
  assumes "task_ok q" and "length (task_text q) \<le> maxBodySize" and "ctr_SkillName q \<noteq> []"
    and "Server_CreateTask s q w = (Inr res, w')" and "utf8 (res_ExternalID res)" and "utf8 (res_Runtime res)"
  shows "\<exists>resp ms.
    limitBody (handleCreateTask (go_codec bad) s) (r\<lparr>rq_Body := \<lparr>br_data = task_text q @ t, br_err = e\<rparr>\<rparr>) w =
      (resp, w') \<and>
    rs_Status resp = StatusCreated \<and>
    scan_value (Encode time (rs_Body resp) @ u) = Complete (JObject ms) \<and>
    map_of ms ''task_id'' = Some (JString (res_TaskID res)) \<and>
    map_of ms ''token'' = Some (JString (res_Token res))"
proof -
  obtain t' e' where b: "MaxBytesReader maxBodySize \<lparr>br_data = task_text q @ t, br_err = e\<rparr> = \<lparr>br_data = task_text q @ t', br_err = e'\<rparr>"
    using MaxBytes_text [OF assms(2)] by metis
  have "limitBody (handleCreateTask (go_codec bad) s) (r\<lparr>rq_Body := \<lparr>br_data = task_text q @ t, br_err = e\<rparr>\<rparr>) w =
      (created_response res, w')"
    using assms(3,4) b Decode_task_text [OF assms(1)] by (simp add: limitBody_def handleCreateTask_def)
  moreover have "rs_Status (created_response res) = StatusCreated" by (simp add: created_response_def writeJSON_def)
  ultimately show ?thesis using created_answer [OF assms(5,6) CreateTask_utf8 [OF assms(4)], of time u] by auto
qed

theorem created_over_wire_witness:
  "\<exists>res w' resp ms. Server_CreateTask (ex_server None) (ex_create ''local'') ex_system = (Inr res, w') \<and>
    limitBody (handleCreateTask (go_codec (\<lambda>b. Canceled)) (ex_server None))
      ((ex_http ''POST'' [''v1'', ''tasks''])\<lparr>rq_Body := \<lparr>br_data = task_text (ex_create ''local'') @ nl, br_err = None\<rparr>\<rparr>)
      ex_system = (resp, w') \<and>
    scan_value (Encode (\<lambda>t. []) (rs_Body resp) @ []) = Complete (JObject ms) \<and>
    map_of ms ''token'' = Some (JString (res_Token res))"
proof -
  obtain res w' where run: "Server_CreateTask (ex_server None) (ex_create ''local'') ex_system = (Inr res, w')"
    and "utf8 (res_ExternalID res)" "utf8 (res_Runtime res)"
    using ex_created_local by blast
  moreover have "length (task_text (ex_create ''local'')) \<le> maxBodySize"
    using ex_request_text by (simp add: maxBodySize_def)
  moreover have "ctr_SkillName (ex_create ''local'') \<noteq> []" by (simp add: ex_create_def)
  ultimately show ?thesis
    using created_over_wire [OF ex_request_ok] by blast
qed


definition ex_report :: create_event_request where
  "ex_report = \<lparr>cer_ID = ''e1'', cer_TaskID = ''t1'', cer_Type = ''task.completed'', cer_Payload = Some [(''ok'', JBool True)]\<rparr>"

lemma ex_report_ok: "event_ok ex_report"
  by (simp add: event_ok_def ex_report_def params_ok_def utf8_ascii byte_def merge_members_def maxNestingDepth_def del: utf8.simps)

lemma ex_report_text: "length (event_text ex_report) < 200"
  by code_simp

text \<open>
  C13: The holder of a valid token is heard. On a database that answers (no statement fails
  for a reason outside the schema, so the event's text is storable), an event sent as JSON
  under the valid token of its task, of a known type, with a payload and an id not used
  before, is answered 201 and recorded, and the task moves as its type says.
\<close>

theorem valid_event_accepted:
  assumes "wired s" and "sys_wf w" and "sys_up w"
    and "agent_bearer r = Some tok" and "token_valid (sys_view w) (cer_TaskID v) (Sum256 tok)" and "cer_TaskID v \<noteq> []"
    and "event_ok v" and "length (event_text v) \<le> maxBodySize" and "cer_Type v \<in> set event_types"
    and "cer_Payload v \<noteq> None" and "cer_ID v \<noteq> []" and "as_events (sys_view w) (cer_ID v) = None"
  shows "\<exists>resp w' e.
    limitBody (handleCreateEvent (go_codec bad) s) (r\<lparr>rq_Body := \<lparr>br_data = event_text v @ t, br_err = err\<rparr>\<rparr>) w =
      (resp, w') \<and> rs_Status resp = StatusCreated \<and>
    e_TaskID e = cer_TaskID v \<and> e_Type e = cer_Type v \<and> e_Payload e = cer_Payload v \<and>
    event_recorded (cer_ID v) e (sys_view w) (sys_view w')"
proof -
  obtain t' e' where b: "MaxBytesReader maxBodySize \<lparr>br_data = event_text v @ t, br_err = err\<rparr> = \<lparr>br_data = event_text v @ t', br_err = e'\<rparr>"
    using MaxBytes_text [OF assms(8)] by metis
  define r' where "r' = r\<lparr>rq_Body := \<lparr>br_data = event_text v @ t', br_err = e'\<rparr>\<rparr>"
  have tok: "agent_bearer r' = Some tok" using assms(4) by (simp add: r'_def agent_bearer_def)
  have req: "cd_event (go_codec bad) (rq_Body r') = Inr v" by (simp add: r'_def Decode_event_text [OF assms(7)])
  obtain ok w1 where ver: "VerifyAgentToken sys_store (cer_TaskID v) (Sum256 tok) w = (ok, w1)" by (metis prod.exhaust)
  from sys.verify_token [OF assms(2) ver] sys.live_verify [OF assms(3) ver] assms(5)
  have 1: "ok = Inr True" "sys_wf w1" "sys_up w1" "sys_view w1 = sys_view w" by auto
  have task: "as_tasks (sys_view w1) (cer_TaskID v) \<noteq> None"
    using abs_pg_no_token [of "sy_pg w" "cer_TaskID v"] assms(2,5) 1(4) by (auto simp: token_valid_def sys_wf_def sys_view_def)
  obtain resp w' where st: "store_event (sv_store s) v w1 = (resp, w')" by (metis prod.exhaust)
  have run: "handleCreateEvent (go_codec bad) s r' w = (resp, w')"
    using tok req ver 1(1) st assms(6) by (simp add: handleCreateEvent_bearer wired_store [OF assms(1)])
  have ok: "rs_Status resp = StatusCreated"
    by (rule store_event_accepted [OF assms(1) 1(2,3) task assms(9-11) _ st]) (simp add: 1(4) assms(12))
  from task_service.create_event_outcome [OF wired_service [OF assms(1)] assms(2,3) run] ok req assms(11)
  obtain e where "e_TaskID e = cer_TaskID v" "e_Type e = cer_Type v" "e_Payload e = cer_Payload v"
    "event_recorded (cer_ID v) e (sys_view w) (sys_view w')" by auto
  moreover have "limitBody (handleCreateEvent (go_codec bad) s) (r\<lparr>rq_Body := \<lparr>br_data = event_text v @ t, br_err = err\<rparr>\<rparr>) w =
      (resp, w')" using run b by (simp add: limitBody_def r'_def)
  ultimately show ?thesis using ok by blast
qed

theorem valid_event_accepted_witness:
  "\<exists>resp w' e. limitBody (handleCreateEvent (go_codec (\<lambda>b. Canceled)) (ex_server None))
      ((ex_bearer ''tok'')\<lparr>rq_Body := \<lparr>br_data = event_text ex_report @ nl, br_err = None\<rparr>\<rparr>) (ex_tables ex_task [ex_token ''tok'']) =
      (resp, w') \<and> rs_Status resp = StatusCreated \<and>
    event_recorded ''e1'' e (sys_view (ex_tables ex_task [ex_token ''tok''])) (sys_view w')"
proof -
  let ?w = "ex_tables ex_task [ex_token ''tok'']"
  have "agent_bearer (ex_bearer ''tok'') = Some ''tok''" by (simp add: agent_bearer_def ex_bearer_def ex_http_def)
  moreover have "token_valid (sys_view ?w) (cer_TaskID ex_report) (Sum256 ''tok'')"
    by (simp add: token_valid_def sys_view_def abs_pg_def ex_tables_def lookup_by_Cons ex_token_def ex_report_def)
  moreover have "as_events (sys_view ?w) (cer_ID ex_report) = None"
    by (simp add: sys_view_def abs_pg_def ex_tables_def ex_pg_skill_def ex_pg_def)
  moreover have "length (event_text ex_report) \<le> maxBodySize"
    using ex_report_text by (simp add: maxBodySize_def)
  ultimately show ?thesis
    using valid_event_accepted [OF ex_wired ex_tables_ok(3,4), where v = ex_report and bad = "\<lambda>b. Canceled" and t = nl and err = None] ex_report_ok
    by (fastforce simp: ex_report_def event_types_def go_consts)
qed


section \<open>Requests at the same time\<close>

text \<open>
  The machines of the interleaved model are the handlers. Started on any request and left
  alone, the creation machine ends within ten steps where \<open>CreateTask\<close> ends and the event
  machine within six where the event handler ends, with the same answer and the same world.
\<close>

lemma alone_as_written:
  assumes "wired s"
  shows "iterate 10 (create_step s) (CLookup req) w = (let (r, w1) = Server_CreateTask s req w in (CDone r, w1)) \<and>
    iterate 6 (event_step s) (event_start c r) w = (let (resp, w1) = handleCreateEvent c s r w in (EDone resp, w1))"
proof -
  have "sc_store sched = sv_store s" if "sv_scheduler s = Some sched" for sched
    using assms that by (auto simp: wired_def)
  then show ?thesis by (simp add: iterate_create iterate_event)
qed

text \<open>
  A handler ends whatever happens around it. With the world changed in any way before each
  of its steps, a creation has its answer after ten steps of its own and an event after six.
\<close>

lemma handlers_end:
  assumes "length gs = 10" and "length gs2 = 6"
  shows "(\<exists>res. fst (interfered s gs (TCreate (CLookup req)) w) = TCreate (CDone res)) \<and>
    (\<exists>resp. fst (interfered s gs2 (TEvent (event_start c r)) w) = TEvent (EDone resp))"
proof -
  have "thread_left (TEvent (event_start c r)) \<le> 6" by (auto simp: event_start_def Let_def split: sum.splits)
  with assms have "thread_left (fst (interfered s gs (TCreate (CLookup req)) w)) = 0"
    "thread_left (fst (interfered s gs2 (TEvent (event_start c r)) w)) = 0"
    by (simp_all add: interfered_ends)
  with interfered_kind [of s gs "CLookup req" w "event_start c r"]
    interfered_kind [of s gs2 "CLookup req" w "event_start c r"] show ?thesis
    by (auto dest!: thread_ended)
qed

text \<open>
  C6: Integrity under concurrency. In every interleaving of requests, with handlers abandoned
  or the process stopped at any point and any round trip failing, the database stays well
  formed; an answered creation's task exists and holds the hash of the answered token; and
  no two answered creations name the same task.
\<close>

theorem interleaved_integrity:
  assumes "wired s" and "sys_wf w0" and "(conc_step h x c s)\<^sup>*\<^sup>* ([], w0) (ts, w)"
  shows "sys_wf w \<and>
    (\<forall>i res. i < length ts \<longrightarrow> ts ! i = TCreate (CDone (Inr res)) \<longrightarrow>
       as_tasks (sys_view w) (res_TaskID res) \<noteq> None \<and>
       (\<exists>revoked. as_tokens (sys_view w) (res_TaskID res) = Some (Sum256 (res_Token res), revoked)) \<and>
       (\<forall>j res2. j < length ts \<longrightarrow> j \<noteq> i \<longrightarrow> ts ! j = TCreate (CDone (Inr res2)) \<longrightarrow>
          res_TaskID res2 \<noteq> res_TaskID res))"
proof -
  from conc_run_ok [OF assms(1,3) conc_ok_start [OF assms(2)]] have ok: "conc_ok (ts, w)" by simp
  then have wf: "sys_wf w" and oks: "\<And>i. i < length ts \<Longrightarrow> thread_ok (sys_view w) (ts ! i)" and one: "apart owns ts"
    by (auto simp: conc_ok_def)
  have "as_tasks (sys_view w) (res_TaskID res) \<noteq> None \<and>
      (\<exists>revoked. as_tokens (sys_view w) (res_TaskID res) = Some (Sum256 (res_Token res), revoked))"
    if "i < length ts" "ts ! i = TCreate (CDone (Inr res))" for i res
    using oks [OF that(1)] that(2) by (simp add: issued_def known_def)
  moreover have "res_TaskID res2 \<noteq> res_TaskID res"
    if "i < length ts" "ts ! i = TCreate (CDone (Inr res))" "j < length ts" "j \<noteq> i"
      "ts ! j = TCreate (CDone (Inr res2))" for i j res res2
    using apartD [OF one that(1,3), of "res_TaskID res"] that by auto
  ultimately show ?thesis using wf by blast
qed

theorem interleaved_integrity_witness:
  "\<exists>res resp w. (conc_step ex_host ex_assets ex_race_codec (ex_server None))\<^sup>*\<^sup>* ([], ex_system)
       ([TCreate (CDone (Inr res)), TEvent (EDone resp)], w) \<and> sys_wf w \<and>
     as_tasks (sys_view w) (res_TaskID res) \<noteq> None"
proof -
  obtain res resp w where "schedule (ex_server None) [0, 0, 0, 0, 0, 0, 0, 1, 1, 1, 1, 1, 1, 0] (ex_race, ex_system) =
      ([TCreate (CDone (Inr res)), TEvent (EDone resp)], w)" using ex_overwritten by blast
  with ex_race_run have run: "(conc_step ex_host ex_assets ex_race_codec (ex_server None))\<^sup>*\<^sup>* ([], ex_system)
      ([TCreate (CDone (Inr res)), TEvent (EDone resp)], w)" by metis
  from interleaved_integrity [OF ex_wired ex_system_ok(1) run] run show ?thesis by fastforce
qed

text \<open>
  A revoked token stays revoked. Once the token of a task is revoked, no interleaving of
  requests, however it fails, makes any token valid for the task again.
\<close>

lemma revoked_for_good:
  assumes "wired s" and "sys_wf w0" and "(conc_step h x c s)\<^sup>*\<^sup>* ([], w0) (ts1, w1)"
    and "as_tokens (sys_view w1) i = Some (hash, True)" and "(conc_step h x c s)\<^sup>*\<^sup>* (ts1, w1) (ts2, w2)"
  shows "as_tokens (sys_view w2) i = Some (hash, True) \<and> (\<forall>any. \<not> token_valid (sys_view w2) i any)"
proof -
  from conc_run_ok [OF assms(1,3) conc_ok_start [OF assms(2)]] have "conc_ok (ts1, w1)" by simp
  from conc_run_ok [OF assms(1,5) this] have "history_kept (sys_view w1) (sys_view w2)" by simp
  with assms(4) obtain r where "as_tokens (sys_view w2) i = Some (hash, r)" "True \<longrightarrow> r"
    unfolding history_kept_def tokens_kept_def by blast
  then show ?thesis by (simp add: token_valid_def)
qed

text \<open>
  C7: History is never rewritten. Whatever the interleaving, the failures and the stops, a task
  row once stored is never lost and keeps everything but its state and the date of the change,
  a recorded event stays as it is for ever, the hash stored for a task is never replaced, and
  skills are left alone.
\<close>

theorem history_never_rewritten:
  assumes "wired s" and "sys_wf w0" and "(conc_step h x c s)\<^sup>*\<^sup>* ([], w0) (ts1, w1)"
    and "(conc_step h x c s)\<^sup>*\<^sup>* (ts1, w1) (ts2, w2)"
  shows "(\<forall>i t. as_tasks (sys_view w1) i = Some t \<longrightarrow>
      (\<exists>st u. as_tasks (sys_view w2) i = Some (t\<lparr>t_State := st, t_UpdatedAt := u\<rparr>))) \<and>
    (\<forall>ev e. as_events (sys_view w1) ev = Some e \<longrightarrow> as_events (sys_view w2) ev = Some e) \<and>
    (\<forall>i hash r. as_tokens (sys_view w1) i = Some (hash, r) \<longrightarrow>
      (\<exists>r'. as_tokens (sys_view w2) i = Some (hash, r') \<and> (r \<longrightarrow> r'))) \<and>
    as_skills (sys_view w2) = as_skills (sys_view w1)"
proof -
  from conc_run_ok [OF assms(1,3) conc_ok_start [OF assms(2)]] have "conc_ok (ts1, w1)" by simp
  from conc_run_ok [OF assms(1,4) this] have kept: "history_kept (sys_view w1) (sys_view w2)" by simp
  then have "as_skills (sys_view w2) = as_skills (sys_view w1)" "as_events (sys_view w1) \<subseteq>\<^sub>m as_events (sys_view w2)"
    and "\<And>i t. as_tasks (sys_view w1) i = Some t \<Longrightarrow>
      \<exists>st u. as_tasks (sys_view w2) i = Some (t\<lparr>t_State := st, t_UpdatedAt := u\<rparr>)"
    unfolding history_kept_def rows_kept_def by (blast elim: same_taskE)+
  with kept show ?thesis unfolding history_kept_def tokens_kept_def by (auto simp: map_le_def dom_def)
qed

theorem history_never_rewritten_witness:
  "\<exists>ts w st u. (conc_step ex_host ex_assets ex_two_codec (ex_server None))\<^sup>*\<^sup>* ([], ex_tables ex_task [ex_token ''tok'']) (ts, w) \<and>
     length (pg_events (sy_pg w)) = 2 \<and>
     as_tasks (sys_view w) ''t1'' = Some (ex_task\<lparr>t_State := st, t_UpdatedAt := u\<rparr>)"
proof -
  obtain ts w where run: "(conc_step ex_host ex_assets ex_two_codec (ex_server None))\<^sup>*\<^sup>* ([], ex_tables ex_task [ex_token ''tok'']) (ts, w)"
    and two: "map e_Type (pg_events (sy_pg w)) = [''task.completed'', ''task.failed'']"
    using ex_two_finals ex_finals_run by metis
  have "length (map e_Type (pg_events (sy_pg w))) = 2" unfolding two by simp
  moreover have "as_tasks (sys_view (ex_tables ex_task [ex_token ''tok''])) ''t1'' = Some ex_task"
    by (simp add: sys_view_def abs_pg_def ex_tables_def lookup_by_Cons ex_task_def)
  with history_never_rewritten [OF ex_wired ex_tables_ok(3) rtranclp.rtrancl_refl run]
  have "\<exists>st u. as_tasks (sys_view w) ''t1'' = Some (ex_task\<lparr>t_State := st, t_UpdatedAt := u\<rparr>)" by blast
  ultimately show ?thesis using run by auto
qed

text \<open>
  C17: Two final events of a task can both be accepted. The check of the token and the storing
  of the event are separate calls. For any two storable final events of a task under its
  valid token, there is an order of their calls in which both are answered 201 and recorded:
  after the first the task has its state, which is final, and after the second that of the
  second.
\<close>

theorem finals_race:
  assumes "wired s" and "sys_wf w" and "sys_up w" and "token_valid (sys_view w) i (Sum256 tok)" and "i \<noteq> []"
    and "agent_bearer r1 = Some tok" and "cd_event c (rq_Body r1) = Inr q1" and "cer_TaskID q1 = i"
    and "event_transition (cer_Type q1) = Some (state1, True)" and "storable (sys_view w) q1"
    and "agent_bearer r2 = Some tok" and "cd_event c (rq_Body r2) = Inr q2" and "cer_TaskID q2 = i"
    and "event_transition (cer_Type q2) = Some (state2, True)" and "storable (sys_view w) q2"
    and "cer_ID q1 \<noteq> cer_ID q2"
  shows "\<exists>ts1 w1 t1 resp1 resp2 w2 t2 e1 e2. (conc_step h x c s)\<^sup>*\<^sup>* ([], w) (ts1, w1) \<and>
    as_tasks (sys_view w1) i = Some t1 \<and> t_State t1 = state1 \<and>
    (conc_step h x c s)\<^sup>*\<^sup>* (ts1, w1) ([TEvent (EDone resp1), TEvent (EDone resp2)], w2) \<and>
    rs_Status resp1 = StatusCreated \<and> rs_Status resp2 = StatusCreated \<and>
    as_events (sys_view w2) (cer_ID q1) = Some e1 \<and> e_TaskID e1 = i \<and> e_Type e1 = cer_Type q1 \<and>
    as_events (sys_view w2) (cer_ID q2) = Some e2 \<and> e_TaskID e2 = i \<and> e_Type e2 = cer_Type q2 \<and>
    as_tasks (sys_view w2) i = Some t2 \<and> t_State t2 = state2"
proof -
  let ?i1 = "TEvent (EIdentify q1 (Sum256 tok))" and ?i2 = "TEvent (EIdentify q2 (Sum256 tok))"
  from both_checked [OF assms(1-3), of q1 tok q2 r1 c r2 h x] assms(4-8,11-13)
  obtain w0 where run0: "(conc_step h x c s)\<^sup>*\<^sup>* ([], w) ([?i1, ?i2], w0)"
    and 0: "sys_wf w0" "sys_up w0" "sys_view w0 = sys_view w" by auto
  obtain resp1 w1 where st1: "store_event (sv_store s) q1 w0 = (resp1, w1)" by (metis prod.exhaust)
  from final_event_stored [OF assms(1) 0(1,2) _ assms(9) st1] 0(3) assms(8,10) obtain e1 t1
    where 1: "rs_Status resp1 = StatusCreated" "sys_wf w1" "sys_up w1" "e_TaskID e1 = i" "e_Type e1 = cer_Type q1"
      "as_events (sys_view w1) = (as_events (sys_view w))(cer_ID q1 \<mapsto> e1)"
      "as_tasks (sys_view w1) i = Some t1" "t_State t1 = state1" by auto
  from conc_alone [of 0 "[?i1, ?i2]" "EIdentify q1 (Sum256 tok)" 5 s w0 "EDone resp1" w1 h x c] st1
  have run1: "(conc_step h x c s)\<^sup>*\<^sup>* ([?i1, ?i2], w0) ([TEvent (EDone resp1), ?i2], w1)"
    by (simp add: iterate_identified del: iterate.simps)
  obtain resp2 w2 where st2: "store_event (sv_store s) q2 w1 = (resp2, w2)" by (metis prod.exhaust)
  have "storable (sys_view w1) q2" using assms(13,15,16) 1 by (simp add: storable_def)
  from final_event_stored [OF assms(1) 1(2,3) this assms(14) st2] assms(13) obtain e2 t2
    where 2: "rs_Status resp2 = StatusCreated" "e_TaskID e2 = i" "e_Type e2 = cer_Type q2"
      "as_events (sys_view w2) = (as_events (sys_view w1))(cer_ID q2 \<mapsto> e2)"
      "as_tasks (sys_view w2) i = Some t2" "t_State t2 = state2" by auto
  from conc_alone [of 1 "[TEvent (EDone resp1), ?i2]" "EIdentify q2 (Sum256 tok)" 5 s w1 "EDone resp2" w2 h x c] st2
  have run2: "(conc_step h x c s)\<^sup>*\<^sup>* ([TEvent (EDone resp1), ?i2], w1) ([TEvent (EDone resp1), TEvent (EDone resp2)], w2)"
    by (simp add: iterate_identified del: iterate.simps)
  have "as_events (sys_view w2) (cer_ID q1) = Some e1" "as_events (sys_view w2) (cer_ID q2) = Some e2"
    using 1(6) 2(4) assms(16) by simp_all
  with rtranclp_trans [OF run0 run1] run2 1 2 show ?thesis by blast
qed

definition ex_failure :: create_event_request where
  "ex_failure = \<lparr>cer_ID = ''e2'', cer_TaskID = ''t1'', cer_Type = ''task.failed'', cer_Payload = Some []\<rparr>"

lemma ex_failure_ok: "event_ok ex_failure"
  by (simp add: event_ok_def ex_failure_def params_ok_def utf8_ascii byte_def merge_members_def maxNestingDepth_def del: utf8.simps)

theorem finals_race_witness:
  "\<exists>ts w resp1 resp2 t. (conc_step ex_host ex_assets (go_codec (\<lambda>b. Canceled)) (ex_server None))\<^sup>*\<^sup>*
       ([], ex_tables ex_task [ex_token ''tok'']) (ts, w) \<and>
     ts = [TEvent (EDone resp1), TEvent (EDone resp2)] \<and> rs_Status resp1 = StatusCreated \<and> rs_Status resp2 = StatusCreated \<and>
     as_tasks (sys_view w) ''t1'' = Some t \<and> t_State t = TaskStateFailed"
proof -
  let ?w = "ex_tables ex_task [ex_token ''tok'']"
  let ?r = "\<lambda>v. (ex_bearer ''tok'')\<lparr>rq_Body := \<lparr>br_data = event_text v @ nl, br_err = None\<rparr>\<rparr>"
  have tok: "token_valid (sys_view ?w) ''t1'' (Sum256 ''tok'')"
    by (simp add: token_valid_def sys_view_def abs_pg_def ex_tables_def lookup_by_Cons ex_token_def)
  have bearer: "agent_bearer (?r v) = Some ''tok''" for v by (simp add: agent_bearer_def ex_bearer_def ex_http_def)
  have body: "cd_event (go_codec (\<lambda>b. Canceled)) (rq_Body (?r ex_report)) = Inr ex_report"
    "cd_event (go_codec (\<lambda>b. Canceled)) (rq_Body (?r ex_failure)) = Inr ex_failure"
    by (simp_all add: Decode_event_text [OF ex_report_ok] Decode_event_text [OF ex_failure_ok])
  have task: "cer_TaskID ex_report = ''t1''" "cer_TaskID ex_failure = ''t1''" "cer_ID ex_report \<noteq> cer_ID ex_failure"
    by (simp_all add: ex_report_def ex_failure_def)
  have final: "event_transition (cer_Type ex_report) = Some (TaskStateCompleted, True)"
    "event_transition (cer_Type ex_failure) = Some (TaskStateFailed, True)"
    by (simp_all add: event_transition_def ex_report_def ex_failure_def go_consts)
  have row: "storable (sys_view ?w) ex_report" "storable (sys_view ?w) ex_failure"
    by (simp_all add: storable_def sys_view_def abs_pg_def ex_tables_def lookup_by_Cons ex_report_def ex_failure_def ex_task_def
        ex_pg_skill_def ex_pg_def)
  from finals_race [OF ex_wired ex_tables_ok(3,4) tok _ bearer body(1) task(1) final(1) row(1) bearer body(2) task(2) final(2) row(2) task(3),
      of ex_host ex_assets] obtain ts1 w1 resp1 resp2 w2 t2
    where "(conc_step ex_host ex_assets (go_codec (\<lambda>b. Canceled)) (ex_server None))\<^sup>*\<^sup>* ([], ?w) (ts1, w1)"
      "(conc_step ex_host ex_assets (go_codec (\<lambda>b. Canceled)) (ex_server None))\<^sup>*\<^sup>* (ts1, w1)
        ([TEvent (EDone resp1), TEvent (EDone resp2)], w2)"
      "rs_Status resp1 = StatusCreated" "rs_Status resp2 = StatusCreated"
      "as_tasks (sys_view w2) ''t1'' = Some t2" "t_State t2 = TaskStateFailed" by force
  then show ?thesis using rtranclp_trans by metis
qed

text \<open>
  A completion can be overwritten. The scheduler marks the task running after the agent has
  been started: a completion that is accepted in between is undone, and the task then runs
  for ever, its token revoked. The schedule has the completion carry the token that the
  creation has stored; as the drivers give their agents another one (\<open>agents_cannot_report\<close>), only
  a guess makes it happen in the program as it is.
\<close>

lemma completion_overwritten:
  "\<exists>res resp w. (conc_step ex_host ex_assets ex_race_codec (ex_server None))\<^sup>*\<^sup>* ([], ex_system)
       ([TCreate (CDone (Inr res)), TEvent (EDone resp)], w) \<and> rs_Status resp = StatusCreated \<and>
     map t_State (pg_tasks (sy_pg w)) = [''running''] \<and> map tk_revoked (pg_tokens (sy_pg w)) = [True] \<and>
     map e_Type (pg_events (sy_pg w)) = [''task.completed'']"
  using ex_overwritten ex_race_run by metis

section \<open>Choosing a runtime\<close>

text \<open>
  C34: Lowest load picks a least loaded runtime. Whatever the order of the map and whatever asking
  a runtime changes in the world, a selection asks every runtime once; it returns the first of
  those with the least load that was reported, if this is below 2, and else says that none is
  available.
\<close>

theorem lowest_load_least:
  assumes "sc_runtimes s \<noteq> []" and "selectLowestLoad ord s w = (r, w')"
    and "polled (scan_rows ord (sc_runtimes s)) w = (ps, w2)"
  shows "w' = w2 \<and> map fst ps = map snd (scan_rows ord (sc_runtimes s)) \<and>
    (case r of
       Inl err \<Rightarrow> err = none_available \<and> (\<forall>j y. j < length ps \<longrightarrow> snd (ps ! j) = Some y \<longrightarrow> 2 \<le> y)
     | Inr rt \<Rightarrow> (\<exists>i x. i < length ps \<and> rt = Some (fst (ps ! i)) \<and> snd (ps ! i) = Some x \<and> x < 2 \<and>
         (\<forall>j y. j < length ps \<longrightarrow> snd (ps ! j) = Some y \<longrightarrow> x \<le> y \<and> (j < i \<longrightarrow> x < y))))"
proof -
  have "map fst ps = map snd (scan_rows ord (sc_runtimes s))"
    using polled_runtimes [of "scan_rows ord (sc_runtimes s)" w] assms(3) by simp
  moreover have "least_below 2 ps rt \<Longrightarrow> \<exists>i x. i < length ps \<and> rt = fst (ps ! i) \<and> snd (ps ! i) = Some x \<and> x < 2 \<and>
      (\<forall>j y. j < length ps \<longrightarrow> snd (ps ! j) = Some y \<longrightarrow> x \<le> y \<and> (j < i \<longrightarrow> x < y))" for rt
    unfolding least_below_def by (metis fst_conv snd_conv)
  ultimately show ?thesis
    using lowest_load_cases [OF assms] none_below_nth [of 2 ps] by auto
qed

theorem lowest_load_least_witness:
  "\<exists>w' ps. selectLowestLoad id (NewScheduler id ex_runtimes sys_store) ex_system = (Inr (Some (docker_New ex_host)), w') \<and>
     cl_ticks (sy_cluster w') = 1 \<and> polled ex_runtimes ex_system = (ps, w') \<and>
     (\<exists>i x. i < length ps \<and> fst (ps ! i) = docker_New ex_host \<and> snd (ps ! i) = Some x \<and>
        (\<forall>j y. j < length ps \<longrightarrow> snd (ps ! j) = Some y \<longrightarrow> x \<le> y))"
proof -
  let ?s = "NewScheduler id ex_runtimes sys_store"
  have fl: "fdiv (Go_Float.float64 0) (Go_Float.float64 5) = 0" "fdiv (Go_Float.float64 0) (Go_Float.float64 10) = 0"
    "fdiv (Go_Float.float64 0) (Go_Float.float64 50) = 0"
    by code_simp+
  obtain w' where run: "selectLowestLoad id ?s ex_system = (Inr (Some (docker_New ex_host)), w')"
    and ticks: "cl_ticks (sy_cluster w') = 1"
    by (simp add: selectLowestLoad_def NewScheduler_def ex_runtimes_eq scan_rows_def docker_New_def Docker_Status_def
        k8s_runtime_def K8s_Status_def local_runtime_def Local_Status_def on_part_def cluster_client_def api_call_def list_job_objects_def
        ex_state_simps ex_cluster_def fl Let_def k8s_maxConcurrency_def maxConcurrency_def)
  obtain ps w2 where p: "polled (scan_rows id (sc_runtimes ?s)) ex_system = (ps, w2)" by (metis prod.exhaust)
  have rts: "scan_rows id (sc_runtimes ?s) = ex_runtimes" "sc_runtimes ?s \<noteq> []"
    by (simp_all add: NewScheduler_def scan_rows_def ex_runtimes_eq)
  from lowest_load_least [OF rts(2) run p] run ticks p show ?thesis unfolding rts by auto
qed
section \<open>Startup\<close>

text \<open>
  C26: What seeding does with a skills directory. Each YAML file of the directory has, in its
  order, the outcome that its contents call for (\<open>file_outcome\<close>: the error of reading or parsing
  it, of a missing name or of the store, or the skill with the fields of the file); the count is
  that of the skills and the error the first of the errors. No skill is lost and no task, event
  or token touched; and when there is no error, the table holds for each name the last file
  with it and is otherwise unchanged.
\<close>

theorem skills_seeded:
  assumes "sys_wf w" and "fs_ReadDir fs dir = Inr es" and "LoadFromDir fs sys_store dir w = ((n, err), w')"
  shows "\<exists>rs. list_all2 (file_outcome fs (sys_up w)) (map (\<lambda>e. path_Join dir (de_Name e)) (filter is_skill_entry es)) rs \<and>
    n = int (length (loaded_skills rs)) \<and> err = first_error rs \<and>
    dom (as_skills (sys_view w)) \<subseteq> dom (as_skills (sys_view w')) \<and>
    sk_Name ` set (loaded_skills rs) \<subseteq> dom (as_skills (sys_view w')) \<and>
    as_tasks (sys_view w') = as_tasks (sys_view w) \<and> as_tokens (sys_view w') = as_tokens (sys_view w) \<and>
    as_events (sys_view w') = as_events (sys_view w) \<and>
    (err = None \<longrightarrow> skills_overlaid (loaded_skills rs) (as_skills (sys_view w)) (as_skills (sys_view w')))"
proof -
  obtain rs where l: "load_files fs sys_store (skill_paths dir es) w = (rs, w')"
    and n: "n = int (length (loaded_skills rs))" and err: "err = first_error rs"
    using assms(2,3) by (auto simp: LoadFromDir_def load_loop_files split: prod.splits)
  have "list_all2 (file_outcome fs (sys_up w)) (map (\<lambda>e. path_Join dir (de_Name e)) (filter is_skill_entry es)) rs"
    using seeding.load_files_outcomes [OF l, of "sys_up w"] by (simp add: skill_paths_def)
  moreover note seeding.load_files_keep [OF assms(1) l]
  moreover have "err = None \<Longrightarrow>
      skills_overlaid (loaded_skills rs) (as_skills (sys_view w)) (as_skills (sys_view w'))"
    using seeding.load_files_exact [OF assms(1) l] err by simp
  ultimately show ?thesis using n err by (intro exI [of _ rs]) simp
qed

theorem skills_seeded_witness:
  "\<exists>w'. LoadFromDir ex_fs sys_store ''/skills'' ex_system = ((1, None), w') \<and>
     dom (as_skills (sys_view ex_system)) \<subseteq> dom (as_skills (sys_view w'))"
proof -
  obtain w' where run: "LoadFromDir ex_fs sys_store ''/skills'' ex_system = ((1, None), w')" using ex_seeded by blast
  have "fs_ReadDir ex_fs ''/skills'' = Inr [\<lparr>de_Name = ''README.md'', de_IsDir = False\<rparr>, \<lparr>de_Name = ''a.yaml'', de_IsDir = False\<rparr>]"
    by (simp add: ex_fs_def)
  from skills_seeded [OF ex_system_ok(1) this run] run show ?thesis by blast
qed

text \<open>
  C22: On a fresh database inside a cluster the binary starts. With a reachable empty database, a
  policy that loads (or none) and the credentials of a cluster, a start always ends in a
  serving server over a migrated, well formed database, whatever the skills directory holds.
\<close>

theorem fresh_start_serves:
  assumes "\<not> fl_version fl" and "\<not> fl_help fl" and "h_env (w_host w) ''DATABASE_URL'' = url" and "url \<noteq> []"
    and "pl_ParseConfig pl url = None" and "\<And>c. pl_Connect pl c = None"
    and "sys_wf w" and "pg_fault (sy_pg w) = (\<lambda>n. None)" and "pg_relations (sy_pg w) = []"
    and "pl_InCluster pl = InCluster k"
    and "policy_from pl (h_env (w_host w) ''HERMESMANAGER_POLICY_FILE'') = Inr pol"
  shows "\<exists>port hdl s w'. main fl pl w = (Serving port hdl (Some s), w') \<and> wired s \<and> sv_policy s = pol \<and>
    sys_wf w' \<and> migrated w'"
proof -
  from start_fresh [OF assms(5,6,8-11)] obtain port hdl s w'
    where st: "start_server pl url (h_env (w_host w) ''HERMESMANAGER_POLICY_FILE'') w = (Serving port hdl (Some s), w')"
      and pol: "sv_policy s = pol" by blast
  have "main fl pl w = start_server pl url (h_env (w_host w) ''HERMESMANAGER_POLICY_FILE'') w"
    using assms(1-4) by (auto simp: main_def envOr_def Getenv_def Let_def)
  with st pol start_wired [OF st] start_wf [OF assms(7) st] start_migrated [OF assms(8) st] show ?thesis by auto
qed

theorem fresh_start_serves_witness:
  "\<exists>port hdl s w'. main \<lparr>fl_version = False, fl_help = False\<rparr> ex_platform ex_configured = (Serving port hdl (Some s), w') \<and>
     sys_wf w' \<and> migrated w'"
proof -
  have "h_env (w_host ex_configured) ''DATABASE_URL'' = ''postgres://db''" "sys_wf ex_configured"
    "pg_fault (sy_pg ex_configured) = (\<lambda>n. None)" "pg_relations (sy_pg ex_configured) = []"
    "pl_InCluster ex_platform = InCluster cluster_client" "pl_ParseConfig ex_platform ''postgres://db'' = None"
    "policy_from ex_platform (h_env (w_host ex_configured) ''HERMESMANAGER_POLICY_FILE'') = Inr None"
    "pl_Connect ex_platform c = None" for c
    using ex_pg_wf by (simp_all add: ex_configured_def ex_fresh_def ex_platform_def policy_from_def sys_wf_def) (simp_all add: ex_pg_def)
  from fresh_start_serves [where fl = "\<lparr>fl_version = False, fl_help = False\<rparr>", OF _ _ this(1) _ this(6,8,2,3,4,5,7)]
  show ?thesis by auto
qed

text \<open>
  C25: Without \<open>DATABASE_URL\<close> the binary is inert. It starts (no fault of the platform can stop
  it), changes nothing, and its handler never touches the database, the local processes or the
  cluster: every API route answers 501.
\<close>

theorem dev_mode_inert:
  assumes "\<not> fl_version fl" and "\<not> fl_help fl" and "h_env (w_host w) ''DATABASE_URL'' = []"
  shows "\<exists>port hdl. main fl pl w = (Serving port hdl None, w) \<and>
    (\<forall>r v. sy_pg (snd (hdl r v)) = sy_pg v \<and> sy_local (snd (hdl r v)) = sy_local v \<and>
       sy_cluster (snd (hdl r v)) = sy_cluster v \<and>
       (mux_route r \<notin> {Healthz, Readyz, SpaRoute, Redirect, MethodNotAllowed} \<longrightarrow>
          rs_Status (fst (hdl r v)) = StatusNotImplemented))"
proof -
  have "main fl pl w = (Serving (envOr (w_host w) ''HERMESMANAGER_PORT'' ''8080'') (NewRouter (pl_assets pl)) None, w)"
    using assms by (simp add: main_def envOr_def Getenv_def Let_def)
  moreover have "sy_pg (snd (NewRouter x r v)) = sy_pg v \<and> sy_local (snd (NewRouter x r v)) = sy_local v \<and>
      sy_cluster (snd (NewRouter x r v)) = sy_cluster v \<and>
      (mux_route r \<notin> {Healthz, Readyz, SpaRoute, Redirect, MethodNotAllowed} \<longrightarrow>
        rs_Status (fst (NewRouter x r v)) = StatusNotImplemented)" for x r and v :: system
  proof -
    obtain h w0 where "snd (NewRouter x r v) = v\<lparr>w_host := h\<rparr>" and "rs_Status (fst (NewRouter x r v)) =
        rs_Status (fst (stub_mux x (r\<lparr>rq_Body := MaxBytesReader maxBodySize (rq_Body r)\<rparr>) (w0 :: system)))"
      using NewRouter_run [of x r v] by blast
    then show ?thesis by (simp add: stub_mux_status)
  qed
  ultimately show ?thesis by blast
qed

theorem dev_mode_inert_witness:
  "\<exists>port hdl. main \<lparr>fl_version = False, fl_help = False\<rparr> ex_platform ex_system = (Serving port hdl None, ex_system)"
proof -
  have "h_env (w_host ex_system) ''DATABASE_URL'' = []" by (simp add: ex_state_simps)
  from dev_mode_inert [where fl = "\<lparr>fl_version = False, fl_help = False\<rparr>" and pl = ex_platform, OF _ _ this]
  obtain port hdl where "main \<lparr>fl_version = False, fl_help = False\<rparr> ex_platform ex_system = (Serving port hdl None, ex_system)"
    by auto
  then show ?thesis by blast
qed

text \<open>
  C23: The binary cannot be started twice on the same database. After a start that served, and
  any number of requests, every further start against the same tables ends in a fatal error:
  the migration's indexes exist already.
\<close>

theorem restart_fails:
  assumes "sys_wf w" and "pg_fault (sy_pg w) = (\<lambda>n. None)"
    and "start_server pl url pf w = (Serving port hdl (Some s), w1)"
    and "(service_step h x c s)\<^sup>*\<^sup>* w1 w2"
  shows "\<exists>why e w3. start_server pl2 url2 pf2 w2 = (Fatal why e, w3) \<and>
    (why = ''postgres connection failed'' \<or> why = ''migration failed'')"
  using start_again [OF service_run_migrated [OF start_wired [OF assms(3)] assms(4) start_wf [OF assms(1,3)]
      start_migrated [OF assms(2,3)]]] .

theorem restart_fails_witness:
  "\<exists>port hdl w1. start_server ex_platform ''postgres://db'' [] ex_fresh = (Serving port hdl (Some (ex_server None)), w1) \<and>
     (\<exists>why e w3. start_server ex_platform ''postgres://db'' [] w1 = (Fatal why e, w3))"
proof -
  obtain port hdl w1 where st: "start_server ex_platform ''postgres://db'' [] ex_fresh =
      (Serving port hdl (Some (ex_server None)), w1)" using ex_started by blast
  have "sys_wf ex_fresh" "pg_fault (sy_pg ex_fresh) = (\<lambda>n. None)"
    by (simp_all add: ex_fresh_def sys_wf_def ex_pg_wf) (simp add: ex_pg_def)
  from restart_fails [OF this st rtranclp.rtrancl_refl] st show ?thesis by blast
qed

text \<open>
  C24: Outside a cluster the binary does not start. With a database configured and no cluster
  around the process, every start is fatal, since the build of the runtimes fails with the
  Kubernetes driver even where only local tasks are meant to run.
\<close>

theorem outside_cluster_fatal:
  assumes "\<not> fl_version fl" and "\<not> fl_help fl" and "h_env (w_host w) ''DATABASE_URL'' \<noteq> []"
    and "pl_InCluster pl = NotInCluster err"
  shows "\<exists>why e w'. main fl pl w = (Fatal why e, w')"
proof -
  have build: "\<exists>e. Build ord h (drivers (pl_Marshal pl) (pl_InCluster pl)) = Inl e" for ord h
    by (simp add: Build_def build_loop_fails drivers_def k8s_factory_def k8s_New_def assms(4) Let_def)
  have "\<exists>why e w'. start_server pl url pf w = (Fatal why e, w')" for url pf
  proof -
    obtain r w1 where n: "on_part sy_pg put_pg (pg_New (pl_ParseConfig pl) (pl_Connect pl) (w_host w) url) w = (r, w1)"
      by (metis prod.exhaust)
    obtain e w2 where m: "Migrate sys_store w1 = (e, w2)" by (metis prod.exhaust)
    obtain e2 where "Build (pl_registry_order pl) (w_host (seed_skills pl w2)) (drivers (pl_Marshal pl) (pl_InCluster pl)) = Inl e2"
      using build by blast
    with n m show ?thesis
      by (cases r; cases e; cases "policy_from pl pf") (simp_all add: start_server_def Let_def)
  qed
  with assms(1-3) show ?thesis by (simp add: main_def envOr_def Getenv_def Let_def)
qed

theorem outside_cluster_fatal_witness:
  "\<exists>why e w'. main \<lparr>fl_version = False, fl_help = False\<rparr> ex_outside ex_configured = (Fatal why e, w')"
proof -
  have "h_env (w_host ex_configured) ''DATABASE_URL'' \<noteq> []"
    "pl_InCluster ex_outside = NotInCluster (NewError ''not in cluster'')"
    by (simp_all add: ex_configured_def ex_outside_def)
  from outside_cluster_fatal [where fl = "\<lparr>fl_version = False, fl_help = False\<rparr>", OF _ _ this] show ?thesis by simp
qed

end
